(* ===== verification/Ceq_Prelude.thy ===== *)
theory Ceq_Prelude
  imports Main "HOL-Library.Word"
begin

text \<open>
  Shared vocabulary of the development: the C types the wrapper in \<^verbatim>\<open>src/ceq.c\<close>
  computes with, the arithmetic facts about them that every component needs, and
  the fact collections that carry the component proofs.

  \<^item> A C \<^verbatim>\<open>int\<close> is a 32-bit word \<open>c_int\<close>; it is read as a signed number with
    \<open>sint\<close>, compared with \<open><s\<close>, and \<open>+\<close> and \<open>*\<close> wrap around (C leaves signed
    overflow undefined; the lemmas \<open>sint_succ\<close> and \<open>sint_mult_exact\<close> say when
    no wrap happens).
  \<^item> A \<^verbatim>\<open>double*\<close> is an address \<open>addr\<close>: the index of a \<^verbatim>\<open>double\<close>-sized cell, so
    that \<^verbatim>\<open>ptr + k\<close> is integer addition of the sign-extended \<open>k\<close>.
  \<^item> A region is a half-open interval of addresses; slices of a row-major
    \<open>[N, n]\<close> array are the regions \<open>slice p n i\<close>.
\<close>

section \<open>Fact collections\<close>

named_theorems ceq_unfold \<open>defining equations of the modelled C functions\<close>
named_theorems ceq_contract \<open>defining equations of the solver contracts\<close>
named_theorems ceq_region \<open>membership and inclusion facts about regions and slices\<close>

section \<open>C integers and addresses\<close>

type_synonym c_int = "32 word"
type_synonym addr = int

definition ptr_add :: "addr \<Rightarrow> c_int \<Rightarrow> addr" where
  "ptr_add p k = p + sint k"

definition region :: "addr \<Rightarrow> int \<Rightarrow> addr set" where
  "region p n = {p ..< p + n}"

definition slice :: "addr \<Rightarrow> int \<Rightarrow> int \<Rightarrow> addr set" where
  "slice p n i = region (p + i * n) n"

section \<open>Signed 32-bit arithmetic\<close>

lemma sint_c_int_range: "- 2147483648 \<le> sint (i :: c_int) \<and> sint i \<le> 2147483647"
  using sint_ge [of i] sint_less [of i] by simp

lemma sint_word_of_int_exact:
  "- 2147483648 \<le> k \<Longrightarrow> k \<le> 2147483647 \<Longrightarrow> sint (word_of_int k :: c_int) = k"
  by (simp add: sint_sbintrunc' signed_take_bit_int_eq_self)

lemma word_of_int_sint [simp]: "word_of_int (sint i) = (i :: c_int)"
  by (simp add: of_int_sint)

lemma sint_succ:
  assumes "i <s (n :: c_int)"
  shows "sint (i + 1) = sint i + 1"
proof -
  have "sint i < sint n"
    using assms by (simp add: word_sless_alt)
  moreover have "sint n \<le> 2147483647" and "- 2147483648 \<le> sint i"
    using sint_c_int_range [of n] sint_c_int_range [of i] by simp_all
  ultimately show ?thesis
    by (simp add: sint_word_add signed_take_bit_int_eq_self)
qed

lemma sint_mult_exact:
  assumes "- 2147483648 \<le> sint i * sint n" and "sint i * sint (n :: c_int) \<le> 2147483647"
  shows "sint (i * n) = sint i * sint n"
  using assms by (simp add: sint_word_mult signed_take_bit_int_eq_self)

lemma sint_inject: "sint i = sint j \<longleftrightarrow> i = (j :: c_int)"
  by (metis word_of_int_sint)

lemma sless_sint [simp]: "(i :: c_int) <s n \<longleftrightarrow> sint i < sint n"
  by (simp add: word_sless_alt)

text \<open>
  The indices a loop \<^verbatim>\<open>for (i = i0; i < N; i++)\<close> visits, as \<open>c_int\<close> values.
\<close>

definition indices_from :: "c_int \<Rightarrow> c_int \<Rightarrow> c_int list" where
  "indices_from i n = map word_of_int [sint i .. sint n - 1]"

lemma indices_from_done: "\<not> i <s n \<Longrightarrow> indices_from i n = []"
  by (simp add: indices_from_def)

lemma indices_from_step: "i <s n \<Longrightarrow> indices_from i n = i # indices_from (i + 1) n"
  by (simp add: indices_from_def upto_rec1 [of "sint i"] sint_succ [of i n])

lemma indices_from_split:
  assumes "sint i \<le> sint k" and "sint k < sint n"
  shows "indices_from i n = indices_from i k @ k # indices_from (k + 1) n"
proof -
  have "[sint i .. sint n - 1] = [sint i .. sint k - 1] @ [sint k .. sint n - 1]"
    using assms by (intro upto_split1) simp_all
  then have "indices_from i n = indices_from i k @ indices_from k n"
    by (simp add: indices_from_def)
  moreover have "indices_from k n = k # indices_from (k + 1) n"
    using assms(2) by (intro indices_from_step) simp
  ultimately show ?thesis by simp
qed

lemma length_indices_from: "length (indices_from i n) = nat (sint n - sint i)"
  by (simp add: indices_from_def)

lemma sint_index_in_range:
  assumes "sint (i :: c_int) \<le> k" and "k < sint (n :: c_int)"
  shows "sint (word_of_int k :: c_int) = k"
proof (rule sint_word_of_int_exact)
  show "- 2147483648 \<le> k" using assms(1) sint_c_int_range [of i] by linarith
  show "k \<le> 2147483647" using assms(2) sint_c_int_range [of n] by linarith
qed

lemma sint_nth_indices_from:
  assumes "k < length (indices_from i n)"
  shows "sint (indices_from i n ! k) = sint i + int k"
proof -
  from assms have k: "int k < sint n - sint i"
    by (simp add: length_indices_from)
  then have "indices_from i n ! k = word_of_int (sint i + int k)"
    unfolding indices_from_def by (subst nth_map) (simp_all del: of_int_add add: nth_upto)
  moreover have "sint (word_of_int (sint i + int k) :: c_int) = sint i + int k"
    using k by (intro sint_index_in_range [of i _ n]) linarith+
  ultimately show ?thesis by (simp only:)
qed

lemma set_indices_from: "set (indices_from i n) = {j. sint i \<le> sint j \<and> sint j < sint n}"
proof (intro set_eqI iffI)
  fix j :: c_int assume "j \<in> set (indices_from i n)"
  then obtain k where k: "sint i \<le> k" "k < sint n" and j: "j = word_of_int k"
    by (auto simp: indices_from_def)
  from k have "sint j = k"
    unfolding j by (rule sint_index_in_range)
  with k show "j \<in> {j. sint i \<le> sint j \<and> sint j < sint n}" by simp
next
  fix j :: c_int assume "j \<in> {j. sint i \<le> sint j \<and> sint j < sint n}"
  then have "sint j \<in> set [sint i .. sint n - 1]" by simp
  then have "(word_of_int (sint j) :: c_int) \<in> word_of_int ` set [sint i .. sint n - 1]"
    by (rule imageI)
  then show "j \<in> set (indices_from i n)" by (simp add: indices_from_def)
qed

lemma distinct_indices_from: "distinct (indices_from i n)"
proof -
  have "inj_on (word_of_int :: int \<Rightarrow> c_int) (set [sint i .. sint n - 1])"
  proof (rule inj_onI)
    fix x y assume x: "x \<in> set [sint i .. sint n - 1]" and y: "y \<in> set [sint i .. sint n - 1]"
      and eq: "(word_of_int x :: c_int) = word_of_int y"
    from x have "sint (word_of_int x :: c_int) = x"
      by (intro sint_index_in_range [of i _ n]) simp_all
    moreover from y have "sint (word_of_int y :: c_int) = y"
      by (intro sint_index_in_range [of i _ n]) simp_all
    ultimately show "x = y" using eq by metis
  qed
  then show ?thesis
    by (simp add: indices_from_def distinct_map)
qed

text \<open>The indices from \<open>k\<close> on are the indices of a loop of \<open>N - k\<close> iterations, shifted by \<open>k\<close>.\<close>

lemma map_add_upto: "map (\<lambda>x. x + k) [i..j] = [i + k..j + k]"
  by (rule nth_equalityI) (simp_all add: nth_upto)

lemma sint_diff_exact:
  assumes "0 \<le> sint k" and "sint k \<le> sint (N :: c_int)"
  shows "sint (N - k) = sint N - sint k"
  using assms sint_c_int_range [of N]
  by (simp add: sint_word_diff signed_take_bit_int_eq_self)

lemma sint_add_exact:
  assumes "- 2147483648 \<le> sint i + sint k" and "sint i + sint (k :: c_int) \<le> 2147483647"
  shows "sint (i + k) = sint i + sint k"
  using assms by (simp add: sint_word_add signed_take_bit_int_eq_self)

lemma indices_from_shift:
  assumes "0 \<le> sint k" and "sint k \<le> sint N"
  shows "indices_from k N = map (\<lambda>i. i + k) (indices_from 0 (N - k))"
proof -
  have "[sint k..sint N - 1] = map (\<lambda>x. x + sint k) [0..sint N - sint k - 1]"
    by (simp add: map_add_upto)
  then show ?thesis
    by (simp add: indices_from_def sint_diff_exact [OF assms] comp_def)
qed

lemma indices_from_append:
  assumes "0 \<le> sint k" and "sint k \<le> sint N"
  shows "indices_from 0 N = indices_from 0 k @ indices_from k N"
proof (cases "sint k = sint N")
  case True
  then show ?thesis by (simp add: indices_from_def)
next
  case False
  with assms have "[0..sint N - 1] = [0..sint k - 1] @ [sint k..sint N - 1]"
    by (intro upto_split1) simp_all
  then show ?thesis
    by (simp add: indices_from_def)
qed

section \<open>Regions and slices\<close>

lemma in_region [ceq_region, simp]: "x \<in> region p n \<longleftrightarrow> p \<le> x \<and> x < p + n"
  by (simp add: region_def)

lemma region_empty [simp]: "n \<le> 0 \<Longrightarrow> region p n = {}"
  by (auto simp: region_def)

lemma region_1 [simp]: "region p 1 = {p}"
  by (auto simp: region_def)

lemma region_nat [simp]: "region p (int (nat n)) = region p n"
  by (auto simp: region_def)

lemma region_clip [simp]: "region p (if 0 \<le> n then n else 0) = region p n"
  by (auto simp: region_def)

lemma region_Suc: "region p (1 + int n) = insert p (region (p + 1) (int n))"
  by (auto simp: region_def)

lemma in_slice [ceq_region]: "x \<in> slice p n i \<longleftrightarrow> p + i * n \<le> x \<and> x < p + i * n + n"
  by (simp add: slice_def)

lemma slice_0 [simp]: "slice p n 0 = region p n"
  by (simp add: slice_def)

lemma slice_subset_region [ceq_region]:
  assumes "0 \<le> i" and "i < m" and "0 \<le> n"
  shows "slice p n i \<subseteq> region p (m * n)"
proof -
  have "(i + 1) * n \<le> m * n"
    using assms by (intro mult_right_mono) simp_all
  moreover have "0 \<le> i * n"
    using assms by simp
  ultimately show ?thesis
    by (auto simp: in_slice algebra_simps)
qed

lemma slice_disjoint_less:
  assumes "i < j" and "0 \<le> n"
  shows "slice p n i \<inter> slice q n j = {} \<or> p \<noteq> q"
proof -
  have "(i + 1) * n \<le> j * n"
    using assms by (intro mult_right_mono) simp_all
  then show ?thesis
    by (auto simp: in_slice algebra_simps)
qed

lemma slice_disjoint [ceq_region]:
  assumes "i \<noteq> j" and "0 \<le> n"
  shows "slice p n i \<inter> slice p n j = {}"
proof (cases "i < j")
  case True
  with assms slice_disjoint_less [of i j n p p] show ?thesis by simp
next
  case False
  with assms have "j < i" by simp
  with assms slice_disjoint_less [of j i n p p] show ?thesis by (simp add: Int_commute)
qed

lemma ptr_add_slice: "region (ptr_add p k) n = slice p n i" if "sint k = i * n"
  using that by (simp add: ptr_add_def slice_def)

section \<open>Results that may fault\<close>

text \<open>
  A computation that may fault returns \<open>Inl\<close> of the fault or \<open>Inr\<close> of its value;
  \<open>bind_res\<close> sequences two of them.
\<close>

definition bind_res :: "'e + 'a \<Rightarrow> ('a \<Rightarrow> 'e + 'b) \<Rightarrow> 'e + 'b" where
  "bind_res m f = (case m of Inl e \<Rightarrow> Inl e | Inr x \<Rightarrow> f x)"

lemma bind_res_Inl [simp]: "bind_res (Inl e) f = Inl e"
  by (simp add: bind_res_def)

lemma bind_res_Inr [simp]: "bind_res (Inr x) f = f x"
  by (simp add: bind_res_def)

lemma bind_res_eq_Inr:
  "bind_res m f = Inr y \<longleftrightarrow> (\<exists>x. m = Inr x \<and> f x = Inr y)"
  by (cases m) simp_all

lemma bind_res_eq_Inl:
  "bind_res m f = Inl e \<longleftrightarrow> m = Inl e \<or> (\<exists>x. m = Inr x \<and> f x = Inl e)"
  by (cases m) simp_all

lemma bind_res_assoc: "bind_res (bind_res m f) g = bind_res m (\<lambda>x. bind_res (f x) g)"
  by (cases m) simp_all

end
