(* ===== verification/C_Memory.thy ===== *)
theory C_Memory
  imports Ceq_Prelude
begin

text \<open>
  The state the functions of \<^verbatim>\<open>src/ceq.c\<close> act on. Every pointer parameter of the
  file is a \<^verbatim>\<open>double*\<close>, so the memory is one partial map from addresses to
  \<^verbatim>\<open>double\<close> values; a cell outside its domain is not allocated and an access to it
  is a fault (undefined behaviour in C). The wrapper never computes with a
  \<^verbatim>\<open>double\<close>, it only moves them, so the type of values is a parameter \<open>'d\<close>.
  The second part of the world is the text written to the standard output.
\<close>

section \<open>World and faults\<close>

datatype fault = Bad_Read addr | Bad_Write addr

type_synonym 'd heap = "addr \<rightharpoonup> 'd"

record 'd world =
  heap :: "'d heap"
  stdout :: string

type_synonym ('d, 'a) outcome = "fault + ('a \<times> 'd world)"

section \<open>Reading and writing cells\<close>

definition load :: "'d world \<Rightarrow> addr \<Rightarrow> fault + 'd" where
  "load w x = (case heap w x of None \<Rightarrow> Inl (Bad_Read x) | Some v \<Rightarrow> Inr v)"

definition index :: "'d world \<Rightarrow> addr \<Rightarrow> c_int \<Rightarrow> fault + 'd" where
  "index w p i = load w (ptr_add p i)"

definition store :: "addr \<Rightarrow> 'd \<Rightarrow> 'd world \<Rightarrow> fault + 'd world" where
  "store x v w =
     (case heap w x of
        None \<Rightarrow> Inl (Bad_Write x)
      | Some _ \<Rightarrow> Inr (w\<lparr>heap := (heap w)(x \<mapsto> v)\<rparr>))"

fun load_array :: "'d world \<Rightarrow> addr \<Rightarrow> nat \<Rightarrow> fault + 'd list" where
  "load_array w p 0 = Inr []"
| "load_array w p (Suc n) =
     bind_res (load w p) (\<lambda>v. bind_res (load_array w (p + 1) n) (\<lambda>vs. Inr (v # vs)))"

fun store_array :: "addr \<Rightarrow> 'd list \<Rightarrow> 'd world \<Rightarrow> fault + 'd world" where
  "store_array p [] w = Inr w"
| "store_array p (v # vs) w = bind_res (store p v w) (store_array (p + 1) vs)"

section \<open>Allocation, agreement and frames\<close>

definition allocated :: "'d world \<Rightarrow> addr \<Rightarrow> int \<Rightarrow> bool" where
  "allocated w p n = list_all (\<lambda>x. heap w x \<noteq> None) [p .. p + n - 1]"

definition agree_on :: "addr set \<Rightarrow> 'd world \<Rightarrow> 'd world \<Rightarrow> bool" where
  "agree_on S w w' \<longleftrightarrow> (\<forall>x\<in>S. heap w x = heap w' x)"

definition same_outside :: "addr set \<Rightarrow> 'd world \<Rightarrow> 'd world \<Rightarrow> bool" where
  "same_outside S w w' \<longleftrightarrow> dom (heap w') = dom (heap w) \<and> agree_on (- S) w w'"

definition extends_output :: "'d world \<Rightarrow> 'd world \<Rightarrow> bool" where
  "extends_output w w' \<longleftrightarrow> (\<exists>s. stdout w' = stdout w @ s)"

subsection \<open>Cells\<close>

lemma load_eq_Inr [simp]: "load w x = Inr v \<longleftrightarrow> heap w x = Some v"
  by (simp add: load_def split: option.splits)

lemma load_eq_Inl [simp]: "load w x = Inl f \<longleftrightarrow> heap w x = None \<and> f = Bad_Read x"
  by (auto simp: load_def split: option.splits)

lemma index_eq_Inr: "index w p i = Inr v \<longleftrightarrow> heap w (p + sint i) = Some v"
  by (simp add: index_def ptr_add_def)

lemma index_eq_Inl: "index w p i = Inl f \<longleftrightarrow> heap w (p + sint i) = None \<and> f = Bad_Read (p + sint i)"
  by (simp add: index_def ptr_add_def)

lemma store_eq_Inr:
  "store x v w = Inr w' \<longleftrightarrow> x \<in> dom (heap w) \<and> w' = w\<lparr>heap := (heap w)(x \<mapsto> v)\<rparr>"
  by (auto simp: store_def split: option.splits)

lemma store_eq_Inl: "store x v w = Inl f \<longleftrightarrow> heap w x = None \<and> f = Bad_Write x"
  by (auto simp: store_def split: option.splits)

lemma index_cong_agree:
  "agree_on S w w' \<Longrightarrow> ptr_add p i \<in> S \<Longrightarrow> index w p i = index w' p i"
  by (simp add: index_def load_def agree_on_def)

subsection \<open>Allocation\<close>

lemma allocated_iff: "allocated w p n \<longleftrightarrow> region p n \<subseteq> dom (heap w)"
  by (auto simp: allocated_def list_all_iff)

lemma allocated_index:
  assumes "allocated w p n" and "0 \<le> sint i" and "sint i < n"
  shows "\<exists>v. index w p i = Inr v"
proof -
  have "p + sint i \<in> region p n"
    using assms(2,3) by simp
  with assms(1) have "p + sint i \<in> dom (heap w)"
    unfolding allocated_iff by (rule subsetD)
  then show ?thesis
    by (auto simp: index_eq_Inr)
qed

lemma allocated_mono:
  "allocated w p n \<Longrightarrow> region q m \<subseteq> region p n \<Longrightarrow> allocated w q m"
  unfolding allocated_iff by (rule subset_trans)

lemma allocated_cong_dom: "dom (heap w') = dom (heap w) \<Longrightarrow> allocated w' p n = allocated w p n"
  by (simp add: allocated_iff)

subsection \<open>Agreement\<close>

lemma agree_on_refl [simp]: "agree_on S w w"
  by (simp add: agree_on_def)

lemma agree_on_sym: "agree_on S w w' \<Longrightarrow> agree_on S w' w"
  by (simp add: agree_on_def)

lemma agree_on_trans: "agree_on S w w' \<Longrightarrow> agree_on S w' w'' \<Longrightarrow> agree_on S w w''"
  by (simp add: agree_on_def)

lemma agree_on_subset: "agree_on S w w' \<Longrightarrow> T \<subseteq> S \<Longrightarrow> agree_on T w w'"
  by (auto simp: agree_on_def)

lemma agree_on_Un [simp]: "agree_on (S \<union> T) w w' \<longleftrightarrow> agree_on S w w' \<and> agree_on T w w'"
  by (auto simp: agree_on_def)

lemma agree_on_insert [simp]:
  "agree_on (insert x S) w w' \<longleftrightarrow> heap w x = heap w' x \<and> agree_on S w w'"
  by (auto simp: agree_on_def)

lemma agree_on_empty [simp]: "agree_on {} w w'"
  by (simp add: agree_on_def)

lemma agree_on_heap_eq: "heap w1 = heap w2 \<Longrightarrow> agree_on S w w1 = agree_on S w w2"
  by (simp add: agree_on_def)

lemma same_outside_heap_eq: "heap w1 = heap w2 \<Longrightarrow> same_outside S w w1 = same_outside S w w2"
  by (simp add: same_outside_def agree_on_def)

lemma agree_on_stdout [simp]: "agree_on S (w\<lparr>stdout := s\<rparr>) w' = agree_on S w w'"
  "agree_on S w (w'\<lparr>stdout := s\<rparr>) = agree_on S w w'"
  by (simp_all add: agree_on_def)

lemma agree_on_disjoint:
  "same_outside W w w' \<Longrightarrow> S \<inter> W = {} \<Longrightarrow> agree_on S w w'"
  by (auto simp: same_outside_def agree_on_def)

subsection \<open>Frames\<close>

lemma same_outside_refl [simp]: "same_outside S w w"
  by (simp add: same_outside_def)

lemma same_outside_trans:
  "same_outside S w w' \<Longrightarrow> same_outside T w' w'' \<Longrightarrow> same_outside (S \<union> T) w w''"
  by (auto simp: same_outside_def agree_on_def)

lemma same_outside_mono: "same_outside S w w' \<Longrightarrow> S \<subseteq> T \<Longrightarrow> same_outside T w w'"
  by (auto simp: same_outside_def agree_on_def)

lemma same_outside_stdout [simp]:
  "same_outside S w (w'\<lparr>stdout := s\<rparr>) = same_outside S w w'"
  "same_outside S (w\<lparr>stdout := s\<rparr>) w' = same_outside S w w'"
  by (simp_all add: same_outside_def)

lemma same_outside_dom: "same_outside S w w' \<Longrightarrow> dom (heap w') = dom (heap w)"
  by (simp add: same_outside_def)

lemma same_outside_heap: "same_outside S w w' \<Longrightarrow> x \<notin> S \<Longrightarrow> heap w' x = heap w x"
  by (simp add: same_outside_def agree_on_def)

lemma same_outside_allocated: "same_outside S w w' \<Longrightarrow> allocated w' p n = allocated w p n"
  by (simp add: same_outside_def allocated_iff)

lemma store_same_outside: "store x v w = Inr w' \<Longrightarrow> same_outside {x} w w'"
  by (auto simp: store_eq_Inr same_outside_def agree_on_def)

lemma store_stdout: "store x v w = Inr w' \<Longrightarrow> stdout w' = stdout w"
  by (auto simp: store_eq_Inr)

subsection \<open>Output\<close>

lemma extends_output_refl [simp]: "extends_output w w"
  by (simp add: extends_output_def)

lemma extends_output_trans: "extends_output w w' \<Longrightarrow> extends_output w' w'' \<Longrightarrow> extends_output w w''"
  by (auto simp: extends_output_def)

lemma extends_output_append:
  "extends_output w w' \<Longrightarrow> extends_output w (w'\<lparr>stdout := stdout w' @ s\<rparr>)"
  by (auto simp: extends_output_def)

lemma extends_output_heap [simp]:
  "extends_output w (w'\<lparr>heap := h\<rparr>) = extends_output w w'"
  "extends_output (w\<lparr>heap := h\<rparr>) w' = extends_output w w'"
  by (simp_all add: extends_output_def)

subsection \<open>Arrays\<close>

lemma store_array_same_outside:
  "store_array p vs w = Inr w' \<Longrightarrow> same_outside (region p (int (length vs))) w w'"
proof (induction vs arbitrary: p w)
  case Nil
  then show ?case by simp
next
  case (Cons v vs)
  from Cons.prems obtain w1 where w1: "store p v w = Inr w1" and rest: "store_array (p + 1) vs w1 = Inr w'"
    by (auto simp: bind_res_eq_Inr)
  have "same_outside ({p} \<union> region (p + 1) (int (length vs))) w w'"
    using store_same_outside [OF w1] Cons.IH [OF rest] by (rule same_outside_trans)
  then show ?case
    by (rule same_outside_mono) auto
qed

lemma store_array_stdout: "store_array p vs w = Inr w' \<Longrightarrow> stdout w' = stdout w"
  by (induction vs arbitrary: p w) (auto simp: bind_res_eq_Inr store_eq_Inr)

lemma store_array_allocated:
  "allocated w p (int (length vs)) \<Longrightarrow> \<exists>w'. store_array p vs w = Inr w'"
proof (induction vs arbitrary: p w)
  case Nil
  then show ?case by simp
next
  case (Cons v vs)
  from Cons.prems have p: "p \<in> dom (heap w)"
    by (auto simp: allocated_iff subset_iff)
  then obtain w1 where w1: "store p v w = Inr w1"
    by (auto simp: store_eq_Inr)
  from Cons.prems have "allocated w (p + 1) (int (length vs))"
    by (rule allocated_mono) auto
  then have "allocated w1 (p + 1) (int (length vs))"
    using same_outside_allocated [OF store_same_outside [OF w1]] by simp
  from Cons.IH [OF this] w1 show ?case by simp
qed

lemma load_array_numeral [simp]:
  "load_array w p (numeral k) =
     bind_res (load w p) (\<lambda>v. bind_res (load_array w (p + 1) (pred_numeral k)) (\<lambda>vs. Inr (v # vs)))"
  by (simp add: numeral_eq_Suc)

lemma load_array_length: "load_array w p n = Inr vs \<Longrightarrow> length vs = n"
  by (induction n arbitrary: p vs) (auto simp: bind_res_eq_Inr)

lemma load_array_nth:
  "load_array w p n = Inr vs \<Longrightarrow> k < n \<Longrightarrow> heap w (p + int k) = Some (vs ! k)"
proof (induction n arbitrary: p vs k)
  case 0
  then show ?case by simp
next
  case (Suc n)
  from Suc.prems(1) obtain v vs' where v: "heap w p = Some v"
    and vs': "load_array w (p + 1) n = Inr vs'" and vs: "vs = v # vs'"
    by (auto simp: bind_res_eq_Inr)
  show ?case
  proof (cases k)
    case 0
    with v vs show ?thesis by simp
  next
    case (Suc k')
    with Suc.prems(2) have "k' < n" by simp
    from Suc.IH [OF vs' this] Suc vs show ?thesis by (simp add: add.assoc)
  qed
qed

lemma load_array_allocated: "allocated w p (int n) \<Longrightarrow> \<exists>vs. load_array w p n = Inr vs"
proof (induction n arbitrary: p)
  case 0
  then show ?case by simp
next
  case (Suc n)
  from Suc.prems obtain v where v: "heap w p = Some v"
    by (auto simp: allocated_iff subset_iff)
  from Suc.prems have "allocated w (p + 1) (int n)"
    by (rule allocated_mono) auto
  from Suc.IH [OF this] v show ?case
    by (auto simp: bind_res_eq_Inr)
qed

lemma load_array_cong_agree:
  "agree_on (region p (int n)) w w' \<Longrightarrow> load_array w p n = load_array w' p n"
proof (induction n arbitrary: p)
  case 0
  then show ?case by simp
next
  case (Suc n)
  from Suc.prems have "load w p = load w' p"
    by (simp add: load_def agree_on_def)
  moreover from Suc.prems have "agree_on (region (p + 1) (int n)) w w'"
    by (rule agree_on_subset) auto
  then have "load_array w (p + 1) n = load_array w' (p + 1) n"
    by (rule Suc.IH)
  ultimately show ?case by simp
qed

text \<open>
  Two stores of the same values into worlds with the same allocation map fault
  alike or produce worlds that agree on the cells written.
\<close>

lemma store_array_agree:
  assumes "agree_on S w1 w2" and "dom (heap w1) = dom (heap w2)"
  shows "case store_array p vs w1 of
           Inl f \<Rightarrow> store_array p vs w2 = Inl f
         | Inr w1' \<Rightarrow> (\<exists>w2'. store_array p vs w2 = Inr w2' \<and>
             agree_on (S \<union> region p (int (length vs))) w1' w2' \<and> dom (heap w1') = dom (heap w2'))"
  using assms
proof (induction vs arbitrary: p w1 w2 S)
  case Nil
  then show ?case by simp
next
  case (Cons v vs)
  show ?case
  proof (cases "heap w1 p")
    case None
    with Cons.prems(2) have "heap w2 p = None" by (metis domIff)
    with None show ?thesis by (simp add: store_def)
  next
    case (Some x)
    with Cons.prems(2) obtain y where y: "heap w2 p = Some y" by (metis domIff not_Some_eq)
    let ?w1 = "w1\<lparr>heap := (heap w1)(p \<mapsto> v)\<rparr>" and ?w2 = "w2\<lparr>heap := (heap w2)(p \<mapsto> v)\<rparr>"
    have "agree_on (S \<union> {p}) ?w1 ?w2" and "dom (heap ?w1) = dom (heap ?w2)"
      using Cons.prems by (auto simp: agree_on_def)
    from Cons.IH [OF this, of "p + 1"] have
      "case store_array (p + 1) vs ?w1 of
         Inl f \<Rightarrow> store_array (p + 1) vs ?w2 = Inl f
       | Inr w1' \<Rightarrow> (\<exists>w2'. store_array (p + 1) vs ?w2 = Inr w2' \<and>
           agree_on (S \<union> {p} \<union> region (p + 1) (int (length vs))) w1' w2' \<and>
           dom (heap w1') = dom (heap w2'))" .
    moreover have "S \<union> region p (int (length (v # vs))) = S \<union> {p} \<union> region (p + 1) (int (length vs))"
      by auto
    ultimately show ?thesis
      using Some y by (simp add: store_def split: sum.splits)
  qed
qed

lemma store_agree:
  assumes "agree_on S w1 w2" and "dom (heap w1) = dom (heap w2)"
  shows "case store x v w1 of
           Inl f \<Rightarrow> store x v w2 = Inl f
         | Inr w1' \<Rightarrow> (\<exists>w2'. store x v w2 = Inr w2' \<and>
             agree_on (S \<union> region x 1) w1' w2' \<and> dom (heap w1') = dom (heap w2'))"
  using store_array_agree [OF assms, of x "[v]"] by (simp add: bind_res_def split: sum.splits)

lemma agree_on_UNIV [simp]: "agree_on UNIV w1 w2 \<longleftrightarrow> heap w1 = heap w2"
  by (auto simp: agree_on_def)

section \<open>Reading back what was written\<close>

lemma load_array_heap_cong: "heap w = heap w' \<Longrightarrow> load_array w p n = load_array w' p n"
  by (rule load_array_cong_agree) (simp add: agree_on_def)

lemma load_array_same_outside:
  assumes "same_outside S w w'" and "S \<inter> region p (int n) = {}"
  shows "load_array w' p n = load_array w p n"
proof (rule load_array_cong_agree, unfold agree_on_def, rule ballI)
  fix x assume "x \<in> region p (int n)"
  with assms(2) have "x \<notin> S" by blast
  with assms(1) show "heap w' x = heap w x" by (rule same_outside_heap)
qed

lemma load_array_store_array:
  "store_array p vs w = Inr w' \<Longrightarrow> load_array w' p (length vs) = Inr vs"
proof (induction vs arbitrary: p w)
  case Nil
  then show ?case by simp
next
  case (Cons v vs)
  from Cons.prems obtain w1 where w1: "store p v w = Inr w1" and rest: "store_array (p + 1) vs w1 = Inr w'"
    by (auto simp: bind_res_eq_Inr)
  from w1 have "heap w1 p = Some v"
    by (simp add: store_eq_Inr)
  moreover have "p \<notin> region (p + 1) (int (length vs))"
    by (simp add: region_def)
  ultimately have "heap w' p = Some v"
    using same_outside_heap [OF store_array_same_outside [OF rest]] by simp
  with Cons.IH [OF rest] show ?case by (simp add: load_def)
qed

lemma load_array_replicate:
  "(\<And>k. k < n \<Longrightarrow> heap w (p + int k) = Some c) \<Longrightarrow> load_array w p n = Inr (replicate n c)"
proof (induction n arbitrary: p)
  case 0
  then show ?case by simp
next
  case (Suc n)
  from Suc.prems [of 0] have "load w p = Inr c"
    by (simp add: load_def)
  moreover have "load_array w (p + 1) n = Inr (replicate n c)"
    using Suc.prems [of "Suc k" for k] by (intro Suc.IH) (simp add: add.assoc)
  ultimately show ?case by (simp add: load_def)
qed

end
