(* ===== verification/C_Stdio.thy ===== *)
theory C_Stdio
  imports C_Memory
begin

text \<open>
  The part of \<^verbatim>\<open>printf\<close> that \<^verbatim>\<open>src/ceq.c\<close> uses: a format string whose only
  conversion is \<^verbatim>\<open>%d\<close>, applied to \<^verbatim>\<open>int\<close> arguments, appended to the standard
  output of the world. \<open>fmt_d\<close> is the decimal text of a signed 32-bit value;
  \<open>scan_d\<close> reads such a text back and is the inverse used to state that the
  printed position identifies the failing input.
\<close>

section \<open>Decimal conversion\<close>

definition digit_char :: "nat \<Rightarrow> char" where
  "digit_char d = ''0123456789'' ! d"

definition digit_val :: "char \<Rightarrow> nat" where
  "digit_val c = length (takeWhile (\<lambda>d. d \<noteq> c) ''0123456789'')"

fun digits :: "nat \<Rightarrow> string" where
  "digits n = (if n < 10 then [digit_char n] else digits (n div 10) @ [digit_char (n mod 10)])"

declare digits.simps [simp del]

definition fmt_d :: "c_int \<Rightarrow> string" where
  "fmt_d i = (if sint i < 0 then CHR ''-'' # digits (nat (- sint i)) else digits (nat (sint i)))"

section \<open>Format strings and printf\<close>

fun format :: "string \<Rightarrow> c_int list \<Rightarrow> string" where
  "format [] args = []"
| "format [c] args = [c]"
| "format (c # d # cs) args =
     (if c = CHR ''%'' \<and> d = CHR ''d'' then
        (case args of [] \<Rightarrow> format cs [] | a # as \<Rightarrow> fmt_d a @ format cs as)
      else if c = CHR ''%'' \<and> d = CHR ''%'' then CHR ''%'' # format cs args
      else c # format (d # cs) args)"

definition printf :: "string \<Rightarrow> c_int list \<Rightarrow> 'd world \<Rightarrow> 'd world" where
  "printf fmt args w = w\<lparr>stdout := stdout w @ format fmt args\<rparr>"

section \<open>Reading a decimal text back\<close>

definition scan_digits :: "string \<Rightarrow> nat" where
  "scan_digits s = foldl (\<lambda>acc c. 10 * acc + digit_val c) 0 s"

definition scan_d :: "string \<Rightarrow> c_int" where
  "scan_d s =
     (case s of
        [] \<Rightarrow> 0
      | c # ds \<Rightarrow> if c = CHR ''-'' then word_of_int (- int (scan_digits ds))
                  else word_of_int (int (scan_digits s)))"

section \<open>Evaluation and round trip\<close>

lemmas digits_eval [simp] =
  digits.simps [of 0] digits.simps [of 1] digits.simps [of "Suc 0"] digits.simps [of "numeral k"] for k

lemma less_10_cases:
  "d < 10 \<longleftrightarrow> d = 0 \<or> d = 1 \<or> d = 2 \<or> d = 3 \<or> d = 4 \<or> d = 5 \<or> d = 6 \<or> d = 7 \<or> d = 8 \<or> d = (9::nat)"
  by arith

lemma format_plain [simp]: "CHR ''%'' \<notin> set s \<Longrightarrow> format s args = s"
  by (induction s args rule: format.induct) auto

lemma stdout_printf [simp]: "stdout (printf fmt args w) = stdout w @ format fmt args"
  by (simp add: printf_def)

lemma heap_printf [simp]: "heap (printf fmt args w) = heap w"
  by (simp add: printf_def)

lemma same_outside_printf [simp]: "same_outside S w (printf fmt args w') = same_outside S w w'"
  by (simp add: printf_def)

lemma agree_on_printf [simp]:
  "agree_on S w (printf fmt args w') = agree_on S w w'"
  "agree_on S (printf fmt args w) w' = agree_on S w w'"
  by (simp_all add: printf_def)

lemma extends_output_printf: "extends_output w w' \<Longrightarrow> extends_output w (printf fmt args w')"
  by (simp add: printf_def extends_output_append)

lemma digit_val_digit_char: "d < 10 \<Longrightarrow> digit_val (digit_char d) = d"
  by (auto simp: less_10_cases digit_val_def digit_char_def)

lemma scan_digits_snoc: "scan_digits (s @ [c]) = 10 * scan_digits s + digit_val c"
  by (simp add: scan_digits_def)

lemma scan_digits_digits: "scan_digits (digits n) = n"
proof (induction n rule: digits.induct)
  case (1 n)
  show ?case
  proof (cases "n < 10")
    case True
    then show ?thesis
      by (simp add: digits.simps [of n] scan_digits_def digit_val_digit_char)
  next
    case False
    with "1.IH" show ?thesis
      by (simp add: digits.simps [of n] scan_digits_snoc digit_val_digit_char)
  qed
qed

lemma hd_digits: "\<exists>d ds. d < 10 \<and> digits n = digit_char d # ds"
proof (induction n rule: digits.induct)
  case (1 n)
  show ?case
  proof (cases "n < 10")
    case True
    then show ?thesis by (auto simp: digits.simps [of n])
  next
    case False
    with "1.IH" show ?thesis by (auto simp: digits.simps [of n])
  qed
qed

lemma digit_char_not_minus: "d < 10 \<Longrightarrow> digit_char d \<noteq> CHR ''-''"
  by (auto simp: less_10_cases digit_char_def)

lemma scan_d_digits: "scan_d (digits n) = word_of_int (int n)"
proof -
  obtain d ds where "d < 10" and "digits n = digit_char d # ds"
    using hd_digits by blast
  then have "scan_d (digits n) = word_of_int (int (scan_digits (digits n)))"
    by (simp add: scan_d_def digit_char_not_minus)
  then show ?thesis
    by (simp add: scan_digits_digits)
qed

lemma scan_d_fmt_d: "scan_d (fmt_d i) = i"
proof (cases "sint i < 0")
  case True
  then have "scan_d (fmt_d i) = word_of_int (- int (nat (- sint i)))"
    by (simp add: fmt_d_def scan_d_def scan_digits_digits)
  also have "\<dots> = word_of_int (sint i)"
    using True by simp
  finally show ?thesis by simp
next
  case False
  then have "scan_d (fmt_d i) = word_of_int (int (nat (sint i)))"
    by (simp add: fmt_d_def scan_d_digits)
  also have "\<dots> = word_of_int (sint i)"
    using False by simp
  finally show ?thesis by simp
qed

lemma load_array_printf [simp]: "load_array (printf fmt args w) p n = load_array w p n"
  by (rule load_array_heap_cong) simp

end
