(* ===== verification/Solver_Interface.thy ===== *)
theory Solver_Interface
  imports C_Stdio
begin

text \<open>
  The two solvers that \<^verbatim>\<open>src/ceq.c\<close> calls, \<^verbatim>\<open>solve_pt\<close> (declared in \<^verbatim>\<open>pt.h\<close>)
  and \<^verbatim>\<open>solve_rhou\<close> (declared in \<^verbatim>\<open>rhou.h\<close>), are not part of the sources. The
  wrapper is therefore modelled over any pair of functions of their signature,
  and what it guarantees is stated relative to contracts on them:
  \<^item> the cells a call may depend on and the cells it may write, as the comments
    of \<^verbatim>\<open>pt\<close> and \<^verbatim>\<open>rhou\<close> give the arrays and their sizes;
  \<^item> \<open>pt_frame\<close>, \<open>rhou_frame\<close>: a call that returns has written its output cells
    only, has allocated and freed nothing, and has at most appended text;
  \<^item> \<open>pt_local\<close>, \<open>rhou_local\<close>: the outcome is a function of the arguments, the
    input cells and the allocation map (call-local state, section 5 of the
    specification);
  \<^item> \<open>pt_safe\<close>, \<open>rhou_safe\<close>: with all arrays allocated a call returns a status
    (no operation aborts, section 7);
  \<^item> \<open>pt_quiet\<close>, \<open>rhou_quiet\<close>: \<^verbatim>\<open>verbose\<close> changes neither status nor memory
    (section 6).
\<close>

section \<open>Signatures\<close>

type_synonym 'd solve_pt_fn =
  "'d \<Rightarrow> 'd \<Rightarrow> addr \<Rightarrow> c_int \<Rightarrow> c_int \<Rightarrow> addr \<Rightarrow> addr \<Rightarrow> addr \<Rightarrow> addr \<Rightarrow> c_int \<Rightarrow>
   'd world \<Rightarrow> fault + (c_int \<times> 'd world)"

type_synonym 'd solve_rhou_fn =
  "'d \<Rightarrow> 'd \<Rightarrow> addr \<Rightarrow> c_int \<Rightarrow> c_int \<Rightarrow> addr \<Rightarrow> addr \<Rightarrow> addr \<Rightarrow> addr \<Rightarrow> addr \<Rightarrow> c_int \<Rightarrow>
   'd world \<Rightarrow> fault + (c_int \<times> 'd world)"

section \<open>Footprints\<close>

definition pt_inputs :: "addr \<Rightarrow> c_int \<Rightarrow> c_int \<Rightarrow> addr \<Rightarrow> addr \<Rightarrow> addr \<Rightarrow> addr set" where
  "pt_inputs X0 nsp nel lewis M a =
     region X0 (sint nsp) \<union> region lewis (sint nsp * 3 * 9) \<union> region M (sint nsp) \<union>
     region a (sint nel * sint nsp)"

definition pt_outputs :: "addr \<Rightarrow> c_int \<Rightarrow> addr set" where
  "pt_outputs X1 nsp = region X1 (sint nsp)"

definition rhou_inputs :: "addr \<Rightarrow> c_int \<Rightarrow> c_int \<Rightarrow> addr \<Rightarrow> addr \<Rightarrow> addr \<Rightarrow> addr set" where
  "rhou_inputs X0 nsp nel lewis M a =
     region X0 (sint nsp) \<union> region lewis (sint nsp * 3 * 9) \<union> region M (sint nsp) \<union>
     region a (sint nel * sint nsp)"

definition rhou_outputs :: "addr \<Rightarrow> addr \<Rightarrow> c_int \<Rightarrow> addr set" where
  "rhou_outputs X1 T nsp = region X1 (sint nsp) \<union> region T 1"

section \<open>Contracts\<close>

definition outcome_rel ::
  "addr set \<Rightarrow> fault + (c_int \<times> 'd world) \<Rightarrow> fault + (c_int \<times> 'd world) \<Rightarrow> bool" where
  "outcome_rel S o1 o2 =
     (case o1 of
        Inl f1 \<Rightarrow> (case o2 of Inl f2 \<Rightarrow> f1 = f2 | Inr _ \<Rightarrow> False)
      | Inr (r1, w1) \<Rightarrow> (case o2 of Inl _ \<Rightarrow> False | Inr (r2, w2) \<Rightarrow> r1 = r2 \<and> agree_on S w1 w2))"

definition pt_frame :: "'d solve_pt_fn \<Rightarrow> bool" where
  "pt_frame solve \<longleftrightarrow>
     (\<forall>p T X0 nsp nel lewis M a X1 verbose w r w'.
        solve p T X0 nsp nel lewis M a X1 verbose w = Inr (r, w') \<longrightarrow>
          same_outside (pt_outputs X1 nsp) w w' \<and> extends_output w w')"

definition pt_local :: "'d solve_pt_fn \<Rightarrow> bool" where
  "pt_local solve \<longleftrightarrow>
     (\<forall>p T X0 nsp nel lewis M a X1 verbose w1 w2.
        agree_on (pt_inputs X0 nsp nel lewis M a) w1 w2 \<and> dom (heap w1) = dom (heap w2) \<longrightarrow>
          outcome_rel (pt_outputs X1 nsp)
            (solve p T X0 nsp nel lewis M a X1 verbose w1)
            (solve p T X0 nsp nel lewis M a X1 verbose w2))"

definition pt_safe :: "'d solve_pt_fn \<Rightarrow> bool" where
  "pt_safe solve \<longleftrightarrow>
     (\<forall>p T X0 nsp nel lewis M a X1 verbose w.
        pt_inputs X0 nsp nel lewis M a \<union> pt_outputs X1 nsp \<subseteq> dom (heap w) \<longrightarrow>
          (\<exists>r w'. solve p T X0 nsp nel lewis M a X1 verbose w = Inr (r, w')))"

definition pt_quiet :: "'d solve_pt_fn \<Rightarrow> bool" where
  "pt_quiet solve \<longleftrightarrow>
     (\<forall>p T X0 nsp nel lewis M a X1 v1 v2 w1 w2.
        heap w1 = heap w2 \<longrightarrow>
          outcome_rel UNIV
            (solve p T X0 nsp nel lewis M a X1 v1 w1)
            (solve p T X0 nsp nel lewis M a X1 v2 w2))"

definition rhou_frame :: "'d solve_rhou_fn \<Rightarrow> bool" where
  "rhou_frame solve \<longleftrightarrow>
     (\<forall>rho u X0 nsp nel lewis M a X1 T verbose w r w'.
        solve rho u X0 nsp nel lewis M a X1 T verbose w = Inr (r, w') \<longrightarrow>
          same_outside (rhou_outputs X1 T nsp) w w' \<and> extends_output w w')"

definition rhou_local :: "'d solve_rhou_fn \<Rightarrow> bool" where
  "rhou_local solve \<longleftrightarrow>
     (\<forall>rho u X0 nsp nel lewis M a X1 T verbose w1 w2.
        agree_on (rhou_inputs X0 nsp nel lewis M a \<union> region T 1) w1 w2 \<and>
        dom (heap w1) = dom (heap w2) \<longrightarrow>
          outcome_rel (rhou_outputs X1 T nsp)
            (solve rho u X0 nsp nel lewis M a X1 T verbose w1)
            (solve rho u X0 nsp nel lewis M a X1 T verbose w2))"

definition rhou_safe :: "'d solve_rhou_fn \<Rightarrow> bool" where
  "rhou_safe solve \<longleftrightarrow>
     (\<forall>rho u X0 nsp nel lewis M a X1 T verbose w.
        rhou_inputs X0 nsp nel lewis M a \<union> rhou_outputs X1 T nsp \<subseteq> dom (heap w) \<longrightarrow>
          (\<exists>r w'. solve rho u X0 nsp nel lewis M a X1 T verbose w = Inr (r, w')))"

definition rhou_quiet :: "'d solve_rhou_fn \<Rightarrow> bool" where
  "rhou_quiet solve \<longleftrightarrow>
     (\<forall>rho u X0 nsp nel lewis M a X1 T v1 v2 w1 w2.
        heap w1 = heap w2 \<longrightarrow>
          outcome_rel UNIV
            (solve rho u X0 nsp nel lewis M a X1 T v1 w1)
            (solve rho u X0 nsp nel lewis M a X1 T v2 w2))"

lemmas solver_contracts [ceq_contract] =
  pt_frame_def pt_local_def pt_safe_def pt_quiet_def
  rhou_frame_def rhou_local_def rhou_safe_def rhou_quiet_def

section \<open>Using the contracts\<close>

lemma outcome_rel_Inr [simp]:
  "outcome_rel S (Inr (r1, w1)) o2 \<longleftrightarrow> (\<exists>w2. o2 = Inr (r1, w2) \<and> agree_on S w1 w2)"
  by (auto simp: outcome_rel_def split: sum.splits)

lemma outcome_rel_Inl [simp]: "outcome_rel S (Inl f) o2 \<longleftrightarrow> o2 = Inl f"
  by (auto simp: outcome_rel_def split: sum.splits)

lemma outcome_rel_refl [simp]: "outcome_rel S x x"
  by (cases x) auto

lemma outcome_rel_sym: "outcome_rel S x y \<Longrightarrow> outcome_rel S y x"
  by (cases x) (auto simp: agree_on_def)

lemma pt_frameD:
  assumes "pt_frame solve" and "solve p T X0 nsp nel lewis M a X1 verbose w = Inr (r, w')"
  shows "same_outside (pt_outputs X1 nsp) w w'" and "extends_output w w'"
  using assms unfolding pt_frame_def by blast+

lemma pt_localD:
  assumes "pt_local solve" and "agree_on (pt_inputs X0 nsp nel lewis M a) w1 w2"
    and "dom (heap w1) = dom (heap w2)"
  shows "outcome_rel (pt_outputs X1 nsp)
    (solve p T X0 nsp nel lewis M a X1 verbose w1) (solve p T X0 nsp nel lewis M a X1 verbose w2)"
  using assms unfolding pt_local_def by blast

lemma pt_safeD:
  assumes "pt_safe solve" and "pt_inputs X0 nsp nel lewis M a \<union> pt_outputs X1 nsp \<subseteq> dom (heap w)"
  shows "\<exists>r w'. solve p T X0 nsp nel lewis M a X1 verbose w = Inr (r, w')"
  using assms unfolding pt_safe_def by blast

lemma pt_quietD:
  assumes "pt_quiet solve" and "heap w1 = heap w2"
  shows "outcome_rel UNIV
    (solve p T X0 nsp nel lewis M a X1 v1 w1) (solve p T X0 nsp nel lewis M a X1 v2 w2)"
  using assms unfolding pt_quiet_def by blast

lemma rhou_frameD:
  assumes "rhou_frame solve" and "solve rho u X0 nsp nel lewis M a X1 T verbose w = Inr (r, w')"
  shows "same_outside (rhou_outputs X1 T nsp) w w'" and "extends_output w w'"
  using assms unfolding rhou_frame_def by blast+

lemma rhou_localD:
  assumes "rhou_local solve"
    and "agree_on (rhou_inputs X0 nsp nel lewis M a \<union> region T 1) w1 w2"
    and "dom (heap w1) = dom (heap w2)"
  shows "outcome_rel (rhou_outputs X1 T nsp)
    (solve rho u X0 nsp nel lewis M a X1 T verbose w1)
    (solve rho u X0 nsp nel lewis M a X1 T verbose w2)"
  using assms unfolding rhou_local_def by blast

lemma rhou_safeD:
  assumes "rhou_safe solve"
    and "rhou_inputs X0 nsp nel lewis M a \<union> rhou_outputs X1 T nsp \<subseteq> dom (heap w)"
  shows "\<exists>r w'. solve rho u X0 nsp nel lewis M a X1 T verbose w = Inr (r, w')"
  using assms unfolding rhou_safe_def by blast

lemma rhou_quietD:
  assumes "rhou_quiet solve" and "heap w1 = heap w2"
  shows "outcome_rel UNIV
    (solve rho u X0 nsp nel lewis M a X1 T v1 w1) (solve rho u X0 nsp nel lewis M a X1 T v2 w2)"
  using assms unfolding rhou_quiet_def by blast

lemma outcome_rel_UNIV:
  "outcome_rel UNIV x y \<longleftrightarrow> rel_sum (=) (rel_prod (=) (\<lambda>w1 w2. heap w1 = heap w2)) x y"
  by (cases x; cases y) auto

end
