(* ===== verification/Ceq_Entry.thy ===== *)
theory Ceq_Entry
  imports Solver_Interface
begin

text \<open>
  The entry points of \<^verbatim>\<open>src/ceq.c\<close> that solve one problem, and \<^verbatim>\<open>main\<close>. \<^verbatim>\<open>pt\<close> and
  \<^verbatim>\<open>rhou\<close> pass their arguments, in the order they receive them, to \<^verbatim>\<open>solve_pt\<close>
  and \<^verbatim>\<open>solve_rhou\<close> and return what the solver returns; the solver is the first
  parameter of the model. \<^verbatim>\<open>main\<close> prints one line and returns 0.
\<close>

section \<open>Definitions\<close>

definition pt ::
  "'d solve_pt_fn \<Rightarrow> 'd \<Rightarrow> 'd \<Rightarrow> addr \<Rightarrow> c_int \<Rightarrow> c_int \<Rightarrow> addr \<Rightarrow> addr \<Rightarrow> addr \<Rightarrow> addr \<Rightarrow>
   c_int \<Rightarrow> 'd world \<Rightarrow> fault + (c_int \<times> 'd world)" where
  "pt solve_pt p T X0 nsp nel lewis M a X1 verbose w =
     solve_pt p T X0 nsp nel lewis M a X1 verbose w"

definition rhou ::
  "'d solve_rhou_fn \<Rightarrow> 'd \<Rightarrow> 'd \<Rightarrow> addr \<Rightarrow> c_int \<Rightarrow> c_int \<Rightarrow> addr \<Rightarrow> addr \<Rightarrow> addr \<Rightarrow> addr \<Rightarrow>
   addr \<Rightarrow> c_int \<Rightarrow> 'd world \<Rightarrow> fault + (c_int \<times> 'd world)" where
  "rhou solve_rhou rho u X0 nsp nel lewis M a X1 T verbose w =
     solve_rhou rho u X0 nsp nel lewis M a X1 T verbose w"

definition main :: "'d world \<Rightarrow> fault + (c_int \<times> 'd world)" where
  "main w = Inr (0, printf ''Called main in ceq.c!\<newline>'' [] w)"

section \<open>The wrappers inherit the contracts of the solvers\<close>

lemma pt_eq [simp]: "pt solve = solve"
  by (intro ext) (simp add: pt_def)

lemma rhou_eq [simp]: "rhou solve = solve"
  by (intro ext) (simp add: rhou_def)

end
