(* ===== verification/C_Loop.thy ===== *)
theory C_Loop
  imports Ceq_Prelude
begin

text \<open>
  The loop that \<^verbatim>\<open>batch_pt\<close> and \<^verbatim>\<open>batch_rhou\<close> share in \<^verbatim>\<open>src/ceq.c\<close>:
  \<^verbatim>\<open>for (i=0; i<N; i++) { ...; if (result!=0) { ...; return result; } } return 0;\<close>
  The body is a parameter: at index \<open>i\<close> it faults, or asks for the next
  iteration, or leaves the function with a status. \<open>for_loop\<close> is the loop over
  the 32-bit counter, with its termination proved; \<open>run_list\<close> is the reference
  semantics over an explicit list of indices, and \<open>run_next\<close> is the world after
  a run in which every iteration asked for the next one. The lemmas reduce every
  statement about the loop to a statement about one iteration; the last two
  sections relate the runs of two bodies, on related worlds and on lists of
  indices that differ by a shift.
\<close>

section \<open>Definitions\<close>

datatype loop_exit = Next | Return c_int

type_synonym ('e, 'w) loop_body = "c_int \<Rightarrow> 'w \<Rightarrow> 'e + (loop_exit \<times> 'w)"

function for_loop :: "('e, 'w) loop_body \<Rightarrow> c_int \<Rightarrow> c_int \<Rightarrow> 'w \<Rightarrow> 'e + (c_int \<times> 'w)" where
  "for_loop body i n w =
     (if i <s n then
        (case body i w of
           Inl e \<Rightarrow> Inl e
         | Inr (Return r, w') \<Rightarrow> Inr (r, w')
         | Inr (Next, w') \<Rightarrow> for_loop body (i + 1) n w')
      else Inr (0, w))"
  by pat_completeness auto
termination
proof (relation "measure (\<lambda>(body, i, n, w). nat (sint n - sint i))")
  fix body :: "('e, 'w) loop_body" and i n :: c_int and w :: 'w and x y w'
  assume "i <s n"
  then have "sint (i + 1) = sint i + 1" and "sint i < sint n"
    by (simp_all add: sint_succ [of i n])
  then show "((body, i + 1, n, w'), (body, i, n, w)) \<in> measure (\<lambda>(body, i, n, w). nat (sint n - sint i))"
    by simp
qed simp

declare for_loop.simps [simp del]

fun run_list :: "('e, 'w) loop_body \<Rightarrow> c_int list \<Rightarrow> 'w \<Rightarrow> 'e + (c_int \<times> 'w)" where
  "run_list body [] w = Inr (0, w)"
| "run_list body (i # is) w =
     (case body i w of
        Inl e \<Rightarrow> Inl e
      | Inr (Return r, w') \<Rightarrow> Inr (r, w')
      | Inr (Next, w') \<Rightarrow> run_list body is w')"

fun run_next :: "('e, 'w) loop_body \<Rightarrow> c_int list \<Rightarrow> 'w \<Rightarrow> 'w option" where
  "run_next body [] w = Some w"
| "run_next body (i # is) w =
     (case body i w of
        Inl e \<Rightarrow> None
      | Inr (Return r, w') \<Rightarrow> None
      | Inr (Next, w') \<Rightarrow> run_next body is w')"

definition nonzero_return :: "('e, 'w) loop_body \<Rightarrow> bool" where
  "nonzero_return body \<longleftrightarrow> (\<forall>i w w'. body i w \<noteq> Inr (Return 0, w'))"

text \<open>
  Two bodies that fault and continue alike at index \<open>i\<close>, and return the same status
  in worlds related by \<open>Q\<close>.
\<close>

definition return_related ::
  "(c_int \<Rightarrow> c_int \<Rightarrow> 'w \<Rightarrow> 'w \<Rightarrow> bool) \<Rightarrow> ('e, 'w) loop_body \<Rightarrow> ('e, 'w) loop_body \<Rightarrow> c_int \<Rightarrow> bool" where
  "return_related Q body1 body2 i \<longleftrightarrow>
     (\<forall>w f. body1 i w = Inl f \<longrightarrow> body2 i w = Inl f) \<and>
     (\<forall>w w'. body1 i w = Inr (Next, w') \<longrightarrow> body2 i w = Inr (Next, w')) \<and>
     (\<forall>w r w'. body1 i w = Inr (Return r, w') \<longrightarrow>
        (\<exists>w''. body2 i w = Inr (Return r, w'') \<and> Q i r w' w''))"

section \<open>The loop and its reference semantics\<close>

lemmas loop_splits = sum.splits prod.splits loop_exit.splits

lemma loop_body_cases [case_names Fault Next Return]:
  fixes x :: "'e + (loop_exit \<times> 'w)"
  obtains e where "x = Inl e" | w' where "x = Inr (Next, w')" | r w' where "x = Inr (Return r, w')"
proof (cases x)
  case (Inr xw)
  obtain y w' where "xw = (y, w')" by (cases xw)
  with Inr that(2,3) show thesis by (cases y) simp_all
qed (rule that(1))

lemma for_loop_done: "\<not> i <s n \<Longrightarrow> for_loop body i n w = Inr (0, w)"
  by (simp add: for_loop.simps [of body i n w])

lemma for_loop_step:
  "i <s n \<Longrightarrow> for_loop body i n w = run_list body [i] w \<or> (\<exists>w'. body i w = Inr (Next, w') \<and>
     for_loop body i n w = for_loop body (i + 1) n w')"
  by (simp add: for_loop.simps [of body i n w] del: sless_sint split: loop_splits)

text \<open>
  The loop over the 32-bit counter computes what the reference semantics computes
  on the list of indices from \<open>i\<close> up to, and not including, \<open>n\<close> in signed order.
\<close>

lemma for_loop_run_list: "for_loop body i n w = run_list body (indices_from i n) w"
proof (induction body i n w rule: for_loop.induct)
  case (1 body i n w)
  show ?case
  proof (cases "i <s n")
    case True
    then show ?thesis
      using "1.IH"
      by (simp add: for_loop.simps [of body i n w] indices_from_step [of i n] del: sless_sint
          split: loop_splits)
  next
    case False
    then show ?thesis
      by (simp add: for_loop.simps [of body i n w] indices_from_done del: sless_sint)
  qed
qed

section \<open>Runs without an exit\<close>

lemma run_next_Cons_eq_Some:
  "run_next body (i # is) w = Some w' \<longleftrightarrow>
     (\<exists>w1. body i w = Inr (Next, w1) \<and> run_next body is w1 = Some w')"
  by (auto split: loop_splits)

lemma run_next_single: "run_next body [i] w = Some w' \<longleftrightarrow> body i w = Inr (Next, w')"
  by (auto split: loop_splits)

lemma run_next_append:
  "run_next body (xs @ ys) w = Option.bind (run_next body xs w) (run_next body ys)"
  by (induction xs arbitrary: w) (auto split: loop_splits)

lemma run_next_snoc_eq_Some:
  "run_next body (xs @ [i]) w = Some w' \<longleftrightarrow>
     (\<exists>w1. run_next body xs w = Some w1 \<and> body i w1 = Inr (Next, w'))"
  by (auto simp only: run_next_append bind_eq_Some_conv run_next_single)

lemma run_list_append_next:
  "run_next body xs w = Some w1 \<Longrightarrow> run_list body (xs @ ys) w = run_list body ys w1"
  by (induction xs arbitrary: w) (auto split: loop_splits)

lemma run_list_of_next: "run_next body xs w = Some w' \<Longrightarrow> run_list body xs w = Inr (0, w')"
  using run_list_append_next [of body xs w w' "[]"] by simp

lemma run_list_stop:
  "run_next body ys w = Some w1 \<Longrightarrow> body k w1 = Inr (Return r, w') \<Longrightarrow>
   run_list body (ys @ k # zs) w = Inr (r, w')"
  by (simp add: run_list_append_next)

lemma run_list_fault:
  "run_next body ys w = Some w1 \<Longrightarrow> body k w1 = Inl e \<Longrightarrow> run_list body (ys @ k # zs) w = Inl e"
  by (simp add: run_list_append_next)

text \<open>Every run is of one of three kinds; the next two lemmas name them.\<close>

lemma run_list_Inr_cases:
  assumes "run_list body xs w = Inr (r, w')"
  shows "(r = 0 \<and> run_next body xs w = Some w') \<or>
         (\<exists>ys k zs w1. xs = ys @ k # zs \<and> run_next body ys w = Some w1 \<and>
            body k w1 = Inr (Return r, w'))"
  using assms
proof (induction xs arbitrary: w)
  case Nil
  then show ?case by simp
next
  case (Cons i xs)
  show ?case
  proof (cases "body i w")
    case (Inl e)
    with Cons.prems show ?thesis by simp
  next
    case (Inr xw)
    obtain x w1 where xw: "xw = (x, w1)" by (cases xw)
    show ?thesis
    proof (cases x)
      case Next
      with Inr xw Cons.prems have "run_list body xs w1 = Inr (r, w')" by simp
      from Cons.IH [OF this] show ?thesis
      proof (elim disjE exE conjE)
        assume "r = 0" and "run_next body xs w1 = Some w'"
        with Inr xw Next show ?thesis by simp
      next
        fix ys k zs w2
        assume "xs = ys @ k # zs" and "run_next body ys w1 = Some w2"
          and "body k w2 = Inr (Return r, w')"
        with Inr xw Next have "i # xs = (i # ys) @ k # zs \<and> run_next body (i # ys) w = Some w2 \<and>
            body k w2 = Inr (Return r, w')" by simp
        then show ?thesis by blast
      qed
    next
      case (Return r')
      with Inr xw Cons.prems have "i # xs = [] @ i # xs \<and> run_next body [] w = Some w \<and>
          body i w = Inr (Return r, w')" by simp
      then show ?thesis by blast
    qed
  qed
qed

lemma run_list_Inl_cases:
  assumes "run_list body xs w = Inl e"
  shows "\<exists>ys k zs w1. xs = ys @ k # zs \<and> run_next body ys w = Some w1 \<and> body k w1 = Inl e"
  using assms
proof (induction xs arbitrary: w)
  case Nil
  then show ?case by simp
next
  case (Cons i xs)
  show ?case
  proof (cases "body i w")
    case (Inl e')
    with Cons.prems have "i # xs = [] @ i # xs \<and> run_next body [] w = Some w \<and> body i w = Inl e"
      by simp
    then show ?thesis by blast
  next
    case (Inr xw)
    obtain x w1 where xw: "xw = (x, w1)" by (cases xw)
    with Inr Cons.prems have x: "x = Next" and "run_list body xs w1 = Inl e"
      by (auto split: loop_exit.splits)
    from Cons.IH [OF this(2)] obtain ys k zs w2 where
      "xs = ys @ k # zs" "run_next body ys w1 = Some w2" "body k w2 = Inl e" by blast
    with Inr xw x have "i # xs = (i # ys) @ k # zs \<and> run_next body (i # ys) w = Some w2 \<and>
        body k w2 = Inl e" by simp
    then show ?thesis by blast
  qed
qed

lemma run_list_zero_next:
  assumes "nonzero_return body" and "run_list body xs w = Inr (0, w')"
  shows "run_next body xs w = Some w'"
  using run_list_Inr_cases [OF assms(2)] assms(1) by (auto simp: nonzero_return_def)

lemma run_list_nonzero_stop:
  assumes "run_list body xs w = Inr (r, w')" and "r \<noteq> 0"
  obtains ys k zs w1 where "xs = ys @ k # zs" and "run_next body ys w = Some w1"
    and "body k w1 = Inr (Return r, w')"
  using run_list_Inr_cases [OF assms(1)] assms(2) by blast

section \<open>Invariants of a run\<close>

lemma run_next_invariant:
  assumes "run_next body xs w = Some w'" and "I w"
    and "\<And>i w w'. i \<in> set xs \<Longrightarrow> I w \<Longrightarrow> body i w = Inr (Next, w') \<Longrightarrow> I w'"
  shows "I w'"
  using assms
proof (induction xs arbitrary: w)
  case Nil
  then show ?case by simp
next
  case (Cons i xs)
  from Cons.prems(1) obtain w1 where w1: "body i w = Inr (Next, w1)"
    and rest: "run_next body xs w1 = Some w'"
    unfolding run_next_Cons_eq_Some by blast
  from Cons.prems(2) w1 have "I w1"
    by (intro Cons.prems(3) [of i w w1]) simp_all
  with rest show ?case
    by (rule Cons.IH) (rule Cons.prems(3), auto)
qed

lemma run_list_invariant:
  assumes "run_list body xs w = Inr (r, w')" and "I w"
    and "\<And>i w x w'. i \<in> set xs \<Longrightarrow> I w \<Longrightarrow> body i w = Inr (x, w') \<Longrightarrow> I w'"
  shows "I w'"
proof -
  from run_list_Inr_cases [OF assms(1)] show ?thesis
  proof (elim disjE exE conjE)
    assume "run_next body xs w = Some w'"
    then show ?thesis
      using assms(2) by (rule run_next_invariant) (rule assms(3))
  next
    fix ys k zs w1
    assume xs: "xs = ys @ k # zs" and ys: "run_next body ys w = Some w1"
      and k: "body k w1 = Inr (Return r, w')"
    from ys assms(2) have "I w1"
      by (rule run_next_invariant) (rule assms(3), auto simp: xs)
    with k show ?thesis
      by (intro assms(3) [of k w1 "Return r" w']) (simp_all add: xs)
  qed
qed

text \<open>
  An invariant indexed by the set of indices already visited: what a run
  establishes for every input it has processed.
\<close>

lemma run_next_visited:
  assumes "run_next body xs w = Some w'" and "J D w" and "distinct xs" and "D \<inter> set xs = {}"
    and "\<And>D i w w'. i \<in> set xs \<Longrightarrow> i \<notin> D \<Longrightarrow> D \<subseteq> D0 \<union> set xs \<Longrightarrow> J D w \<Longrightarrow>
           body i w = Inr (Next, w') \<Longrightarrow> J (insert i D) w'"
    and "D \<subseteq> D0"
  shows "J (D \<union> set xs) w'"
  using assms
proof (induction xs arbitrary: w D D0)
  case Nil
  then show ?case by simp
next
  case (Cons i xs)
  from Cons.prems(1) obtain w1 where w1: "body i w = Inr (Next, w1)"
    and rest: "run_next body xs w1 = Some w'"
    unfolding run_next_Cons_eq_Some by blast
  from Cons.prems(4) have i: "i \<notin> D" by auto
  have "J (insert i D) w1"
    using Cons.prems(2,6) w1 i by (intro Cons.prems(5) [of i D w w1]) auto
  moreover from Cons.prems(3,4) have "distinct xs" and "insert i D \<inter> set xs = {}"
    by auto
  ultimately have "J (insert i D \<union> set xs) w'"
  proof (rule Cons.IH [OF rest, where ?D0.0 = "insert i D0"])
    fix D' j v v'
    assume "j \<in> set xs" "j \<notin> D'" "D' \<subseteq> insert i D0 \<union> set xs" "J D' v" "body j v = Inr (Next, v')"
    then show "J (insert j D') v'"
      by (intro Cons.prems(5) [of j D' v v']) auto
  next
    from Cons.prems(6) show "insert i D \<subseteq> insert i D0" by auto
  qed
  then show ?case by simp
qed

section \<open>Runs that return\<close>

lemma run_list_total:
  assumes "I w"
    and "\<And>i w. i \<in> set xs \<Longrightarrow> I w \<Longrightarrow> \<exists>x w'. body i w = Inr (x, w') \<and> I w'"
  shows "\<exists>r w'. run_list body xs w = Inr (r, w') \<and> I w'"
  using assms
proof (induction xs arbitrary: w)
  case Nil
  then show ?case by simp
next
  case (Cons i xs)
  from Cons.prems obtain x w1 where w1: "body i w = Inr (x, w1)" and I: "I w1"
    by (metis list.set_intros(1))
  show ?case
  proof (cases x)
    case Next
    from I have "\<exists>r w'. run_list body xs w1 = Inr (r, w') \<and> I w'"
      by (rule Cons.IH) (rule Cons.prems(2), auto)
    with w1 Next show ?thesis by simp
  next
    case (Return r)
    with w1 I show ?thesis by simp
  qed
qed

section \<open>Two runs side by side\<close>

text \<open>
  Two bodies that keep a relation \<open>R\<close> between their worlds, and exit alike on
  related worlds, give runs that exit alike and end in related worlds.
\<close>

lemma run_list_rel:
  assumes "R w1 w2"
    and "\<And>i v1 v2. i \<in> set xs \<Longrightarrow> R v1 v2 \<Longrightarrow>
           rel_sum (=) (rel_prod (=) R) (body1 i v1) (body2 i v2)"
  shows "rel_sum (=) (rel_prod (=) R) (run_list body1 xs w1) (run_list body2 xs w2)"
  using assms
proof (induction xs arbitrary: w1 w2)
  case Nil
  then show ?case by simp
next
  case (Cons i xs)
  from Cons.prems have "rel_sum (=) (rel_prod (=) R) (body1 i w1) (body2 i w2)"
    by simp
  moreover have "rel_sum (=) (rel_prod (=) R) (run_list body1 xs v1) (run_list body2 xs v2)"
    if "R v1 v2" for v1 v2
    using that Cons.prems(2) by (intro Cons.IH) simp_all
  ultimately show ?case
    by (cases "body1 i w1"; cases "body2 i w2") (auto split: loop_exit.splits)
qed

section \<open>Runs over a shifted list of indices\<close>

lemma run_list_map: "run_list body (map f xs) w = run_list (\<lambda>i. body (f i)) xs w"
  by (induction xs arbitrary: w) (simp_all split: loop_splits)

lemma run_list_cong:
  "(\<And>i v. i \<in> set xs \<Longrightarrow> body1 i v = body2 i v) \<Longrightarrow> run_list body1 xs w = run_list body2 xs w"
  by (induction xs arbitrary: w) (simp_all split: loop_splits)

lemma return_relatedD:
  assumes "return_related Q body1 body2 i"
  shows "body1 i w = Inl f \<Longrightarrow> body2 i w = Inl f"
    and "body1 i w = Inr (Next, w') \<Longrightarrow> body2 i w = Inr (Next, w')"
    and "body1 i w = Inr (Return r, w') \<Longrightarrow> \<exists>w''. body2 i w = Inr (Return r, w'') \<and> Q i r w' w''"
  using assms unfolding return_related_def by blast+

lemma run_list_return_related:
  assumes "\<And>i. i \<in> set xs \<Longrightarrow> return_related Q body1 body2 i"
  shows "case run_list body1 xs w of
      Inl f \<Rightarrow> run_list body2 xs w = Inl f
    | Inr (r, w') \<Rightarrow> (\<exists>w''. run_list body2 xs w = Inr (r, w'') \<and>
        (r = 0 \<and> w'' = w' \<or> (\<exists>i\<in>set xs. Q i r w' w'')))"
  using assms
proof (induction xs arbitrary: w)
  case Nil
  then show ?case by simp
next
  case (Cons i xs)
  from Cons.prems [of i] have i: "return_related Q body1 body2 i" by simp
  show ?case
  proof (cases "body1 i w" rule: loop_body_cases)
    case (Fault e)
    with return_relatedD(1) [OF i this] show ?thesis by simp
  next
    case (Next w1)
    with return_relatedD(2) [OF i this] Cons.IH [of w1] Cons.prems show ?thesis
      by (auto split: sum.splits)
  next
    case (Return r w1)
    with return_relatedD(3) [OF i this] show ?thesis by auto
  qed
qed

end
