(* ===== verification/Batch_Layout.thy ===== *)
theory Batch_Layout
  imports Solver_Interface C_Loop
begin

text \<open>
  The layout of the batch arrays of \<^verbatim>\<open>batch_pt\<close> and \<^verbatim>\<open>batch_rhou\<close>: input \<open>i\<close> of a
  batch owns the cells \<open>X + i*nsp, \<dots>, X + i*nsp + nsp - 1\<close> of each \<open>[N, nsp]\<close> array
  \<open>X\<close>. The source computes the offset \<^verbatim>\<open>i*nsp\<close> in \<^verbatim>\<open>int\<close>, where an overflow is
  undefined in C. \<open>batch_fits\<close> says that rows have no negative length and that
  the largest offset of the batch, \<open>(N - 1) * nsp\<close>, is an \<^verbatim>\<open>int\<close>; the lemmas give
  the offsets and slices under it, and \<open>batch_fits_exact\<close> shows that it is the
  weakest condition under which every offset of the batch is computed exactly.
  The theorems about the batch functions assume it, so none of them depends on
  the value that the 32-bit word of the model gives to an overflowing product.
\<close>

definition batch_fits :: "c_int \<Rightarrow> c_int \<Rightarrow> bool" where
  "batch_fits N nsp \<longleftrightarrow> 0 \<le> sint nsp \<and> (sint N - 1) * sint nsp \<le> 2147483647"

definition in_batch :: "c_int \<Rightarrow> c_int \<Rightarrow> bool" where
  "in_batch N i \<longleftrightarrow> 0 \<le> sint i \<and> sint i < sint N"

lemma in_batch_indices: "in_batch N i \<longleftrightarrow> i \<in> set (indices_from 0 N)"
  by (simp add: in_batch_def set_indices_from)

lemma in_batch_split:
  "in_batch N k \<Longrightarrow> indices_from 0 N = indices_from 0 k @ k # indices_from (k + 1) N"
  by (simp add: in_batch_def indices_from_split)

lemma in_batch_prefix: "in_batch N k \<Longrightarrow> in_batch k i \<Longrightarrow> in_batch N i"
  by (simp add: in_batch_def)

lemma in_batch_prefix_neq: "in_batch k i \<Longrightarrow> i \<noteq> k"
  by (auto simp: in_batch_def)

lemma in_batch_numeral [simp]: "in_batch (numeral n) (numeral k) \<longleftrightarrow> sint (numeral k :: c_int) < sint (numeral n :: c_int) \<and> 0 \<le> sint (numeral k :: c_int)"
  by (auto simp: in_batch_def)

text \<open>Where a run over the indices of a batch stops, in terms of positions.\<close>

lemma indices_split_prefix:
  assumes "indices_from 0 N = ys @ k # zs"
  shows "in_batch N k" and "ys = indices_from 0 k"
proof -
  from assms show inb: "in_batch N k"
    by (simp add: in_batch_indices)
  have "distinct (ys @ k # zs)"
    using distinct_indices_from [of 0 N] by (simp only: assms)
  then have "k \<notin> set ys" and "k \<notin> set zs" by auto
  moreover have "ys @ k # zs = indices_from 0 k @ k # indices_from (k + 1) N"
    using assms in_batch_split [OF inb] by simp
  ultimately show "ys = indices_from 0 k"
    by (simp add: append_Cons_eq_iff)
qed

lemma run_batch_stop:
  assumes "run_list body (indices_from 0 N) w = Inr (r, w')" and "r \<noteq> 0"
  obtains k w1 where "in_batch N k" and "run_next body (indices_from 0 k) w = Some w1"
    and "body k w1 = Inr (Return r, w')"
proof -
  from assms obtain ys k zs w1 where xs: "indices_from 0 N = ys @ k # zs"
    and ys: "run_next body ys w = Some w1" and k: "body k w1 = Inr (Return r, w')"
    by (rule run_list_nonzero_stop)
  with indices_split_prefix [OF xs] show thesis
    by (intro that [of k w1]) simp_all
qed

lemma run_batch_fault:
  assumes "run_list body (indices_from 0 N) w = Inl f"
  obtains k w1 where "in_batch N k" and "run_next body (indices_from 0 k) w = Some w1"
    and "body k w1 = Inl f"
proof -
  from run_list_Inl_cases [OF assms] obtain ys k zs w1 where xs: "indices_from 0 N = ys @ k # zs"
    and ys: "run_next body ys w = Some w1" and k: "body k w1 = Inl f"
    by blast
  with indices_split_prefix [OF xs] show thesis
    by (intro that [of k w1]) simp_all
qed

lemma run_batch_prefix:
  assumes "run_next body (indices_from 0 N) w = Some w'" and "in_batch N k"
  obtains wk wk' where "run_next body (indices_from 0 k) w = Some wk"
    and "body k wk = Inr (Next, wk')"
  using assms(1) unfolding in_batch_split [OF assms(2)] run_next_append bind_eq_Some_conv
    run_next_Cons_eq_Some by blast

lemma offset_bounds:
  assumes "batch_fits N nsp" and "in_batch N i"
  shows "0 \<le> sint i * sint nsp" and "sint i * sint nsp \<le> 2147483647"
proof -
  from assms show "0 \<le> sint i * sint nsp"
    by (simp add: batch_fits_def in_batch_def)
  have "sint i * sint nsp \<le> (sint N - 1) * sint nsp"
    using assms by (intro mult_right_mono) (simp_all add: batch_fits_def in_batch_def)
  with assms(1) show "sint i * sint nsp \<le> 2147483647"
    by (simp add: batch_fits_def)
qed

lemma offset_exact:
  assumes "batch_fits N nsp" and "in_batch N i"
  shows "sint (i * nsp) = sint i * sint nsp"
  using offset_bounds [OF assms] by (intro sint_mult_exact) simp_all

lemma ptr_add_offset:
  "batch_fits N nsp \<Longrightarrow> in_batch N i \<Longrightarrow> ptr_add X (i * nsp) = X + sint i * sint nsp"
  by (simp add: ptr_add_def offset_exact)

lemma region_ptr_add_offset:
  "batch_fits N nsp \<Longrightarrow> in_batch N i \<Longrightarrow>
   region (ptr_add X (i * nsp)) (sint nsp) = slice X (sint nsp) (sint i)"
  by (simp add: ptr_add_offset slice_def)

lemma slice_in_batch:
  "batch_fits N nsp \<Longrightarrow> in_batch N i \<Longrightarrow> slice X (sint nsp) (sint i) \<subseteq> region X (sint N * sint nsp)"
  by (intro slice_subset_region) (simp_all add: batch_fits_def in_batch_def)

lemma slices_disjoint:
  fixes i j :: c_int
  shows "batch_fits N nsp \<Longrightarrow> i \<noteq> j \<Longrightarrow>
    slice X (sint nsp) (sint i) \<inter> slice X (sint nsp) (sint j) = {}"
  by (intro slice_disjoint) (simp_all add: batch_fits_def sint_inject)

lemma cell_in_batch: "in_batch N i \<Longrightarrow> ptr_add X i \<in> region X (sint N)"
  by (simp add: in_batch_def ptr_add_def)

text \<open>The indices of the rest of a batch, counted from position \<open>k\<close>.\<close>

lemma in_batch_shift:
  assumes "0 \<le> sint k" and "sint k \<le> sint N" and "in_batch (N - k) i"
  shows "in_batch N (i + k)" and "sint (i + k) = sint i + sint k" and "in_batch N i"
proof -
  from assms have i: "0 \<le> sint i" "sint i < sint N - sint k"
    by (simp_all add: in_batch_def sint_diff_exact)
  with assms(1) sint_c_int_range [of N] show sum: "sint (i + k) = sint i + sint k"
    by (intro sint_add_exact) linarith+
  with i assms(1) show "in_batch N (i + k)" "in_batch N i"
    by (simp_all add: in_batch_def)
qed

lemma ptr_add_shift:
  assumes "0 \<le> sint k" and "sint k \<le> sint N" and "in_batch (N - k) i"
  shows "ptr_add (ptr_add Y k) i = ptr_add Y (i + k)"
  by (simp add: ptr_add_def in_batch_shift(2) [OF assms])

lemma ptr_add_offset_shift:
  assumes "batch_fits N nsp" and "0 \<le> sint k" and "sint k \<le> sint N" and "in_batch (N - k) i"
  shows "ptr_add (ptr_add Y (k * nsp)) (i * nsp) = ptr_add Y ((i + k) * nsp)"
proof -
  note shift = in_batch_shift [OF assms(2-4)]
  from shift(1,2) assms(2,4) have k: "in_batch N k"
    by (simp add: in_batch_def)
  show ?thesis
    unfolding ptr_add_offset [OF assms(1) shift(1)] ptr_add_offset [OF assms(1) shift(3)]
      ptr_add_offset [OF assms(1) k] shift(2)
    by (simp add: algebra_simps)
qed

section \<open>The bound is exact\<close>

text \<open>The last index of a batch that is not empty.\<close>

lemma in_batch_last:
  assumes "0 < sint N"
  shows "in_batch N (N - 1)" and "sint (N - 1) = sint N - 1"
proof -
  from assms show "sint (N - 1) = sint N - 1"
    using sint_diff_exact [of 1 N] by simp
  with assms show "in_batch N (N - 1)"
    by (simp add: in_batch_def)
qed

lemma offsets_exact_fit:
  assumes "0 \<le> sint nsp" and "\<And>i. in_batch N i \<Longrightarrow> sint (i * nsp) = sint i * sint nsp"
  shows "batch_fits N nsp"
proof (cases "0 < sint N")
  case True
  from assms(2) [OF in_batch_last(1) [OF True]] in_batch_last(2) [OF True]
  have "(sint N - 1) * sint nsp = sint ((N - 1) * nsp)"
    by simp
  with assms(1) sint_c_int_range [of "(N - 1) * nsp"] show ?thesis
    by (simp add: batch_fits_def)
next
  case False
  with assms(1) have "(sint N - 1) * sint nsp \<le> 0"
    by (simp add: mult_nonpos_nonneg)
  with assms(1) show ?thesis
    by (simp add: batch_fits_def)
qed

text \<open>
  C36. The bound on the batch is exact: \<open>batch_fits N nsp\<close> holds if and only if
  \<open>nsp\<close> is not negative and, for every index \<open>i\<close> of the batch, the pointer
  \<^verbatim>\<open>X + i*nsp\<close> that the loop computes with the product in \<^verbatim>\<open>int\<close> is the cell
  \<open>i * nsp\<close> of the array \<open>X\<close>, that is, no offset of the batch overflows.
\<close>

theorem batch_fits_exact:
  "batch_fits N nsp \<longleftrightarrow>
   0 \<le> sint nsp \<and> (\<forall>i. in_batch N i \<longrightarrow> ptr_add X (i * nsp) = X + sint i * sint nsp)"
proof
  assume "batch_fits N nsp"
  then show "0 \<le> sint nsp \<and> (\<forall>i. in_batch N i \<longrightarrow> ptr_add X (i * nsp) = X + sint i * sint nsp)"
    by (simp add: ptr_add_offset) (simp add: batch_fits_def)
next
  assume "0 \<le> sint nsp \<and> (\<forall>i. in_batch N i \<longrightarrow> ptr_add X (i * nsp) = X + sint i * sint nsp)"
  then show "batch_fits N nsp"
    by (intro offsets_exact_fit) (simp_all add: ptr_add_def)
qed

text \<open>
  With 50 species a batch of 42949674 inputs does not fit: the offset of its
  last input, 42949673 * 50 = 2147483650, is not an \<^verbatim>\<open>int\<close>. Two rows of
  1073741824 species fit, although the size of the arrays, 2147483648, is not an
  \<^verbatim>\<open>int\<close>: the loop computes only the offset of the second row.
\<close>

theorem batch_fits_exact_witness:
  "\<not> batch_fits 42949674 50 \<and> batch_fits 2 1073741824 \<and> ptr_add 10 (1 * 1073741824) = 1073741834"
proof -
  have "in_batch 42949674 42949673"
    and "ptr_add 0 (42949673 * 50) \<noteq> 0 + sint (42949673 :: c_int) * sint (50 :: c_int)"
    by (simp_all add: in_batch_def ptr_add_def)
  with batch_fits_exact [of 42949674 50 0] have "\<not> batch_fits 42949674 50"
    by blast
  moreover have "batch_fits 2 1073741824"
    by (simp add: batch_fits_def)
  moreover from batch_fits_exact [of 2 1073741824 10] this
  have "in_batch 2 i \<longrightarrow> ptr_add 10 (i * 1073741824) = 10 + sint i * sint (1073741824 :: c_int)" for i
    by blast
  from this [of 1] have "ptr_add 10 (1 * 1073741824) = 1073741834"
    by (simp add: in_batch_def)
  ultimately show ?thesis by simp
qed

end
