(* ===== verification/C_Loop_Steps.thy ===== *)
theory C_Loop_Steps
  imports C_Loop
begin

text \<open>
  The loop of \<^verbatim>\<open>batch_pt\<close> and \<^verbatim>\<open>batch_rhou\<close> as a machine. A configuration is the
  loop running with counter \<open>i\<close> in some world, or the function having returned a
  status, or a fault. One step is one evaluation of the loop condition followed,
  when it holds, by one run of the body. The lemmas show that the machine is
  deterministic, that it always reaches the final configuration that \<open>for_loop\<close>
  computes, and which running configurations it passes through. With the
  measure \<open>steps_left\<close> they show that every run is finite and bound its length.
\<close>

section \<open>Definitions\<close>

datatype ('e, 'w) config = Running c_int 'w | Returned c_int 'w | Faulted 'e

inductive loop_step ::
  "('e, 'w) loop_body \<Rightarrow> c_int \<Rightarrow> ('e, 'w) config \<Rightarrow> ('e, 'w) config \<Rightarrow> bool"
  for body n where
  step_next: "i <s n \<Longrightarrow> body i w = Inr (Next, w') \<Longrightarrow>
    loop_step body n (Running i w) (Running (i + 1) w')"
| step_return: "i <s n \<Longrightarrow> body i w = Inr (Return r, w') \<Longrightarrow>
    loop_step body n (Running i w) (Returned r w')"
| step_fault: "i <s n \<Longrightarrow> body i w = Inl e \<Longrightarrow>
    loop_step body n (Running i w) (Faulted e)"
| step_exit: "\<not> i <s n \<Longrightarrow> loop_step body n (Running i w) (Returned 0 w)"

inductive loop_steps ::
  "('e, 'w) loop_body \<Rightarrow> c_int \<Rightarrow> ('e, 'w) config \<Rightarrow> ('e, 'w) config \<Rightarrow> bool"
  for body n where
  steps_refl: "loop_steps body n c c"
| steps_step: "loop_step body n c c' \<Longrightarrow> loop_steps body n c' c'' \<Longrightarrow> loop_steps body n c c''"

fun final :: "('e, 'w) config \<Rightarrow> bool" where
  "final (Running i w) = False"
| "final (Returned r w) = True"
| "final (Faulted e) = True"

fun config_of :: "'e + (c_int \<times> 'w) \<Rightarrow> ('e, 'w) config" where
  "config_of (Inl e) = Faulted e"
| "config_of (Inr (r, w)) = Returned r w"

text \<open>The number of steps a configuration can still take, at most.\<close>

fun steps_left :: "c_int \<Rightarrow> ('e, 'w) config \<Rightarrow> nat" where
  "steps_left n (Running i w) = nat (sint n - sint i) + 1"
| "steps_left n (Returned r w) = 0"
| "steps_left n (Faulted e) = 0"

code_pred loop_step .

code_pred loop_steps .

inductive_cases loop_step_RunningE: "loop_step body n (Running i w) c"
inductive_cases loop_step_ReturnedE: "loop_step body n (Returned r w) c"
inductive_cases loop_step_FaultedE: "loop_step body n (Faulted e) c"

section \<open>One step\<close>

lemma loop_step_deterministic:
  "loop_step body n c c1 \<Longrightarrow> loop_step body n c c2 \<Longrightarrow> c1 = c2"
  by (auto simp: loop_step.simps)

lemma final_no_step: "final c \<Longrightarrow> \<not> loop_step body n c c'"
  by (cases c) (auto simp: loop_step.simps)

lemma loop_step_of_body:
  assumes "i <s n"
  shows "loop_step body n (Running i w)
    (case body i w of Inl e \<Rightarrow> Faulted e | Inr (Next, w') \<Rightarrow> Running (i + 1) w'
     | Inr (Return r, w') \<Rightarrow> Returned r w')"
proof (cases "body i w")
  case (Inl e)
  with assms show ?thesis by (simp add: step_fault)
next
  case (Inr xw)
  obtain x w' where "xw = (x, w')" by (cases xw)
  with assms Inr show ?thesis
    by (cases x) (simp_all add: step_next step_return)
qed

lemma loop_step_total: "\<not> final c \<Longrightarrow> \<exists>c'. loop_step body n c c'"
proof (cases c)
  case (Running i w)
  then show ?thesis
    using loop_step_of_body [of i n body w] step_exit [of i n body w] by (cases "i <s n") blast+
qed simp_all

section \<open>Runs\<close>

lemma loop_steps_trans:
  "loop_steps body n c c' \<Longrightarrow> loop_steps body n c' c'' \<Longrightarrow> loop_steps body n c c''"
proof (induction rule: loop_steps.induct)
  case (steps_refl c)
  then show ?case .
next
  case (steps_step c d e)
  from steps_step.hyps(1) steps_step.IH [OF steps_step.prems] show ?case
    by (rule loop_steps.steps_step)
qed

lemma loop_steps_final: "loop_steps body n c c' \<Longrightarrow> final c \<Longrightarrow> c' = c"
  by (induction rule: loop_steps.induct) (simp_all add: final_no_step)

lemma loop_steps_confluent:
  assumes "loop_steps body n c c1" and "final c1" and "loop_steps body n c c2" and "final c2"
  shows "c1 = c2"
  using assms
proof (induction arbitrary: c2 rule: loop_steps.induct)
  case (steps_refl c)
  then show ?case by (blast dest: loop_steps_final)
next
  case (steps_step c c' c'')
  from steps_step.prems(2) show ?case
  proof (cases rule: loop_steps.cases)
    case steps_refl
    with steps_step.hyps(1) steps_step.prems(3) show ?thesis
      by (simp add: final_no_step)
  next
    case (steps_step d)
    with steps_step.hyps(1) have "d = c'"
      by (blast intro: loop_step_deterministic)
    with steps_step steps_step.IH steps_step.prems show ?thesis by simp
  qed
qed

text \<open>
  The machine reaches the configuration of the outcome of \<open>for_loop\<close>: the loop
  ends, and the function computes where.
\<close>

lemma loop_steps_step1: "loop_step body n c c' \<Longrightarrow> loop_steps body n c c'"
  by (erule steps_step) (rule steps_refl)

lemma config_of_for_loop:
  assumes "i <s n"
  shows "config_of (for_loop body i n w) =
    (case body i w of Inl e \<Rightarrow> Faulted e
     | Inr (Next, w') \<Rightarrow> config_of (for_loop body (i + 1) n w')
     | Inr (Return r, w') \<Rightarrow> Returned r w')"
  using assms by (simp add: for_loop.simps [of body i n w] split: loop_splits)

lemma loop_steps_for_loop: "loop_steps body n (Running i w) (config_of (for_loop body i n w))"
proof (induction body i n w rule: for_loop.induct)
  case (1 body i n w)
  show ?case
  proof (cases "i <s n")
    case False
    then have "loop_steps body n (Running i w) (Returned 0 w)"
      by (intro loop_steps_step1 step_exit)
    with False show ?thesis
      by (simp add: for_loop_done)
  next
    case True
    note step = loop_step_of_body [OF True, of body w]
    show ?thesis
    proof (cases "body i w" rule: loop_body_cases)
      case (Next w')
      with True have "loop_steps body n (Running (i + 1) w') (config_of (for_loop body (i + 1) n w'))"
        by (intro 1) simp_all
      with step Next show ?thesis
        by (simp add: config_of_for_loop [OF True] steps_step)
    qed (use step in \<open>simp_all add: config_of_for_loop [OF True] loop_steps_step1\<close>)
  qed
qed

lemma final_config_of [simp]: "final (config_of x)"
  by (cases x) auto

lemma loop_steps_final_iff:
  "loop_steps body n (Running i w) c \<and> final c \<longleftrightarrow> c = config_of (for_loop body i n w)"
proof
  assume "loop_steps body n (Running i w) c \<and> final c"
  then show "c = config_of (for_loop body i n w)"
    using loop_steps_for_loop [of body n i w] by (blast intro: loop_steps_confluent final_config_of)
next
  assume "c = config_of (for_loop body i n w)"
  then show "loop_steps body n (Running i w) c \<and> final c"
    using loop_steps_for_loop [of body n i w] by simp
qed

text \<open>
  The running configurations a run passes through: the counter has not moved, or
  it is above the start and at most \<open>n\<close>, and the world is the one the iterations
  in between have left, each of them having asked for the next one.
\<close>

lemma loop_steps_running:
  assumes "loop_steps body n c c'" and "c = Running i w" and "c' = Running j w'"
  shows "sint i \<le> sint j \<and> (sint j \<le> sint n \<or> j = i) \<and>
    run_next body (indices_from i j) w = Some w'"
  using assms
proof (induction arbitrary: i w rule: loop_steps.induct)
  case (steps_refl c)
  then show ?case by (simp add: indices_from_done)
next
  case (steps_step c d c'')
  from steps_step.hyps(1) show ?case
  proof (cases rule: loop_step.cases)
    case (step_next i0 w0 w1)
    with steps_step.prems(1) have eq: "i0 = i" "w0 = w" by simp_all
    from step_next(3) have succ: "sint (i + 1) = sint i + 1"
      unfolding eq by (rule sint_succ)
    from steps_step.IH [OF step_next(2) [unfolded eq] steps_step.prems(2)]
    have IH: "sint (i + 1) \<le> sint j" "sint j \<le> sint n \<or> j = i + 1"
      "run_next body (indices_from (i + 1) j) w1 = Some w'"
      by simp_all
    from IH(1) succ have less: "i <s j" by simp
    from IH(2) step_next(3) succ have "sint j \<le> sint n"
      unfolding eq by auto
    moreover from IH(3) step_next(4) have "run_next body (indices_from i j) w = Some w'"
      unfolding eq by (simp add: indices_from_step [OF less])
    ultimately show ?thesis using IH(1) succ by simp
  next
    case (step_return i0 w0 r w1)
    with steps_step.hyps(2) steps_step.prems(2) show ?thesis
      by (auto dest!: loop_steps_final)
  next
    case (step_fault i0 w0 e)
    with steps_step.hyps(2) steps_step.prems(2) show ?thesis
      by (auto dest!: loop_steps_final)
  next
    case (step_exit i0 w0)
    with steps_step.hyps(2) steps_step.prems(2) show ?thesis
      by (auto dest!: loop_steps_final)
  qed
qed

section \<open>Termination\<close>

text \<open>
  Every step decreases \<open>steps_left\<close>, so no run of the machine is infinite, and
  the run from \<open>Running i w\<close> reaches the result of \<open>for_loop\<close> in at most
  \<open>n - i + 1\<close> steps.
\<close>

lemma loop_step_decreases: "loop_step body n c c' \<Longrightarrow> steps_left n c' < steps_left n c"
  by (induction rule: loop_step.induct) (simp_all add: sint_succ)

lemma loop_step_wfp: "wfp (loop_step body n)\<inverse>\<inverse>"
  by (rule wfp_if_convertible_to_nat [where f = "steps_left n"]) (simp add: loop_step_decreases)

lemma relpowp_steps_left:
  "(loop_step body n ^^ k) c c' \<Longrightarrow> steps_left n c' + k \<le> steps_left n c"
proof (induction k arbitrary: c')
  case 0
  then show ?case by simp
next
  case (Suc k)
  then obtain d where "(loop_step body n ^^ k) c d" and "loop_step body n d c'"
    by auto
  with Suc.IH [of d] loop_step_decreases [of body n d c'] show ?case by simp
qed

lemma loop_steps_relpowp: "loop_steps body n c c' \<longleftrightarrow> (\<exists>k. (loop_step body n ^^ k) c c')"
proof
  assume "loop_steps body n c c'"
  then show "\<exists>k. (loop_step body n ^^ k) c c'"
  proof (induction rule: loop_steps.induct)
    case (steps_refl c)
    have "(loop_step body n ^^ 0) c c" by simp
    then show ?case ..
  next
    case (steps_step c d e)
    then obtain k where "(loop_step body n ^^ k) d e" by blast
    with steps_step.hyps(1) have "(loop_step body n ^^ Suc k) c e"
      by (blast intro: relpowp_Suc_I2)
    then show ?case ..
  qed
next
  assume "\<exists>k. (loop_step body n ^^ k) c c'"
  then obtain k where "(loop_step body n ^^ k) c c'" ..
  then show "loop_steps body n c c'"
  proof (induction k arbitrary: c')
    case 0
    then show ?case by (simp add: steps_refl)
  next
    case (Suc k)
    then obtain d where "(loop_step body n ^^ k) c d" and "loop_step body n d c'"
      by auto
    with Suc.IH [of d] show ?case
      by (blast intro: loop_steps_trans loop_steps_step1)
  qed
qed

lemma loop_terminates:
  "\<exists>k\<le>nat (sint n - sint i) + 1.
     (loop_step body n ^^ k) (Running i w) (config_of (for_loop body i n w))"
proof -
  from loop_steps_for_loop [of body n i w] obtain k where
    k: "(loop_step body n ^^ k) (Running i w) (config_of (for_loop body i n w))"
    unfolding loop_steps_relpowp ..
  from relpowp_steps_left [OF k] have "k \<le> nat (sint n - sint i) + 1" by simp
  with k show ?thesis by blast
qed

end
