(* ===== verification/Batch_Run.thy ===== *)
theory Batch_Run
  imports Batch_Layout C_Loop_Steps
begin

text \<open>
  What \<^verbatim>\<open>batch_pt\<close> and \<^verbatim>\<open>batch_rhou\<close> have in common, stated once. Both run, for
  \<open>i = 0, \<dots>, N - 1\<close>, a call that depends on \<open>i\<close> and returns a status, and leave
  with the status after printing the position when the status is not 0. Here the
  call is a parameter \<open>call i\<close>, with the cells \<open>reads i\<close> it may depend on and the
  cells \<open>outs i\<close> it may write; the two batch functions are instances, and their
  theorems are the lemmas of this theory at their calls and footprints.

  The abstract batch is \<open>first_failure\<close>: given the status of the direct call for
  each position on the initial memory, the first position whose status is not 0,
  with that status. \<open>batch_run_first_failure\<close> is the refinement: under the
  contracts, the batch returns the status the abstract batch gives.
  \<open>first_failure\<close>, \<open>status_of\<close>, \<open>solved_rows\<close> and \<open>direct_status\<close> are the
  vocabulary of that specification and translate no statement of the source.
  \<open>direct_status\<close> is the status of a call that returns; for a call that faults
  it is the default 0, which no theorem relies on: the theorems that mention it
  assume \<open>call_safe\<close> on allocated arrays, where no call faults.

  \<open>config_ok\<close> is the predicate of well-formed configurations of the loop of a
  batch; it is kept by every step and implies progress (\<open>batch_run_sound\<close>).
  \<open>batch_run_split\<close> relates a batch to the batches of its two parts.
\<close>

section \<open>Definitions\<close>

type_synonym 'd call_at = "c_int \<Rightarrow> 'd world \<Rightarrow> fault + (c_int \<times> 'd world)"

definition batch_body :: "'d call_at \<Rightarrow> string \<Rightarrow> (fault, 'd world) loop_body" where
  "batch_body call fmt i w =
     bind_res (call i w) (\<lambda>(result, w').
       if result \<noteq> 0 then Inr (Return result, printf fmt [i] w') else Inr (Next, w'))"

definition batch_run :: "'d call_at \<Rightarrow> string \<Rightarrow> c_int \<Rightarrow> 'd world \<Rightarrow> fault + (c_int \<times> 'd world)" where
  "batch_run call fmt N w = for_loop (batch_body call fmt) 0 N w"

definition call_frame :: "'d call_at \<Rightarrow> (c_int \<Rightarrow> addr set) \<Rightarrow> c_int \<Rightarrow> bool" where
  "call_frame call outs N \<longleftrightarrow>
     (\<forall>i w r w'. in_batch N i \<and> call i w = Inr (r, w') \<longrightarrow>
        same_outside (outs i) w w' \<and> extends_output w w')"

definition call_local ::
  "'d call_at \<Rightarrow> (c_int \<Rightarrow> addr set) \<Rightarrow> (c_int \<Rightarrow> addr set) \<Rightarrow> c_int \<Rightarrow> bool" where
  "call_local call reads outs N \<longleftrightarrow>
     (\<forall>i w1 w2. in_batch N i \<and> agree_on (reads i) w1 w2 \<and> dom (heap w1) = dom (heap w2) \<longrightarrow>
        outcome_rel (outs i) (call i w1) (call i w2))"

definition call_safe :: "'d call_at \<Rightarrow> addr set \<Rightarrow> c_int \<Rightarrow> bool" where
  "call_safe call A N \<longleftrightarrow>
     (\<forall>i w. in_batch N i \<and> A \<subseteq> dom (heap w) \<longrightarrow> (\<exists>r w'. call i w = Inr (r, w')))"

definition calls_separate :: "(c_int \<Rightarrow> addr set) \<Rightarrow> (c_int \<Rightarrow> addr set) \<Rightarrow> c_int \<Rightarrow> bool" where
  "calls_separate reads outs N \<longleftrightarrow>
     (\<forall>i j. in_batch N i \<and> in_batch N j \<and> i \<noteq> j \<longrightarrow>
        reads i \<inter> outs j = {} \<and> outs i \<inter> outs j = {})"

definition calls_solved ::
  "'d call_at \<Rightarrow> (c_int \<Rightarrow> addr set) \<Rightarrow> 'd world \<Rightarrow> c_int set \<Rightarrow> 'd world \<Rightarrow> bool" where
  "calls_solved call outs w D w1 \<longleftrightarrow>
     same_outside (\<Union>i\<in>D. outs i) w w1 \<and>
     (\<forall>i\<in>D. \<exists>wi. call i w = Inr (0, wi) \<and> agree_on (outs i) wi w1)"

fun first_failure :: "(c_int \<Rightarrow> c_int) \<Rightarrow> c_int list \<Rightarrow> (c_int \<times> c_int) option" where
  "first_failure st [] = None"
| "first_failure st (i # is) = (if st i \<noteq> 0 then Some (i, st i) else first_failure st is)"

definition status_of :: "(c_int \<times> c_int) option \<Rightarrow> c_int" where
  "status_of f = (case f of None \<Rightarrow> 0 | Some (k, r) \<Rightarrow> r)"

definition solved_rows :: "(c_int \<times> c_int) option \<Rightarrow> c_int \<Rightarrow> c_int" where
  "solved_rows f N = (case f of None \<Rightarrow> N | Some (k, r) \<Rightarrow> k)"

definition direct_status :: "'d call_at \<Rightarrow> 'd world \<Rightarrow> c_int \<Rightarrow> c_int" where
  "direct_status call w i = (case call i w of Inl f \<Rightarrow> 0 | Inr (r, w') \<Rightarrow> r)"

definition disjoint_regions :: "addr \<Rightarrow> int \<Rightarrow> addr \<Rightarrow> int \<Rightarrow> bool" where
  "disjoint_regions p n q m \<longleftrightarrow> n \<le> 0 \<or> m \<le> 0 \<or> p + n \<le> q \<or> q + m \<le> p"

text \<open>
  A well-formed configuration of the loop of a batch started in \<open>w0\<close>: the index is
  in the range of the loop, the cells that are allocated are those of \<open>w0\<close>, the
  output extends that of \<open>w0\<close>, and no fault has happened.
\<close>

fun config_ok :: "c_int \<Rightarrow> 'd world \<Rightarrow> (fault, 'd world) config \<Rightarrow> bool" where
  "config_ok N w0 (Running i w) \<longleftrightarrow>
     0 \<le> sint i \<and> (sint i \<le> sint N \<or> i = 0) \<and> dom (heap w) = dom (heap w0) \<and>
     extends_output w0 w"
| "config_ok N w0 (Returned r w) \<longleftrightarrow> dom (heap w) = dom (heap w0) \<and> extends_output w0 w"
| "config_ok N w0 (Faulted e) \<longleftrightarrow> False"

section \<open>One iteration\<close>

lemma batch_body_Next: "batch_body call fmt i w = Inr (Next, w') \<longleftrightarrow> call i w = Inr (0, w')"
  by (auto simp: batch_body_def bind_res_eq_Inr split: if_splits)

lemma batch_body_Return:
  "batch_body call fmt i w = Inr (Return r, w') \<longleftrightarrow>
   r \<noteq> 0 \<and> (\<exists>ws. call i w = Inr (r, ws) \<and> w' = printf fmt [i] ws)"
  by (auto simp: batch_body_def bind_res_eq_Inr split: if_splits)

lemma batch_body_Inl: "batch_body call fmt i w = Inl f \<longleftrightarrow> call i w = Inl f"
  by (auto simp: batch_body_def bind_res_eq_Inl split: if_splits)

lemma batch_body_Inr:
  assumes "batch_body call fmt i w = Inr (x, w')"
  obtains r ws where "call i w = Inr (r, ws)" and "w' = ws \<or> w' = printf fmt [i] ws"
  using assms by (cases x) (auto simp: batch_body_Next batch_body_Return)

lemma batch_body_of_call:
  "call i w = Inr (r, ws) \<Longrightarrow> \<exists>x w'. batch_body call fmt i w = Inr (x, w')"
  by (simp add: batch_body_def)

lemma nonzero_return_batch_body: "nonzero_return (batch_body call fmt)"
  by (simp add: nonzero_return_def batch_body_Return)

lemma disjoint_regions_iff: "disjoint_regions p n q m \<longleftrightarrow> region p n \<inter> region q m = {}"
proof
  assume "disjoint_regions p n q m"
  then show "region p n \<inter> region q m = {}"
    by (auto simp: disjoint_regions_def)
next
  assume *: "region p n \<inter> region q m = {}"
  show "disjoint_regions p n q m"
  proof (rule ccontr)
    assume "\<not> disjoint_regions p n q m"
    then have "max p q \<in> region p n \<inter> region q m"
      by (auto simp: disjoint_regions_def)
    with * show False by simp
  qed
qed

section \<open>Control flow of a batch\<close>

lemmas batch_run_list = batch_run_def for_loop_run_list

lemma batch_run_prefix:
  "batch_run call fmt k w = Inr (0, wk) \<longleftrightarrow>
   run_next (batch_body call fmt) (indices_from 0 k) w = Some wk"
  unfolding batch_run_list
  by (rule iffI) (erule run_list_zero_next [OF nonzero_return_batch_body], erule run_list_of_next)

lemma batch_run_fail_fast:
  assumes "in_batch N k" and "batch_run call fmt k w = Inr (0, wk)"
    and "call k wk = Inr (r, w')" and "r \<noteq> 0"
  shows "batch_run call fmt N w = Inr (r, printf fmt [k] w')"
proof -
  from assms(2) have "run_next (batch_body call fmt) (indices_from 0 k) w = Some wk"
    by (simp only: batch_run_prefix)
  moreover from assms(3,4) have "batch_body call fmt k wk = Inr (Return r, printf fmt [k] w')"
    by (simp add: batch_body_Return)
  ultimately show ?thesis
    unfolding batch_run_list in_batch_split [OF assms(1)] by (rule run_list_stop)
qed

lemma batch_run_failure_position:
  assumes "batch_run call fmt N w = Inr (r, w')" and "r \<noteq> 0"
  obtains k wk ws where "in_batch N k" and "batch_run call fmt k w = Inr (0, wk)"
    and "call k wk = Inr (r, ws)" and "w' = printf fmt [k] ws"
proof -
  from assms obtain k wk where k: "in_batch N k"
    and run: "run_next (batch_body call fmt) (indices_from 0 k) w = Some wk"
    and stop: "batch_body call fmt k wk = Inr (Return r, w')"
    unfolding batch_run_list by (rule run_batch_stop)
  from stop obtain ws where "call k wk = Inr (r, ws)" and "w' = printf fmt [k] ws"
    unfolding batch_body_Return by blast
  with k run show thesis
    unfolding batch_run_prefix [symmetric] by (rule that)
qed

lemma batch_run_all_solved:
  assumes "batch_run call fmt N w = Inr (0, w')" and "in_batch N k"
  obtains wk wk' where "batch_run call fmt k w = Inr (0, wk)" and "call k wk = Inr (0, wk')"
proof -
  from assms(1) have "run_next (batch_body call fmt) (indices_from 0 N) w = Some w'"
    by (simp only: batch_run_prefix)
  then obtain wk wk' where "run_next (batch_body call fmt) (indices_from 0 k) w = Some wk"
    and "batch_body call fmt k wk = Inr (Next, wk')"
    using assms(2) by (rule run_batch_prefix)
  then show thesis
    unfolding batch_run_prefix [symmetric] batch_body_Next by (rule that)
qed

lemma batch_run_fault:
  assumes "in_batch N k" and "batch_run call fmt k w = Inr (0, wk)" and "call k wk = Inl f"
  shows "batch_run call fmt N w = Inl f"
proof -
  from assms(2) have "run_next (batch_body call fmt) (indices_from 0 k) w = Some wk"
    by (simp only: batch_run_prefix)
  moreover from assms(3) have "batch_body call fmt k wk = Inl f"
    by (simp only: batch_body_Inl)
  ultimately show ?thesis
    unfolding batch_run_list in_batch_split [OF assms(1)] by (rule run_list_fault)
qed

lemma batch_run_empty: "sint N \<le> 0 \<Longrightarrow> batch_run call fmt N w = Inr (0, w)"
  by (simp add: batch_run_def for_loop_done)

section \<open>Frame and absence of faults\<close>

lemma call_frameD:
  assumes "call_frame call outs N" and "in_batch N i" and "call i w = Inr (r, w')"
  shows "same_outside (outs i) w w'" and "extends_output w w'"
  using assms unfolding call_frame_def by blast+

lemma batch_body_frame:
  assumes "call_frame call outs N" and "in_batch N i" and "batch_body call fmt i w = Inr (x, w')"
  shows "same_outside (outs i) w w'" and "extends_output w w'"
proof -
  from assms(3) obtain r ws where call: "call i w = Inr (r, ws)"
    and w': "w' = ws \<or> w' = printf fmt [i] ws"
    by (rule batch_body_Inr)
  note ws = call_frameD [where call = call, OF assms(1,2) call]
  from w' ws(1) show "same_outside (outs i) w w'"
    by (elim disjE) simp_all
  from w' ws(2) show "extends_output w w'"
    by (elim disjE) (simp_all add: extends_output_printf)
qed

lemma batch_run_frame:
  assumes "call_frame call outs N" and "batch_run call fmt N w = Inr (r, w')"
    and "\<And>i. in_batch N i \<Longrightarrow> outs i \<subseteq> R"
  shows "same_outside R w w'" and "extends_output w w'"
proof -
  let ?I = "\<lambda>w1. same_outside R w w1 \<and> extends_output w w1"
  from assms(2) have "run_list (batch_body call fmt) (indices_from 0 N) w = Inr (r, w')"
    by (simp add: batch_run_list)
  then have "?I w'"
  proof (rule run_list_invariant [where I = ?I])
    show "?I w" by simp
  next
    fix i w1 x w2
    assume i: "i \<in> set (indices_from 0 N)" and I: "?I w1"
      and step: "batch_body call fmt i w1 = Inr (x, w2)"
    from i have inb: "in_batch N i" by (simp add: in_batch_indices)
    note fr = batch_body_frame [where call = call, OF assms(1) inb step]
    from I fr(1) have "same_outside (R \<union> outs i) w w2"
      using same_outside_trans by blast
    with assms(3) [OF inb] have "same_outside R w w2"
      by (simp add: sup.absorb1)
    moreover from I fr(2) have "extends_output w w2"
      using extends_output_trans by blast
    ultimately show "?I w2" ..
  qed
  then show "same_outside R w w'" and "extends_output w w'" by simp_all
qed

lemma batch_run_returns:
  fixes w :: "'d world"
  assumes "call_safe call A N" and "call_frame call outs N" and "A \<subseteq> dom (heap w)"
  shows "\<exists>r w'. batch_run call fmt N w = Inr (r, w')"
proof -
  let ?I = "\<lambda>w1. dom (heap w1) = dom (heap w)"
  have "\<exists>r w'. run_list (batch_body call fmt) (indices_from 0 N) w = Inr (r, w') \<and> ?I w'"
  proof (rule run_list_total [where I = ?I])
    show "?I w" ..
  next
    fix i and w1 :: "'d world"
    assume "i \<in> set (indices_from 0 N)" and I: "?I w1"
    then have inb: "in_batch N i" by (simp add: in_batch_indices)
    from assms(1,3) inb I obtain r ws where "call i w1 = Inr (r, ws)"
      unfolding call_safe_def by metis
    then obtain x w2 where step: "batch_body call fmt i w1 = Inr (x, w2)"
      using batch_body_of_call by blast
    from batch_body_frame(1) [where call = call, OF assms(2) inb step] I have "?I w2"
      by (simp add: same_outside_def)
    with step show "\<exists>x w'. batch_body call fmt i w1 = Inr (x, w') \<and> ?I w'" by blast
  qed
  then show ?thesis
    by (auto simp: batch_run_list)
qed

section \<open>Independence of the inputs\<close>

lemma calls_solved_reads:
  assumes "calls_separate reads outs N" and "in_batch N i" and "D \<subseteq> {j. in_batch N j}"
    and "i \<notin> D" and "calls_solved call outs w D w1"
  shows "agree_on (reads i) w w1"
proof -
  have "reads i \<inter> outs j = {}" if "j \<in> D" for j
    using assms(1-4) that unfolding calls_separate_def by blast
  then have "reads i \<inter> (\<Union>j\<in>D. outs j) = {}"
    by blast
  with assms(5) show ?thesis
    unfolding calls_solved_def by (blast intro: agree_on_disjoint)
qed

lemma call_transfer:
  assumes "call_local call reads outs N" and "calls_separate reads outs N"
    and "in_batch N i" and "D \<subseteq> {j. in_batch N j}" and "i \<notin> D"
    and "calls_solved call outs w D w1" and "call i w1 = Inr (r, w2)"
  shows "\<exists>wi. call i w = Inr (r, wi) \<and> agree_on (outs i) wi w2"
proof -
  have "agree_on (reads i) w1 w"
    using calls_solved_reads [OF assms(2-6)] by (rule agree_on_sym)
  moreover from assms(6) have "dom (heap w1) = dom (heap w)"
    unfolding calls_solved_def by (blast dest: same_outside_dom)
  ultimately have "outcome_rel (outs i) (call i w1) (call i w)"
    using assms(1,3) unfolding call_local_def by blast
  then show ?thesis
    unfolding assms(7) by (auto dest: agree_on_sym)
qed

lemma calls_solved_kept:
  assumes "calls_separate reads outs N" and "in_batch N i" and "D \<subseteq> {j. in_batch N j}"
    and "i \<notin> D" and "calls_solved call outs w D w1" and "same_outside (outs i) w1 w2"
    and "j \<in> D"
  shows "\<exists>wj. call j w = Inr (0, wj) \<and> agree_on (outs j) wj w2"
proof -
  from assms(5,7) obtain wj where wj: "call j w = Inr (0, wj)" and agree: "agree_on (outs j) wj w1"
    unfolding calls_solved_def by blast
  from assms(1-4,7) have "outs j \<inter> outs i = {}"
    unfolding calls_separate_def by blast
  with assms(6) have "agree_on (outs j) w1 w2"
    by (rule agree_on_disjoint)
  with agree have "agree_on (outs j) wj w2"
    by (rule agree_on_trans)
  with wj show ?thesis by blast
qed

lemma calls_solved_step:
  assumes "call_frame call outs N" and "call_local call reads outs N"
    and "calls_separate reads outs N" and "in_batch N i" and "D \<subseteq> {j. in_batch N j}"
    and "i \<notin> D" and "calls_solved call outs w D w1"
    and "batch_body call fmt i w1 = Inr (Next, w2)"
  shows "calls_solved call outs w (insert i D) w2"
proof -
  from assms(8) have call: "call i w1 = Inr (0, w2)"
    by (simp only: batch_body_Next)
  note fr = call_frameD(1) [where call = call, OF assms(1,4) call]
  from assms(7) have "same_outside (\<Union>j\<in>D. outs j) w w1"
    by (simp add: calls_solved_def)
  from same_outside_trans [OF this fr] have "same_outside (\<Union>j\<in>insert i D. outs j) w w2"
    by (simp add: Un_commute)
  moreover have "\<exists>wj. call j w = Inr (0, wj) \<and> agree_on (outs j) wj w2" if "j \<in> insert i D" for j
  proof (cases "j = i")
    case True
    with call_transfer [where call = call, OF assms(2-7) call] show ?thesis by simp
  next
    case False
    with that have "j \<in> D" by simp
    with assms(3-7) fr show ?thesis by (rule calls_solved_kept)
  qed
  ultimately show ?thesis
    unfolding calls_solved_def by blast
qed

text \<open>A run without an exit over distinct rows, in any order, solves these rows.\<close>

lemma run_next_solved:
  assumes "call_frame call outs N" and "call_local call reads outs N"
    and "calls_separate reads outs N" and "distinct xs" and "set xs \<subseteq> {j. in_batch N j}"
    and "run_next (batch_body call fmt) xs w = Some wk"
  shows "calls_solved call outs w (set xs) wk"
proof -
  let ?J = "calls_solved call outs w"
  have "?J ({} \<union> set xs) wk"
  proof (rule run_next_visited [OF assms(6), where J = ?J and ?D0.0 = "{}"])
    show "?J {} w" by (simp add: calls_solved_def)
  next
    fix D i w1 w2
    assume "i \<in> set xs" and "i \<notin> D" and "D \<subseteq> {} \<union> set xs"
      and "?J D w1" and "batch_body call fmt i w1 = Inr (Next, w2)"
    with assms(5) show "?J (insert i D) w2"
      by (intro calls_solved_step [where call = call and fmt = fmt, OF assms(1-3)]) auto
  qed (simp_all add: assms(4))
  then show ?thesis by simp
qed

lemma batch_prefix_solved:
  assumes "call_frame call outs N" and "call_local call reads outs N"
    and "calls_separate reads outs N" and "set (indices_from 0 k) \<subseteq> {j. in_batch N j}"
    and "run_next (batch_body call fmt) (indices_from 0 k) w = Some wk"
  shows "calls_solved call outs w (set (indices_from 0 k)) wk"
  using assms(1-3) distinct_indices_from assms(4,5) by (rule run_next_solved)

lemma batch_run_independent:
  assumes "call_frame call outs N" and "call_local call reads outs N"
    and "calls_separate reads outs N" and "batch_run call fmt N w = Inr (0, w')"
    and "in_batch N i"
  shows "\<exists>wi. call i w = Inr (0, wi) \<and> agree_on (outs i) wi w'"
proof -
  from assms(4) have "run_next (batch_body call fmt) (indices_from 0 N) w = Some w'"
    by (simp only: batch_run_prefix)
  then have "calls_solved call outs w (set (indices_from 0 N)) w'"
    by (intro batch_prefix_solved [where call = call, OF assms(1-3)]) (simp_all add: in_batch_indices)
  with assms(5) show ?thesis
    unfolding calls_solved_def in_batch_indices by blast
qed

lemma batch_run_partial_valid:
  assumes "call_frame call outs N" and "call_local call reads outs N"
    and "calls_separate reads outs N" and "batch_run call fmt N w = Inr (r, w')" and "r \<noteq> 0"
  shows "\<exists>k. in_batch N k \<and> (\<exists>wk. call k w = Inr (r, wk)) \<and>
    (\<forall>i. in_batch k i \<longrightarrow> (\<exists>wi. call i w = Inr (0, wi) \<and> agree_on (outs i) wi w'))"
proof -
  let ?body = "batch_body call fmt"
  from assms(4,5) obtain k w1 where k: "in_batch N k"
    and run: "run_next ?body (indices_from 0 k) w = Some w1" and stop: "?body k w1 = Inr (Return r, w')"
    unfolding batch_run_list by (rule run_batch_stop)
  have sub: "set (indices_from 0 k) \<subseteq> {j. in_batch N j}"
    using k by (auto simp: in_batch_indices [symmetric] intro: in_batch_prefix)
  have notin: "k \<notin> set (indices_from 0 k)"
    by (simp add: set_indices_from)
  note solved = batch_prefix_solved [where call = call, OF assms(1-3) sub run]
  from stop obtain ws where call: "call k w1 = Inr (r, ws)"
    by (auto simp: batch_body_Return)
  note fr = batch_body_frame(1) [where call = call, OF assms(1) k stop]
  have "\<exists>wi. call i w = Inr (0, wi) \<and> agree_on (outs i) wi w'" if "in_batch k i" for i
    using assms(3) k sub notin solved fr that
    by (intro calls_solved_kept [where D = "set (indices_from 0 k)" and call = call])
      (simp_all add: in_batch_indices)
  moreover from call_transfer [where call = call, OF assms(2,3) k sub notin solved call]
  have "\<exists>wk. call k w = Inr (r, wk)" by blast
  ultimately show ?thesis using k by blast
qed

section \<open>Two batches side by side\<close>

lemma batch_body_rel:
  assumes "rel_sum (=) (rel_prod (=) (\<lambda>w1 w2. heap w1 = heap w2)) (call1 i v1) (call2 i v2)"
  shows "rel_sum (=) (rel_prod (=) (\<lambda>w1 w2. heap w1 = heap w2))
    (batch_body call1 fmt i v1) (batch_body call2 fmt i v2)"
  using assms by (cases rule: rel_sum.cases) (auto simp: batch_body_def)

lemma batch_run_rel:
  assumes "\<And>i v1 v2. in_batch N i \<Longrightarrow> heap v1 = heap v2 \<Longrightarrow>
    outcome_rel UNIV (call1 i v1) (call2 i v2)"
    and "heap w1 = heap w2"
  shows "outcome_rel UNIV (batch_run call1 fmt N w1) (batch_run call2 fmt N w2)"
  unfolding batch_run_list outcome_rel_UNIV
  by (rule run_list_rel [where R = "\<lambda>w1 w2. heap w1 = heap w2", OF assms(2)], rule batch_body_rel)
    (simp add: assms(1) in_batch_indices flip: outcome_rel_UNIV)

section \<open>Splitting a batch\<close>

text \<open>
  A batch of \<open>N\<close> inputs whose first \<open>k\<close> inputs are solved is finished by the batch
  of the \<open>N - k\<close> inputs from \<open>k\<close> on: same fault, same status, same world, but for
  the position in the message, which the second batch counts from \<open>k\<close>.
\<close>

lemma batch_body_shift_related:
  "return_related (\<lambda>i r w' w''. r \<noteq> 0 \<and> (\<exists>ws. w' = printf fmt [i] ws \<and> w'' = printf fmt [i + k] ws))
     (batch_body (\<lambda>i. call (i + k)) fmt) (\<lambda>i. batch_body call fmt (i + k)) i"
  unfolding return_related_def
  by (auto simp: batch_body_Next batch_body_Return batch_body_Inl)

lemma batch_run_cong:
  assumes "\<And>i v. in_batch N i \<Longrightarrow> call1 i v = call2 i v"
  shows "batch_run call1 fmt N w = batch_run call2 fmt N w"
  unfolding batch_run_list
  by (rule run_list_cong) (simp add: batch_body_def assms in_batch_indices)

lemma batch_run_rest:
  assumes "0 \<le> sint k" and "sint k \<le> sint N" and "batch_run call fmt k w = Inr (0, w1)"
  shows "batch_run call fmt N w =
    run_list (\<lambda>i. batch_body call fmt (i + k)) (indices_from 0 (N - k)) w1"
proof -
  from assms(3) have "run_next (batch_body call fmt) (indices_from 0 k) w = Some w1"
    by (simp only: batch_run_prefix)
  then show ?thesis
    unfolding batch_run_list indices_from_append [OF assms(1,2)]
    by (simp add: run_list_append_next indices_from_shift [OF assms(1,2)] run_list_map)
qed

lemma batch_run_split:
  assumes "0 \<le> sint k" and "sint k \<le> sint N" and "batch_run call fmt k w = Inr (0, w1)"
  shows "case batch_run (\<lambda>i. call (i + k)) fmt (N - k) w1 of
      Inl f \<Rightarrow> batch_run call fmt N w = Inl f
    | Inr (r, w2) \<Rightarrow> (\<exists>w3. batch_run call fmt N w = Inr (r, w3) \<and>
        (r = 0 \<and> w3 = w2 \<or>
         (\<exists>i. in_batch (N - k) i \<and> r \<noteq> 0 \<and>
            (\<exists>ws. w2 = printf fmt [i] ws \<and> w3 = printf fmt [i + k] ws))))"
proof -
  note full = batch_run_rest [OF assms]
  have chunk: "batch_run (\<lambda>i. call (i + k)) fmt (N - k) w1 =
    run_list (batch_body (\<lambda>i. call (i + k)) fmt) (indices_from 0 (N - k)) w1"
    by (simp only: batch_run_list)
  show ?thesis
    unfolding full chunk in_batch_indices
    using run_list_return_related [where xs = "indices_from 0 (N - k)" and w = w1,
        OF batch_body_shift_related [where fmt = fmt and k = k and call = call]]
    by (fastforce split: sum.splits)
qed

section \<open>The loop as a machine\<close>

lemma batch_run_machine:
  "loop_steps (batch_body call fmt) N (Running 0 w) c \<and> final c \<longleftrightarrow>
   c = config_of (batch_run call fmt N w)"
  unfolding batch_run_def by (rule loop_steps_final_iff)

lemma batch_run_reachable:
  assumes "loop_steps (batch_body call fmt) N (Running 0 w) (Running j w')"
  shows "0 \<le> sint j \<and> (sint j \<le> sint N \<or> j = 0) \<and> batch_run call fmt j w = Inr (0, w')"
  using loop_steps_running [OF assms refl refl] by (simp add: batch_run_prefix)

text \<open>
  Well-formed configurations are kept by every step of a batch whose calls are
  safe and write their outputs only, and a well-formed configuration is final or
  takes a step: the loop of such a batch never faults.
\<close>

lemma config_ok_step:
  fixes w0 :: "'d world"
  assumes "call_safe call A N" and "call_frame call outs N" and "A \<subseteq> dom (heap w0)"
    and "config_ok N w0 c" and "loop_step (batch_body call fmt) N c c'"
  shows "config_ok N w0 c'"
  using assms(5,4)
proof (cases rule: loop_step.cases)
  case (step_next i w w')
  with assms(4) have inb: "in_batch N i" by (simp add: in_batch_def)
  note fr = batch_body_frame [where call = call, OF assms(2) inb step_next(4)]
  from step_next(3) have "sint (i + 1) = sint i + 1" by (rule sint_succ)
  with step_next assms(4) fr show ?thesis
    by (auto simp: same_outside_def intro: extends_output_trans)
next
  case (step_return i w r w')
  with assms(4) have inb: "in_batch N i" by (simp add: in_batch_def)
  note fr = batch_body_frame [where call = call, OF assms(2) inb step_return(4)]
  with step_return assms(4) show ?thesis
    by (auto simp: same_outside_def intro: extends_output_trans)
next
  case (step_fault i w e)
  with assms(4) have "in_batch N i" and "A \<subseteq> dom (heap w)"
    using assms(3) by (simp_all add: in_batch_def)
  with assms(1) obtain r ws where "call i w = Inr (r, ws)"
    unfolding call_safe_def by blast
  with step_fault(4) show ?thesis
    by (simp add: batch_body_Inl)
next
  case (step_exit i w)
  with assms(4) show ?thesis by simp
qed

lemma config_ok_steps:
  fixes w0 :: "'d world"
  assumes "call_safe call A N" and "call_frame call outs N" and "A \<subseteq> dom (heap w0)"
    and "loop_steps (batch_body call fmt) N c c'" and "config_ok N w0 c"
  shows "config_ok N w0 c'"
  using assms(4,5)
  by (induction rule: loop_steps.induct) (blast intro: config_ok_step [OF assms(1-3)])+

lemma batch_run_sound:
  fixes w :: "'d world"
  assumes "call_safe call A N" and "call_frame call outs N" and "A \<subseteq> dom (heap w)"
    and "loop_steps (batch_body call fmt) N (Running 0 w) c"
  shows "config_ok N w c \<and> (final c \<or> (\<exists>c'. loop_step (batch_body call fmt) N c c'))"
  using config_ok_steps [OF assms] loop_step_total [of c "batch_body call fmt" N]
  by auto

lemma batch_run_terminates:
  "\<exists>k\<le>nat (sint N) + 1.
     (loop_step (batch_body call fmt) N ^^ k) (Running 0 w) (config_of (batch_run call fmt N w))"
  unfolding batch_run_def using loop_terminates [of N 0 "batch_body call fmt" w] by simp

section \<open>The abstract batch\<close>

lemma first_failure_None: "first_failure st xs = None \<longleftrightarrow> (\<forall>i\<in>set xs. st i = 0)"
  by (induction xs) auto

lemma first_failure_append:
  "first_failure st (xs @ ys) =
     (case first_failure st xs of None \<Rightarrow> first_failure st ys | Some f \<Rightarrow> Some f)"
  by (induction xs) auto

lemma first_failure_at:
  assumes "in_batch N k" and "st k \<noteq> 0" and "\<And>i. in_batch k i \<Longrightarrow> st i = 0"
  shows "first_failure st (indices_from 0 N) = Some (k, st k)"
proof -
  from assms(3) have "first_failure st (indices_from 0 k) = None"
    by (simp add: first_failure_None in_batch_indices)
  with assms(2) show ?thesis
    unfolding in_batch_split [OF assms(1)] by (simp add: first_failure_append)
qed

lemma first_failure_none:
  assumes "\<And>i. in_batch N i \<Longrightarrow> st i = 0"
  shows "first_failure st (indices_from 0 N) = None"
  using assms by (simp add: first_failure_None in_batch_indices)

lemma first_failure_cong:
  "(\<And>i. i \<in> set xs \<Longrightarrow> f i = g i) \<Longrightarrow> first_failure f xs = first_failure g xs"
  by (induction xs) simp_all

text \<open>
  The batch refines the list of the direct calls on the initial memory: it
  returns the status of the first call that fails, and the output cells of every
  input before that one (\<open>solved_rows\<close> gives their number) hold what the direct
  call for that input leaves there.
\<close>

lemma batch_run_refines:
  fixes w :: "'d world"
  assumes "call_safe call A N" and "A \<subseteq> dom (heap w)"
    and "call_frame call outs N" and "call_local call reads outs N"
    and "calls_separate reads outs N"
  defines "ff \<equiv> first_failure (direct_status call w) (indices_from 0 N)"
  shows "\<exists>w'. batch_run call fmt N w = Inr (status_of ff, w') \<and>
    (\<forall>i. in_batch (solved_rows ff N) i \<longrightarrow>
       in_batch N i \<and> (\<exists>wi. call i w = Inr (0, wi) \<and> agree_on (outs i) wi w'))"
proof -
  from batch_run_returns [OF assms(1,3,2)] obtain r w' where
    run: "batch_run call fmt N w = Inr (r, w')" by blast
  have "status_of ff = r \<and> (\<forall>i. in_batch (solved_rows ff N) i \<longrightarrow>
      in_batch N i \<and> (\<exists>wi. call i w = Inr (0, wi) \<and> agree_on (outs i) wi w'))"
  proof (cases "r = 0")
    case True
    with run have solved: "\<exists>wi. call i w = Inr (0, wi) \<and> agree_on (outs i) wi w'" if "in_batch N i" for i
      using batch_run_independent [where call = call, OF assms(3-5) _ that, of fmt w w'] by simp
    have "direct_status call w i = 0" if "in_batch N i" for i
      using solved [OF that] by (auto simp: direct_status_def)
    then have "ff = None"
      unfolding ff_def by (rule first_failure_none)
    with True solved show ?thesis
      by (simp add: status_of_def solved_rows_def)
  next
    case False
    from batch_run_partial_valid [where call = call, OF assms(3-5) run False]
    obtain k where k: "in_batch N k" and "\<exists>wk. call k w = Inr (r, wk)"
      and solved: "\<forall>i. in_batch k i \<longrightarrow> (\<exists>wi. call i w = Inr (0, wi) \<and> agree_on (outs i) wi w')"
      by blast
    then have "direct_status call w k = r" and "\<And>i. in_batch k i \<Longrightarrow> direct_status call w i = 0"
      by (auto simp: direct_status_def)
    with False first_failure_at [OF k, of "direct_status call w"] have "ff = Some (k, r)"
      by (simp add: ff_def)
    with solved k show ?thesis
      by (auto simp: status_of_def solved_rows_def intro: in_batch_prefix)
  qed
  with run show ?thesis by blast
qed

lemma batch_run_first_failure:
  fixes w :: "'d world"
  assumes "call_safe call A N" and "A \<subseteq> dom (heap w)"
    and "call_frame call outs N" and "call_local call reads outs N"
    and "calls_separate reads outs N"
  shows "\<exists>w'. batch_run call fmt N w =
    Inr (status_of (first_failure (direct_status call w) (indices_from 0 N)), w')"
  using batch_run_refines [OF assms] by blast

end
