(* ===== verification/Probe_Solver.thy ===== *)
theory Probe_Solver
  imports Solver_Interface
begin

text \<open>
  Two functions of the solvers' signatures that are small enough to evaluate.
  They stand in for \<^verbatim>\<open>solve_pt\<close> and \<^verbatim>\<open>solve_rhou\<close> where a theorem of the
  development is applied to a concrete batch: they copy the \<open>nsp\<close> cells at \<open>X0\<close>
  to \<open>X1\<close> (the second also stores \<open>u\<close> at \<open>T\<close>), return status 3 when their second
  argument is not positive and 0 otherwise, and print a line when \<^verbatim>\<open>verbose\<close> is
  set. They are defined for cells of any ordered type with a zero, so that they
  run on integer and on real cells. They satisfy every contract of
  \<open>Solver_Interface\<close>, which shows that the contracts can be met together; they
  say nothing about the real solvers.
\<close>

definition probe_solve_pt :: "('d :: {zero, ord}) solve_pt_fn" where
  "probe_solve_pt p T X0 nsp nel lewis M a X1 verbose w =
     bind_res (load_array w X0 (nat (sint nsp))) (\<lambda>xs.
     bind_res (store_array X1 xs w) (\<lambda>w'.
       Inr (if T \<le> 0 then 3 else 0, if verbose = 0 then w' else printf ''solve_pt'' [] w')))"

definition probe_solve_rhou :: "('d :: {zero, ord}) solve_rhou_fn" where
  "probe_solve_rhou rho u X0 nsp nel lewis M a X1 T verbose w =
     bind_res (load_array w X0 (nat (sint nsp))) (\<lambda>xs.
     bind_res (store_array X1 xs w) (\<lambda>w1.
     bind_res (store T u w1) (\<lambda>w'.
       Inr (if u \<le> 0 then 3 else 0, if verbose = 0 then w' else printf ''solve_rhou'' [] w'))))"

text \<open>
  The world of the concrete batches: 64 allocated cells, cell \<open>x\<close> holding \<open>3 - x\<close>,
  and an empty output. Read as temperatures, the cells 0 and 1 are accepted by the
  probe, the cell 2 is accepted and the cells from 3 on are rejected.
\<close>

definition probe_world :: "int world" where
  "probe_world = \<lparr>heap = (\<lambda>x. if 0 \<le> x \<and> x < 64 then Some (3 - x) else None), stdout = []\<rparr>"

lemmas probe_eval = index_def ptr_add_def load_def store_def printf_def fmt_d_def digit_char_def
  probe_solve_pt_def probe_solve_rhou_def probe_world_def Let_def

lemma probe_solve_ptE:
  assumes "probe_solve_pt p T X0 nsp nel lewis M a X1 verbose w = Inr (r, w')"
  obtains xs w1 where "load_array w X0 (nat (sint nsp)) = Inr xs"
    and "store_array X1 xs w = Inr w1" and "r = (if T \<le> 0 then 3 else 0)"
    and "w' = (if verbose = 0 then w1 else printf ''solve_pt'' [] w1)"
  using assms unfolding probe_solve_pt_def bind_res_eq_Inr by (elim exE conjE) simp

lemma probe_pt_frame: "pt_frame probe_solve_pt"
  unfolding pt_frame_def
proof (intro allI impI)
  fix p T :: 'a and X0 nsp nel lewis M a X1 verbose and w :: "'a world" and r w'
  assume "probe_solve_pt p T X0 nsp nel lewis M a X1 verbose w = Inr (r, w')"
  then obtain xs w1 where xs: "load_array w X0 (nat (sint nsp)) = Inr xs"
    and w1: "store_array X1 xs w = Inr w1"
    and w': "w' = (if verbose = 0 then w1 else printf ''solve_pt'' [] w1)"
    by (rule probe_solve_ptE)
  have "same_outside (region X1 (sint nsp)) w w1"
    using store_array_same_outside [OF w1] load_array_length [OF xs] by simp
  moreover have "extends_output w w1"
    using store_array_stdout [OF w1] by (simp add: extends_output_def)
  ultimately show "same_outside (pt_outputs X1 nsp) w w' \<and> extends_output w w'"
    by (simp add: w' pt_outputs_def extends_output_printf)
qed

lemma probe_pt_rel:
  assumes "agree_on (S \<union> region X0 (sint nsp)) w1 w2" and "dom (heap w1) = dom (heap w2)"
  shows "outcome_rel (S \<union> region X1 (sint nsp))
    (probe_solve_pt p T X0 nsp nel lewis M a X1 v1 w1)
    (probe_solve_pt p T X0 nsp nel lewis M a X1 v2 w2)"
proof -
  have load: "load_array w1 X0 (nat (sint nsp)) = load_array w2 X0 (nat (sint nsp))"
    using assms(1) by (intro load_array_cong_agree) simp
  show ?thesis
  proof (cases "load_array w1 X0 (nat (sint nsp))")
    case (Inl f)
    moreover from Inl load have "load_array w2 X0 (nat (sint nsp)) = Inl f" by simp
    ultimately show ?thesis by (simp add: probe_solve_pt_def)
  next
    case (Inr xs)
    moreover from Inr load have "load_array w2 X0 (nat (sint nsp)) = Inr xs" by simp
    moreover from assms have "agree_on S w1 w2" by simp
    note store_array_agree [OF this assms(2), of X1 xs] load_array_length [OF Inr]
    ultimately show ?thesis
      by (auto simp: probe_solve_pt_def split: sum.splits)
  qed
qed

lemma probe_pt_local: "pt_local probe_solve_pt"
  unfolding pt_local_def pt_outputs_def
proof (intro allI impI, elim conjE)
  fix p T :: 'a and X0 nsp nel lewis M a X1 verbose and w1 w2 :: "'a world"
  assume "agree_on (pt_inputs X0 nsp nel lewis M a) w1 w2" and dom: "dom (heap w1) = dom (heap w2)"
  then have "agree_on ({} \<union> region X0 (sint nsp)) w1 w2"
    by (simp add: pt_inputs_def)
  from probe_pt_rel [OF this dom]
  show "outcome_rel (region X1 (sint nsp))
      (probe_solve_pt p T X0 nsp nel lewis M a X1 verbose w1)
      (probe_solve_pt p T X0 nsp nel lewis M a X1 verbose w2)"
    by simp
qed

lemma probe_pt_quiet: "pt_quiet probe_solve_pt"
  unfolding pt_quiet_def
proof (intro allI impI)
  fix p T :: 'a and X0 lewis M a X1 :: addr and nsp nel v1 v2 :: c_int and w1 w2 :: "'a world"
  assume "heap w1 = heap w2"
  then have "agree_on (UNIV \<union> region X0 (sint nsp)) w1 w2" and "dom (heap w1) = dom (heap w2)"
    by (simp_all add: agree_on_def)
  from probe_pt_rel [OF this]
  show "outcome_rel UNIV (probe_solve_pt p T X0 nsp nel lewis M a X1 v1 w1)
      (probe_solve_pt p T X0 nsp nel lewis M a X1 v2 w2)"
    by simp
qed

lemma probe_pt_safe: "pt_safe probe_solve_pt"
  unfolding pt_safe_def
proof (intro allI impI)
  fix p T :: 'a and X0 nsp nel lewis M a X1 verbose and w :: "'a world"
  assume "pt_inputs X0 nsp nel lewis M a \<union> pt_outputs X1 nsp \<subseteq> dom (heap w)"
  then have "allocated w X0 (int (nat (sint nsp)))" and X1: "allocated w X1 (int (nat (sint nsp)))"
    by (auto simp: pt_inputs_def pt_outputs_def allocated_iff)
  then obtain xs where xs: "load_array w X0 (nat (sint nsp)) = Inr xs"
    using load_array_allocated by blast
  with X1 obtain w1 where "store_array X1 xs w = Inr w1"
    using store_array_allocated [of w X1 xs] load_array_length [OF xs] by auto
  with xs show "\<exists>r w'. probe_solve_pt p T X0 nsp nel lewis M a X1 verbose w = Inr (r, w')"
    by (simp add: probe_solve_pt_def)
qed

lemma probe_solve_rhouE:
  assumes "probe_solve_rhou rho u X0 nsp nel lewis M a X1 T verbose w = Inr (r, w')"
  obtains xs w1 w2 where "load_array w X0 (nat (sint nsp)) = Inr xs"
    and "store_array X1 xs w = Inr w1" and "store T u w1 = Inr w2"
    and "r = (if u \<le> 0 then 3 else 0)"
    and "w' = (if verbose = 0 then w2 else printf ''solve_rhou'' [] w2)"
  using assms unfolding probe_solve_rhou_def bind_res_eq_Inr by (elim exE conjE) simp

lemma probe_rhou_frame: "rhou_frame probe_solve_rhou"
  unfolding rhou_frame_def
proof (intro allI impI)
  fix rho u :: 'a and X0 nsp nel lewis M a X1 T verbose and w :: "'a world" and r w'
  assume "probe_solve_rhou rho u X0 nsp nel lewis M a X1 T verbose w = Inr (r, w')"
  then obtain xs w1 w2 where xs: "load_array w X0 (nat (sint nsp)) = Inr xs"
    and w1: "store_array X1 xs w = Inr w1" and w2: "store T u w1 = Inr w2"
    and w': "w' = (if verbose = 0 then w2 else printf ''solve_rhou'' [] w2)"
    by (rule probe_solve_rhouE)
  have "same_outside (region X1 (sint nsp)) w w1"
    using store_array_same_outside [OF w1] load_array_length [OF xs] by simp
  from same_outside_trans [OF this store_same_outside [OF w2]]
  have "same_outside (rhou_outputs X1 T nsp) w w2"
    by (simp add: rhou_outputs_def)
  moreover have "extends_output w w2"
    using store_array_stdout [OF w1] store_stdout [OF w2] by (simp add: extends_output_def)
  ultimately show "same_outside (rhou_outputs X1 T nsp) w w' \<and> extends_output w w'"
    by (simp add: w' extends_output_printf)
qed

lemma probe_rhou_rel:
  assumes "agree_on (S \<union> region X0 (sint nsp)) w1 w2" and "dom (heap w1) = dom (heap w2)"
  shows "outcome_rel (S \<union> rhou_outputs X1 T nsp)
    (probe_solve_rhou rho u X0 nsp nel lewis M a X1 T v1 w1)
    (probe_solve_rhou rho u X0 nsp nel lewis M a X1 T v2 w2)"
proof -
  have load: "load_array w1 X0 (nat (sint nsp)) = load_array w2 X0 (nat (sint nsp))"
    using assms(1) by (intro load_array_cong_agree) simp
  from assms have S: "agree_on S w1 w2" by simp
  show ?thesis
  proof (cases "load_array w2 X0 (nat (sint nsp))")
    case (Inl f)
    with load show ?thesis by (simp add: probe_solve_rhou_def)
  next
    case xs: (Inr xs)
    note sa = store_array_agree [OF S assms(2), of X1 xs] load_array_length [OF xs]
    show ?thesis
    proof (cases "store_array X1 xs w1")
      case (Inl f)
      with sa load xs show ?thesis by (simp add: probe_solve_rhou_def)
    next
      case (Inr w1')
      with sa obtain w2' where w2': "store_array X1 xs w2 = Inr w2'"
        and "agree_on (S \<union> region X1 (sint nsp)) w1' w2'" and "dom (heap w1') = dom (heap w2')"
        by auto
      from store_agree [OF this(2,3), of T u] Inr w2' load xs show ?thesis
        by (auto simp: probe_solve_rhou_def rhou_outputs_def Un_assoc split: sum.splits)
    qed
  qed
qed

lemma probe_rhou_local: "rhou_local probe_solve_rhou"
  unfolding rhou_local_def
proof (intro allI impI, elim conjE)
  fix rho u :: 'a and X0 nsp nel lewis M a X1 T verbose and w1 w2 :: "'a world"
  assume "agree_on (rhou_inputs X0 nsp nel lewis M a \<union> region T 1) w1 w2"
    and dom: "dom (heap w1) = dom (heap w2)"
  then have "agree_on ({} \<union> region X0 (sint nsp)) w1 w2"
    by (simp add: rhou_inputs_def)
  from probe_rhou_rel [OF this dom]
  show "outcome_rel (rhou_outputs X1 T nsp)
      (probe_solve_rhou rho u X0 nsp nel lewis M a X1 T verbose w1)
      (probe_solve_rhou rho u X0 nsp nel lewis M a X1 T verbose w2)"
    by simp
qed

lemma probe_rhou_quiet: "rhou_quiet probe_solve_rhou"
  unfolding rhou_quiet_def
proof (intro allI impI)
  fix rho u :: 'a and X0 lewis M a X1 T :: addr and nsp nel v1 v2 :: c_int and w1 w2 :: "'a world"
  assume "heap w1 = heap w2"
  then have "agree_on (UNIV \<union> region X0 (sint nsp)) w1 w2" and "dom (heap w1) = dom (heap w2)"
    by simp_all
  from probe_rhou_rel [OF this]
  show "outcome_rel UNIV (probe_solve_rhou rho u X0 nsp nel lewis M a X1 T v1 w1)
      (probe_solve_rhou rho u X0 nsp nel lewis M a X1 T v2 w2)"
    by simp
qed

lemma probe_rhou_safe: "rhou_safe probe_solve_rhou"
  unfolding rhou_safe_def
proof (intro allI impI)
  fix rho u :: 'a and X0 nsp nel lewis M a X1 T verbose and w :: "'a world"
  assume alloc: "rhou_inputs X0 nsp nel lewis M a \<union> rhou_outputs X1 T nsp \<subseteq> dom (heap w)"
  then have "allocated w X0 (int (nat (sint nsp)))" and X1: "allocated w X1 (int (nat (sint nsp)))"
    by (auto simp: rhou_inputs_def rhou_outputs_def allocated_iff)
  then obtain xs where xs: "load_array w X0 (nat (sint nsp)) = Inr xs"
    using load_array_allocated by blast
  with X1 obtain w1 where w1: "store_array X1 xs w = Inr w1"
    using store_array_allocated [of w X1 xs] load_array_length [OF xs] by auto
  from alloc same_outside_dom [OF store_array_same_outside [OF w1]] have "T \<in> dom (heap w1)"
    by (auto simp: rhou_outputs_def)
  then obtain w2 where "store T u w1 = Inr w2"
    by (auto simp: store_eq_Inr)
  with xs w1 show "\<exists>r w'. probe_solve_rhou rho u X0 nsp nel lewis M a X1 T verbose w = Inr (r, w')"
    by (simp add: probe_solve_rhou_def)
qed

end
