(* ===== verification/Batch_Pt.thy ===== *)
theory Batch_Pt
  imports Batch_Run Probe_Solver
begin

text \<open>
  \<^verbatim>\<open>batch_pt\<close> of \<^verbatim>\<open>src/ceq.c\<close>: the equilibrium composition at \<open>N\<close> pairs of
  pressure and temperature. \<open>batch_pt_body\<close> is one iteration (read \<^verbatim>\<open>T[i]\<close> and
  \<^verbatim>\<open>p[i]\<close>, form the two slice pointers, call \<^verbatim>\<open>solve_pt\<close>, and on a non-zero status
  print the position and return the status); \<open>batch_pt\<close> runs it for
  \<open>i = 0, \<dots>, N - 1\<close>. The solver is the first parameter. The theorems of this
  theory are about the control flow: which calls are made, in which worlds, and
  what is returned and printed. \<open>Batch_Pt_Memory\<close> has the theorems about memory.
\<close>

section \<open>Definitions\<close>

definition batch_pt_body ::
  "'d solve_pt_fn \<Rightarrow> addr \<Rightarrow> addr \<Rightarrow> addr \<Rightarrow> c_int \<Rightarrow> c_int \<Rightarrow> addr \<Rightarrow> addr \<Rightarrow> addr \<Rightarrow> addr \<Rightarrow>
   c_int \<Rightarrow> (fault, 'd world) loop_body" where
  "batch_pt_body solve_pt p T X0 nsp nel lewis M a X1 verbose i w =
     bind_res (index w T i) (\<lambda>Ti.
     bind_res (index w p i) (\<lambda>pi.
       let X0i = ptr_add X0 (i * nsp);
           X1i = ptr_add X1 (i * nsp)
       in bind_res (solve_pt pi Ti X0i nsp nel lewis M a X1i verbose w) (\<lambda>(result, w').
            if result \<noteq> 0
            then Inr (Return result, printf ''Error in batch_pt @ position: %d'' [i] w')
            else Inr (Next, w'))))"

definition batch_pt ::
  "'d solve_pt_fn \<Rightarrow> c_int \<Rightarrow> addr \<Rightarrow> addr \<Rightarrow> addr \<Rightarrow> c_int \<Rightarrow> c_int \<Rightarrow> addr \<Rightarrow> addr \<Rightarrow> addr \<Rightarrow>
   addr \<Rightarrow> c_int \<Rightarrow> 'd world \<Rightarrow> fault + (c_int \<times> 'd world)" where
  "batch_pt solve_pt N p T X0 nsp nel lewis M a X1 verbose w =
     for_loop (batch_pt_body solve_pt p T X0 nsp nel lewis M a X1 verbose) 0 N w"

text \<open>
  The call that iteration \<open>i\<close> makes when it runs in world \<open>w\<close>: the outcome of
  \<^verbatim>\<open>solve_pt\<close> on input \<open>i\<close>, or the fault of reading \<^verbatim>\<open>T[i]\<close> or \<^verbatim>\<open>p[i]\<close>.
\<close>

definition pt_call_at ::
  "'d solve_pt_fn \<Rightarrow> addr \<Rightarrow> addr \<Rightarrow> addr \<Rightarrow> c_int \<Rightarrow> c_int \<Rightarrow> addr \<Rightarrow> addr \<Rightarrow> addr \<Rightarrow> addr \<Rightarrow>
   c_int \<Rightarrow> c_int \<Rightarrow> 'd world \<Rightarrow> fault + (c_int \<times> 'd world)" where
  "pt_call_at solve_pt p T X0 nsp nel lewis M a X1 verbose i w =
     bind_res (index w T i) (\<lambda>Ti.
     bind_res (index w p i) (\<lambda>pi.
       solve_pt pi Ti (ptr_add X0 (i * nsp)) nsp nel lewis M a (ptr_add X1 (i * nsp)) verbose w))"

definition batch_pt_inputs ::
  "c_int \<Rightarrow> addr \<Rightarrow> addr \<Rightarrow> addr \<Rightarrow> c_int \<Rightarrow> c_int \<Rightarrow> addr \<Rightarrow> addr \<Rightarrow> addr \<Rightarrow> addr set" where
  "batch_pt_inputs N p T X0 nsp nel lewis M a =
     region p (sint N) \<union> region T (sint N) \<union> region X0 (sint N * sint nsp) \<union>
     region lewis (sint nsp * 3 * 9) \<union> region M (sint nsp) \<union> region a (sint nel * sint nsp)"

definition batch_pt_outputs :: "c_int \<Rightarrow> addr \<Rightarrow> c_int \<Rightarrow> addr set" where
  "batch_pt_outputs N X1 nsp = region X1 (sint N * sint nsp)"

definition pt_reads_at ::
  "addr \<Rightarrow> addr \<Rightarrow> addr \<Rightarrow> c_int \<Rightarrow> c_int \<Rightarrow> addr \<Rightarrow> addr \<Rightarrow> addr \<Rightarrow> c_int \<Rightarrow> addr set" where
  "pt_reads_at p T X0 nsp nel lewis M a i =
     {ptr_add T i, ptr_add p i} \<union> pt_inputs (ptr_add X0 (i * nsp)) nsp nel lewis M a"

definition batch_pt_separate ::
  "c_int \<Rightarrow> addr \<Rightarrow> addr \<Rightarrow> addr \<Rightarrow> c_int \<Rightarrow> c_int \<Rightarrow> addr \<Rightarrow> addr \<Rightarrow> addr \<Rightarrow> addr \<Rightarrow> bool" where
  "batch_pt_separate N p T X0 nsp nel lewis M a X1 \<longleftrightarrow>
     disjoint_regions X1 (sint N * sint nsp) p (sint N) \<and>
     disjoint_regions X1 (sint N * sint nsp) T (sint N) \<and>
     disjoint_regions X1 (sint N * sint nsp) lewis (sint nsp * 3 * 9) \<and>
     disjoint_regions X1 (sint N * sint nsp) M (sint nsp) \<and>
     disjoint_regions X1 (sint N * sint nsp) a (sint nel * sint nsp) \<and>
     (X0 = X1 \<or> disjoint_regions X1 (sint N * sint nsp) X0 (sint N * sint nsp))"

abbreviation batch_pt_message :: string where
  "batch_pt_message \<equiv> ''Error in batch_pt @ position: %d''"

lemmas batch_pt_unfold [ceq_unfold] = batch_pt_def batch_pt_body_def pt_call_at_def

section \<open>The batch as an instance of the generic batch\<close>

lemma batch_pt_body_eq:
  "batch_pt_body solve p T X0 nsp nel lewis M a X1 verbose =
   batch_body (pt_call_at solve p T X0 nsp nel lewis M a X1 verbose) batch_pt_message"
  by (intro ext)
    (simp add: batch_pt_body_def batch_body_def pt_call_at_def bind_res_assoc Let_def)

lemma batch_pt_batch_run:
  "batch_pt solve N p T X0 nsp nel lewis M a X1 verbose w =
   batch_run (pt_call_at solve p T X0 nsp nel lewis M a X1 verbose) batch_pt_message N w"
  by (simp add: batch_pt_def batch_run_def batch_pt_body_eq)

lemma pt_call_at_Inr:
  "pt_call_at solve p T X0 nsp nel lewis M a X1 verbose i w = Inr (r, w') \<longleftrightarrow>
   (\<exists>Ti pi. index w T i = Inr Ti \<and> index w p i = Inr pi \<and>
      solve pi Ti (ptr_add X0 (i * nsp)) nsp nel lewis M a (ptr_add X1 (i * nsp)) verbose w = Inr (r, w'))"
  by (auto simp: pt_call_at_def bind_res_eq_Inr)

lemma format_batch_pt_message:
  "format batch_pt_message [k] = ''Error in batch_pt @ position: '' @ fmt_d k"
  by simp

section \<open>Control flow\<close>

text \<open>
  C1. Fail-fast: when the first \<open>k\<close> inputs of a batch are solved with status 0 and
  the call for input \<open>k\<close> returns a status \<open>r\<close> other than 0, \<^verbatim>\<open>batch_pt\<close> returns \<open>r\<close>
  and its final world is the world that call left, with the text
  \<^verbatim>\<open>Error in batch_pt @ position: k\<close> appended to the output: no later input is
  solved and nothing else is written.
\<close>

theorem batch_pt_fail_fast:
  assumes "in_batch N k"
    and "batch_pt solve k p T X0 nsp nel lewis M a X1 verbose w = Inr (0, wk)"
    and "pt_call_at solve p T X0 nsp nel lewis M a X1 verbose k wk = Inr (r, w')"
    and "r \<noteq> 0"
  shows "batch_pt solve N p T X0 nsp nel lewis M a X1 verbose w =
    Inr (r, printf ''Error in batch_pt @ position: %d'' [k] w')"
  using assms unfolding batch_pt_batch_run
  by (rule batch_run_fail_fast)

theorem batch_pt_fail_fast_witness:
  "\<exists>w'. batch_pt probe_solve_pt 2 0 2 10 2 1 30 40 50 20 0 probe_world = Inr (3, w') \<and>
     stdout w' = ''Error in batch_pt @ position: 1'' \<and> heap w' 22 = Some (- 9)"
proof -
  have "\<exists>wk. batch_pt probe_solve_pt 1 0 2 10 2 1 30 40 50 20 0 probe_world = Inr (0, wk) \<and>
      (\<exists>w'. pt_call_at probe_solve_pt 0 2 10 2 1 30 40 50 20 0 1 wk = Inr (3, w') \<and>
         stdout w' = [] \<and> heap w' 22 = Some (- 9))"
    by (simp add: batch_pt_unfold for_loop.simps probe_eval)
  then obtain wk w' where "batch_pt probe_solve_pt 1 0 2 10 2 1 30 40 50 20 0 probe_world = Inr (0, wk)"
    and "pt_call_at probe_solve_pt 0 2 10 2 1 30 40 50 20 0 1 wk = Inr (3, w')"
    and w': "stdout w' = []" "heap w' 22 = Some (- 9)"
    by blast
  from batch_pt_fail_fast [of 2 1, OF _ this(1,2)] w' show ?thesis
    by (simp add: in_batch_def fmt_d_def digit_char_def)
qed

text \<open>
  C2. Conversely, a status other than 0 has exactly that origin: if \<^verbatim>\<open>batch_pt\<close>
  returns \<open>r \<noteq> 0\<close>, there is a position \<open>k\<close> of the batch such that the inputs before
  \<open>k\<close> were solved with status 0, the call for input \<open>k\<close> returned \<open>r\<close>, and the final
  world is the one that call left plus the message naming \<open>k\<close>.
\<close>

theorem batch_pt_failure_position:
  assumes "batch_pt solve N p T X0 nsp nel lewis M a X1 verbose w = Inr (r, w')" and "r \<noteq> 0"
  shows "\<exists>k wk ws. in_batch N k \<and>
    batch_pt solve k p T X0 nsp nel lewis M a X1 verbose w = Inr (0, wk) \<and>
    pt_call_at solve p T X0 nsp nel lewis M a X1 verbose k wk = Inr (r, ws) \<and>
    w' = printf ''Error in batch_pt @ position: %d'' [k] ws"
  using assms unfolding batch_pt_batch_run
  by (rule batch_run_failure_position) (intro exI conjI)

theorem batch_pt_failure_position_witness:
  "\<exists>k wk ws. in_batch 2 k \<and>
    batch_pt probe_solve_pt k 0 2 10 2 1 30 40 50 20 0 probe_world = Inr (0, wk) \<and>
    pt_call_at probe_solve_pt 0 2 10 2 1 30 40 50 20 0 k wk = Inr (3, ws)"
proof -
  have "\<exists>w'. batch_pt probe_solve_pt 2 0 2 10 2 1 30 40 50 20 0 probe_world = Inr (3, w')"
    by (simp add: batch_pt_unfold for_loop.simps probe_eval)
  then obtain w' where "batch_pt probe_solve_pt 2 0 2 10 2 1 30 40 50 20 0 probe_world = Inr (3, w')" ..
  from batch_pt_failure_position [OF this] show ?thesis by auto
qed

text \<open>
  C3. Status 0 means that every input was solved: if \<^verbatim>\<open>batch_pt\<close> returns 0, then
  for every position \<open>k\<close> of the batch the inputs before \<open>k\<close> were solved with
  status 0 and the call for input \<open>k\<close>, made in the world they left, returned 0.
\<close>

theorem batch_pt_all_solved:
  assumes "batch_pt solve N p T X0 nsp nel lewis M a X1 verbose w = Inr (0, w')"
    and "in_batch N k"
  shows "\<exists>wk wk'. batch_pt solve k p T X0 nsp nel lewis M a X1 verbose w = Inr (0, wk) \<and>
    pt_call_at solve p T X0 nsp nel lewis M a X1 verbose k wk = Inr (0, wk')"
  using assms unfolding batch_pt_batch_run
  by (rule batch_run_all_solved) (intro exI conjI)

theorem batch_pt_all_solved_witness:
  "\<exists>wk wk'. batch_pt probe_solve_pt 1 2 0 10 2 1 30 40 50 20 0 probe_world = Inr (0, wk) \<and>
    pt_call_at probe_solve_pt 2 0 10 2 1 30 40 50 20 0 1 wk = Inr (0, wk')"
proof -
  have "\<exists>w'. batch_pt probe_solve_pt 2 2 0 10 2 1 30 40 50 20 0 probe_world = Inr (0, w')"
    by (simp add: batch_pt_unfold for_loop.simps probe_eval)
  then obtain w' where "batch_pt probe_solve_pt 2 2 0 10 2 1 30 40 50 20 0 probe_world = Inr (0, w')" ..
  from batch_pt_all_solved [OF this, of 1] show ?thesis
    by (simp add: in_batch_def)
qed

text \<open>
  C9. A fault is passed on unchanged: if the inputs before position \<open>k\<close> are solved
  with status 0 and iteration \<open>k\<close> faults (reading \<^verbatim>\<open>T[k]\<close> or \<^verbatim>\<open>p[k]\<close> outside the
  allocated cells, or inside the solver), \<^verbatim>\<open>batch_pt\<close> faults with the same fault.
\<close>

theorem batch_pt_fault:
  assumes "in_batch N k"
    and "batch_pt solve k p T X0 nsp nel lewis M a X1 verbose w = Inr (0, wk)"
    and "pt_call_at solve p T X0 nsp nel lewis M a X1 verbose k wk = Inl f"
  shows "batch_pt solve N p T X0 nsp nel lewis M a X1 verbose w = Inl f"
  using assms unfolding batch_pt_batch_run by (rule batch_run_fault)

theorem batch_pt_fault_witness:
  "batch_pt probe_solve_pt 2 63 0 10 2 1 30 40 50 20 0 probe_world = Inl (Bad_Read 64)"
proof -
  have "\<exists>wk. batch_pt probe_solve_pt 1 63 0 10 2 1 30 40 50 20 0 probe_world = Inr (0, wk) \<and>
      pt_call_at probe_solve_pt 63 0 10 2 1 30 40 50 20 0 1 wk = Inl (Bad_Read 64)"
    by (simp add: batch_pt_unfold for_loop.simps probe_eval)
  then obtain wk where "batch_pt probe_solve_pt 1 63 0 10 2 1 30 40 50 20 0 probe_world = Inr (0, wk)"
    and "pt_call_at probe_solve_pt 63 0 10 2 1 30 40 50 20 0 1 wk = Inl (Bad_Read 64)"
    by blast
  from batch_pt_fault [of 2 1, OF _ this] show ?thesis
    by (simp add: in_batch_def)
qed

text \<open>
  C39. A batch without inputs: when \<open>N\<close> is zero or negative \<^verbatim>\<open>batch_pt\<close> calls no
  solver, reads and writes nothing, and returns 0.
\<close>

theorem batch_pt_empty:
  assumes "sint N \<le> 0"
  shows "batch_pt solve N p T X0 nsp nel lewis M a X1 verbose w = Inr (0, w)"
  using assms unfolding batch_pt_batch_run by (rule batch_run_empty)

theorem batch_pt_empty_witness:
  "batch_pt probe_solve_pt (- 5) 0 2 10 2 1 30 40 50 20 0 probe_world = Inr (0, probe_world)"
  using batch_pt_empty [of "- 5" probe_solve_pt 0 2 10 2 1 30 40 50 20 0 probe_world] by simp

section \<open>The loop counter and the slice pointers\<close>

text \<open>
  The loop of \<^verbatim>\<open>batch_pt\<close> computes what the run over the list of positions
  computes, and that list is \<open>0, 1, \<dots>, N - 1\<close>: it has \<open>N\<close> entries (none when \<open>N\<close> is
  negative) and its entry \<open>k\<close> is the 32-bit integer of value \<open>k\<close>, so the counter
  \<^verbatim>\<open>i\<close> never wraps around.
\<close>

theorem batch_pt_visits:
  "batch_pt solve N p T X0 nsp nel lewis M a X1 verbose w =
     run_list (batch_pt_body solve p T X0 nsp nel lewis M a X1 verbose) (indices_from 0 N) w \<and>
   length (indices_from 0 N) = nat (sint N) \<and>
   (\<forall>k < nat (sint N). sint (indices_from 0 N ! k) = int k)"
  by (simp add: batch_pt_def for_loop_run_list length_indices_from sint_nth_indices_from)

theorem batch_pt_visits_witness:
  "length (indices_from 0 (3 :: c_int)) = 3 \<and> sint (indices_from 0 (3 :: c_int) ! 0) = 0 \<and>
   sint (indices_from 0 (3 :: c_int) ! 1) = 1 \<and> sint (indices_from 0 (3 :: c_int) ! 2) = 2"
proof -
  note visits = batch_pt_visits [of probe_solve_pt 3 0 0 10 2 1 30 40 50 20 0 probe_world]
  from visits have "sint (indices_from 0 (3 :: c_int) ! k) = int k" if "k < 3" for k
    using that by simp
  from this [of 0] this [of 1] this [of 2] visits show ?thesis
    by simp
qed

text \<open>
  C35. The slice pointers: when the offsets of the batch fit in \<^verbatim>\<open>int\<close>, the call
  for input \<open>i\<close> is \<^verbatim>\<open>solve_pt\<close> on \<^verbatim>\<open>p[i]\<close> and \<^verbatim>\<open>T[i]\<close> with the pointers
  \<open>X0 + i * nsp\<close> and \<open>X1 + i * nsp\<close> computed without wrap-around, and the \<open>nsp\<close>
  cells at each pointer lie inside the \<open>N * nsp\<close> cells of its array.
\<close>

theorem batch_pt_slice_pointers:
  assumes "batch_fits N nsp" and "in_batch N i"
  shows "pt_call_at solve p T X0 nsp nel lewis M a X1 verbose i w =
      bind_res (index w T i) (\<lambda>Ti. bind_res (index w p i) (\<lambda>pi.
        solve pi Ti (X0 + sint i * sint nsp) nsp nel lewis M a (X1 + sint i * sint nsp) verbose w)) \<and>
    region (X0 + sint i * sint nsp) (sint nsp) \<subseteq> region X0 (sint N * sint nsp) \<and>
    region (X1 + sint i * sint nsp) (sint nsp) \<subseteq> batch_pt_outputs N X1 nsp"
  using slice_in_batch [OF assms, of X0] slice_in_batch [OF assms, of X1]
  by (simp add: pt_call_at_def ptr_add_offset [OF assms] batch_pt_outputs_def slice_def)

theorem batch_pt_slice_pointers_witness:
  "pt_call_at probe_solve_pt 2 0 10 2 1 30 40 50 20 0 2 probe_world =
     probe_solve_pt (- 1) 1 14 2 1 30 40 50 24 0 probe_world \<and>
   region 14 2 \<subseteq> region 10 6 \<and> region 24 2 \<subseteq> batch_pt_outputs 3 20 2"
  using batch_pt_slice_pointers [of 3 2 2 probe_solve_pt 2 0 10 1 30 40 50 20 0 probe_world]
  by (simp add: batch_fits_def index_def ptr_add_def load_def probe_world_def)

section \<open>The message\<close>

text \<open>
  C38. The message names the failing input: when \<^verbatim>\<open>batch_pt\<close> returns a status other
  than 0, the output ends with \<^verbatim>\<open>Error in batch_pt @ position: \<close> followed by the
  decimal text of the position \<open>k\<close> whose call returned that status, after what
  the solver calls printed, and reading the text after the 30 characters of the
  message back as a \<^verbatim>\<open>%d\<close> gives \<open>k\<close>.
\<close>

theorem batch_pt_reports_position:
  assumes "batch_pt solve N p T X0 nsp nel lewis M a X1 verbose w = Inr (r, w')" and "r \<noteq> 0"
  shows "\<exists>k s. in_batch N k \<and>
    (\<exists>wk ws. batch_pt solve k p T X0 nsp nel lewis M a X1 verbose w = Inr (0, wk) \<and>
       pt_call_at solve p T X0 nsp nel lewis M a X1 verbose k wk = Inr (r, ws) \<and> s = stdout ws) \<and>
    stdout w' = s @ ''Error in batch_pt @ position: '' @ fmt_d k \<and>
    scan_d (drop (length s + 30) (stdout w')) = k"
proof -
  from assms [unfolded batch_pt_batch_run] obtain k wk ws where "in_batch N k"
    and "batch_run (pt_call_at solve p T X0 nsp nel lewis M a X1 verbose) batch_pt_message k w = Inr (0, wk)"
    and "pt_call_at solve p T X0 nsp nel lewis M a X1 verbose k wk = Inr (r, ws)"
    and "w' = printf batch_pt_message [k] ws"
    by (rule batch_run_failure_position)
  then show ?thesis
    unfolding batch_pt_batch_run
    by (intro exI [of _ k] exI [of _ "stdout ws"]) (simp add: scan_d_fmt_d)
qed

theorem batch_pt_reports_position_witness:
  "\<exists>k s. in_batch 2 k \<and>
     ''solve_ptsolve_ptError in batch_pt @ position: 1'' = s @ ''Error in batch_pt @ position: '' @ fmt_d k \<and>
     scan_d (drop (length s + 30) ''solve_ptsolve_ptError in batch_pt @ position: 1'') = k"
proof -
  have "\<exists>w'. batch_pt probe_solve_pt 2 0 2 10 2 1 30 40 50 20 1 probe_world = Inr (3, w') \<and>
      stdout w' = ''solve_ptsolve_ptError in batch_pt @ position: 1''"
    by (simp add: batch_pt_unfold for_loop.simps probe_eval)
  then obtain w' where run: "batch_pt probe_solve_pt 2 0 2 10 2 1 30 40 50 20 1 probe_world = Inr (3, w')"
    and out: "stdout w' = ''solve_ptsolve_ptError in batch_pt @ position: 1''"
    by blast
  from batch_pt_reports_position [OF run] show ?thesis
    unfolding out by (simp del: in_batch_numeral) blast
qed

section \<open>The loop as a machine\<close>

text \<open>
  C31. The function and the machine agree: started with counter 0, the machine
  whose step is one test of \<^verbatim>\<open>i<N\<close> and one run of the body of \<^verbatim>\<open>batch_pt\<close> reaches a
  final configuration, it reaches only one, and that configuration is the status
  and world that \<^verbatim>\<open>batch_pt\<close> returns, or its fault.
\<close>

theorem batch_pt_machine:
  "loop_steps (batch_pt_body solve p T X0 nsp nel lewis M a X1 verbose) N (Running 0 w) c \<and> final c
   \<longleftrightarrow> c = config_of (batch_pt solve N p T X0 nsp nel lewis M a X1 verbose w)"
  unfolding batch_pt_batch_run batch_pt_body_eq by (rule batch_run_machine)

text \<open>
  C32. What holds whenever the loop is about to test its condition: the counter
  \<open>j\<close> is not negative, it is at most \<open>N\<close> (or still 0, when \<open>N\<close> is negative), and
  the inputs before \<open>j\<close> have all been solved with status 0, the world being the
  one a batch of those \<open>j\<close> inputs returns.
\<close>

theorem batch_pt_reachable:
  assumes "loop_steps (batch_pt_body solve p T X0 nsp nel lewis M a X1 verbose) N
    (Running 0 w) (Running j w')"
  shows "0 \<le> sint j \<and> (sint j \<le> sint N \<or> j = 0) \<and>
    batch_pt solve j p T X0 nsp nel lewis M a X1 verbose w = Inr (0, w')"
  using assms unfolding batch_pt_batch_run batch_pt_body_eq by (rule batch_run_reachable)

theorem batch_pt_reachable_witness:
  "\<exists>w'. loop_steps (batch_pt_body probe_solve_pt 0 2 10 2 1 30 40 50 20 0) 2
       (Running 0 probe_world) (Running 1 w') \<and>
     batch_pt probe_solve_pt 1 0 2 10 2 1 30 40 50 20 0 probe_world = Inr (0, w')"
proof -
  have "\<exists>w'. batch_pt_body probe_solve_pt 0 2 10 2 1 30 40 50 20 0 0 probe_world = Inr (Next, w')"
    by (simp add: batch_pt_unfold probe_eval)
  then obtain w' where
    "batch_pt_body probe_solve_pt 0 2 10 2 1 30 40 50 20 0 0 probe_world = Inr (Next, w')" ..
  then have "loop_step (batch_pt_body probe_solve_pt 0 2 10 2 1 30 40 50 20 0) 2
      (Running 0 probe_world) (Running (0 + 1) w')"
    by (intro step_next) simp_all
  then have steps: "loop_steps (batch_pt_body probe_solve_pt 0 2 10 2 1 30 40 50 20 0) 2
      (Running 0 probe_world) (Running 1 w')"
    by (intro steps_step [OF _ steps_refl]) simp
  from batch_pt_reachable [OF steps] steps show ?thesis by blast
qed

section \<open>Splitting the batch\<close>

text \<open>
  The call for input \<open>i\<close> of the batch that starts at position \<open>k\<close>, with every array
  pointer moved to its row \<open>k\<close>, is the call for input \<open>i + k\<close> of the whole batch.
\<close>

lemma pt_call_at_shift:
  assumes "batch_fits N nsp" and "0 \<le> sint k" and "sint k \<le> sint N" and "in_batch (N - k) i"
  shows "pt_call_at solve (ptr_add p k) (ptr_add T k) (ptr_add X0 (k * nsp)) nsp nel lewis M a
      (ptr_add X1 (k * nsp)) verbose i w =
    pt_call_at solve p T X0 nsp nel lewis M a X1 verbose (i + k) w"
  by (simp add: pt_call_at_def index_def ptr_add_shift [OF assms(2-4)]
      ptr_add_offset_shift [OF assms])

text \<open>
  C29. A batch can be solved in two parts: when the offsets fit in \<^verbatim>\<open>int\<close> and
  \<^verbatim>\<open>batch_pt\<close> on the first \<open>k\<close> inputs returns 0, then \<^verbatim>\<open>batch_pt\<close> on the remaining
  \<open>N - k\<close> inputs, called with \<open>p + k\<close>, \<open>T + k\<close>, \<open>X0 + k*nsp\<close> and \<open>X1 + k*nsp\<close> in the
  world the first part left, faults exactly when the whole batch faults, with the
  same fault, and otherwise returns the status of the whole batch. With status 0
  the two final worlds are equal; with another status they differ in the printed
  position only, which the second part counts from \<open>k\<close>.
\<close>

theorem batch_pt_split:
  assumes "batch_fits N nsp" and "0 \<le> sint k" and "sint k \<le> sint N"
    and "batch_pt solve k p T X0 nsp nel lewis M a X1 verbose w = Inr (0, w1)"
  shows "case batch_pt solve (N - k) (ptr_add p k) (ptr_add T k) (ptr_add X0 (k * nsp)) nsp nel
        lewis M a (ptr_add X1 (k * nsp)) verbose w1 of
      Inl f \<Rightarrow> batch_pt solve N p T X0 nsp nel lewis M a X1 verbose w = Inl f
    | Inr (r, w2) \<Rightarrow> (\<exists>w3. batch_pt solve N p T X0 nsp nel lewis M a X1 verbose w = Inr (r, w3) \<and>
        (r = 0 \<and> w3 = w2 \<or>
         (\<exists>i. in_batch (N - k) i \<and> r \<noteq> 0 \<and>
            (\<exists>ws. w2 = printf ''Error in batch_pt @ position: %d'' [i] ws \<and>
                  w3 = printf ''Error in batch_pt @ position: %d'' [i + k] ws))))"
proof -
  have "batch_run (pt_call_at solve (ptr_add p k) (ptr_add T k) (ptr_add X0 (k * nsp)) nsp nel
        lewis M a (ptr_add X1 (k * nsp)) verbose) batch_pt_message (N - k) w1 =
      batch_run (\<lambda>i. pt_call_at solve p T X0 nsp nel lewis M a X1 verbose (i + k))
        batch_pt_message (N - k) w1"
    by (rule batch_run_cong) (rule pt_call_at_shift [OF assms(1-3)])
  with batch_run_split [where call = "pt_call_at solve p T X0 nsp nel lewis M a X1 verbose",
      OF assms(2,3) assms(4) [unfolded batch_pt_batch_run]]
  show ?thesis
    unfolding batch_pt_batch_run by simp
qed

theorem batch_pt_split_witness:
  "\<exists>w1 w2 w3. batch_pt probe_solve_pt 1 0 2 10 2 1 30 40 50 20 0 probe_world = Inr (0, w1) \<and>
     batch_pt probe_solve_pt 1 1 3 12 2 1 30 40 50 22 0 w1 = Inr (3, w2) \<and>
     batch_pt probe_solve_pt 2 0 2 10 2 1 30 40 50 20 0 probe_world = Inr (3, w3) \<and>
     heap w3 = heap w2"
proof -
  have "\<exists>w1. batch_pt probe_solve_pt 1 0 2 10 2 1 30 40 50 20 0 probe_world = Inr (0, w1) \<and>
      (\<exists>w2. batch_pt probe_solve_pt 1 1 3 12 2 1 30 40 50 22 0 w1 = Inr (3, w2))"
    by (simp add: batch_pt_unfold for_loop.simps probe_eval)
  then obtain w1 w2 where
    w1: "batch_pt probe_solve_pt 1 0 2 10 2 1 30 40 50 20 0 probe_world = Inr (0, w1)"
    and w2: "batch_pt probe_solve_pt 1 1 3 12 2 1 30 40 50 22 0 w1 = Inr (3, w2)"
    by blast
  have "batch_fits 2 2" by (simp add: batch_fits_def)
  from batch_pt_split [OF this _ _ w1] w1 w2 show ?thesis
    by (auto simp: ptr_add_def)
qed

end
