(* ===== verification/Batch_Pt_Memory.thy ===== *)
theory Batch_Pt_Memory
  imports Batch_Pt
begin

text \<open>
  What \<^verbatim>\<open>batch_pt\<close> does to memory, relative to the contracts of the solver: it
  writes the output array only, it returns a status when the arrays are
  allocated, and, when the output array is separate from what is read, every
  slice it has written is the one a direct call on the initial memory writes.
  The first two sections turn the contracts of \<^verbatim>\<open>solve_pt\<close> into the contracts of
  the calls of a batch that \<open>Batch_Run\<close> asks for; the theorems are then the
  lemmas of \<open>Batch_Run\<close> at these calls. The last section shows that the loop
  passes through well-formed configurations only.
\<close>

section \<open>Footprints of one iteration\<close>

lemma pt_outputs_at:
  "batch_fits N nsp \<Longrightarrow> in_batch N i \<Longrightarrow>
   pt_outputs (ptr_add X1 (i * nsp)) nsp = slice X1 (sint nsp) (sint i)"
  by (simp add: pt_outputs_def region_ptr_add_offset)

lemma pt_outputs_in_batch:
  "batch_fits N nsp \<Longrightarrow> in_batch N i \<Longrightarrow>
   pt_outputs (ptr_add X1 (i * nsp)) nsp \<subseteq> batch_pt_outputs N X1 nsp"
  by (simp add: pt_outputs_at batch_pt_outputs_def slice_in_batch)

lemma pt_reads_in_batch:
  assumes "batch_fits N nsp" and "in_batch N i"
  shows "pt_reads_at p T X0 nsp nel lewis M a i \<subseteq> batch_pt_inputs N p T X0 nsp nel lewis M a"
proof -
  have "region (ptr_add X0 (i * nsp)) (sint nsp) \<subseteq> region X0 (sint N * sint nsp)"
    using assms by (simp add: region_ptr_add_offset slice_in_batch)
  moreover have "ptr_add T i \<in> region T (sint N)" "ptr_add p i \<in> region p (sint N)"
    using assms(2) by (rule cell_in_batch)+
  ultimately show ?thesis
    unfolding pt_reads_at_def pt_inputs_def batch_pt_inputs_def by blast
qed

lemma pt_reads_separate:
  assumes "batch_pt_separate N p T X0 nsp nel lewis M a X1" and "batch_fits N nsp"
    and "in_batch N i" and "in_batch N j" and "i \<noteq> j"
  shows "pt_reads_at p T X0 nsp nel lewis M a i \<inter> slice X1 (sint nsp) (sint j) = {}"
proof -
  let ?out = "region X1 (sint N * sint nsp)"
  have j: "slice X1 (sint nsp) (sint j) \<subseteq> ?out"
    using assms(2,4) by (rule slice_in_batch)
  have "region (ptr_add X0 (i * nsp)) (sint nsp) \<inter> slice X1 (sint nsp) (sint j) = {}"
  proof (cases "X0 = X1")
    case True
    with assms(2,3,5) show ?thesis
      by (simp add: region_ptr_add_offset slices_disjoint)
  next
    case False
    with assms(1) have "?out \<inter> region X0 (sint N * sint nsp) = {}"
      by (simp add: batch_pt_separate_def disjoint_regions_iff)
    moreover have "region (ptr_add X0 (i * nsp)) (sint nsp) \<subseteq> region X0 (sint N * sint nsp)"
      using assms(2,3) by (simp add: region_ptr_add_offset slice_in_batch)
    ultimately show ?thesis using j by blast
  qed
  moreover have "?out \<inter> region p (sint N) = {}" "?out \<inter> region T (sint N) = {}"
    "?out \<inter> region lewis (sint nsp * 3 * 9) = {}" "?out \<inter> region M (sint nsp) = {}"
    "?out \<inter> region a (sint nel * sint nsp) = {}"
    using assms(1) by (simp_all add: batch_pt_separate_def disjoint_regions_iff)
  moreover have "ptr_add T i \<in> region T (sint N)" "ptr_add p i \<in> region p (sint N)"
    using assms(3) by (rule cell_in_batch)+
  ultimately show ?thesis
    using j unfolding pt_reads_at_def pt_inputs_def by blast
qed

lemma pt_call_at_cong:
  assumes "pt_local solve" and "agree_on (pt_reads_at p T X0 nsp nel lewis M a i) w1 w2"
    and "dom (heap w1) = dom (heap w2)"
  shows "outcome_rel (pt_outputs (ptr_add X1 (i * nsp)) nsp)
    (pt_call_at solve p T X0 nsp nel lewis M a X1 verbose i w1)
    (pt_call_at solve p T X0 nsp nel lewis M a X1 verbose i w2)"
proof -
  from assms(2) have T: "index w1 T i = index w2 T i" and p: "index w1 p i = index w2 p i"
    by (simp_all add: pt_reads_at_def index_def load_def)
  from assms(2) have "agree_on (pt_inputs (ptr_add X0 (i * nsp)) nsp nel lewis M a) w1 w2"
    by (simp add: pt_reads_at_def)
  note loc = pt_localD [OF assms(1) this assms(3)]
  show ?thesis
    unfolding pt_call_at_def T p
    by (cases "index w2 T i"; cases "index w2 p i") (simp_all add: loc)
qed

section \<open>The contracts of the calls of a batch\<close>

lemma pt_call_frame:
  assumes "pt_frame solve" and "batch_fits N nsp"
  shows "call_frame (pt_call_at solve p T X0 nsp nel lewis M a X1 verbose) (\<lambda>i. slice X1 (sint nsp) (sint i)) N"
  unfolding call_frame_def
proof (intro allI impI, elim conjE)
  fix i w r w'
  assume inb: "in_batch N i" and "pt_call_at solve p T X0 nsp nel lewis M a X1 verbose i w = Inr (r, w')"
  then obtain Ti pi where solve:
    "solve pi Ti (ptr_add X0 (i * nsp)) nsp nel lewis M a (ptr_add X1 (i * nsp)) verbose w = Inr (r, w')"
    unfolding pt_call_at_Inr by blast
  from pt_frameD [where solve = solve, OF assms(1) solve]
  show "same_outside (slice X1 (sint nsp) (sint i)) w w' \<and> extends_output w w'"
    by (simp add: pt_outputs_at [OF assms(2) inb])
qed

lemma pt_call_local:
  assumes "pt_local solve" and "batch_fits N nsp"
  shows "call_local (pt_call_at solve p T X0 nsp nel lewis M a X1 verbose) (pt_reads_at p T X0 nsp nel lewis M a) (\<lambda>i. slice X1 (sint nsp) (sint i)) N"
  unfolding call_local_def
proof (intro allI impI, elim conjE)
  fix i and w1 w2 :: "'a world"
  assume "in_batch N i" and "agree_on (pt_reads_at p T X0 nsp nel lewis M a i) w1 w2" and "dom (heap w1) = dom (heap w2)"
  with pt_call_at_cong [OF assms(1), of p T X0 nsp nel lewis M a i w1 w2 X1 verbose]
  show "outcome_rel (slice X1 (sint nsp) (sint i)) (pt_call_at solve p T X0 nsp nel lewis M a X1 verbose i w1) (pt_call_at solve p T X0 nsp nel lewis M a X1 verbose i w2)"
    by (simp add: pt_outputs_at [OF assms(2)])
qed

lemma pt_calls_separate:
  assumes "batch_pt_separate N p T X0 nsp nel lewis M a X1" and "batch_fits N nsp"
  shows "calls_separate (pt_reads_at p T X0 nsp nel lewis M a) (\<lambda>i. slice X1 (sint nsp) (sint i)) N"
  unfolding calls_separate_def
  using pt_reads_separate [OF assms] slices_disjoint [OF assms(2)] by blast

lemma pt_call_safe:
  assumes "pt_safe solve" and "batch_fits N nsp"
  shows "call_safe (pt_call_at solve p T X0 nsp nel lewis M a X1 verbose)
    (batch_pt_inputs N p T X0 nsp nel lewis M a \<union> batch_pt_outputs N X1 nsp) N"
  unfolding call_safe_def
proof (intro allI impI, elim conjE)
  fix i and w :: "'a world"
  assume inb: "in_batch N i"
    and alloc: "batch_pt_inputs N p T X0 nsp nel lewis M a \<union> batch_pt_outputs N X1 nsp \<subseteq> dom (heap w)"
  from alloc pt_reads_in_batch [OF assms(2) inb, of p T X0 nel lewis M a]
  have reads: "pt_reads_at p T X0 nsp nel lewis M a i \<subseteq> dom (heap w)" by blast
  then obtain Ti pi where Ti: "index w T i = Inr Ti" and pi: "index w p i = Inr pi"
    by (auto simp: pt_reads_at_def index_def)
  from alloc pt_outputs_in_batch [OF assms(2) inb, of X1]
  have "pt_outputs (ptr_add X1 (i * nsp)) nsp \<subseteq> dom (heap w)" by blast
  with reads have "pt_inputs (ptr_add X0 (i * nsp)) nsp nel lewis M a \<union>
      pt_outputs (ptr_add X1 (i * nsp)) nsp \<subseteq> dom (heap w)"
    by (simp add: pt_reads_at_def)
  from pt_safeD [where solve = solve, OF assms(1) this] Ti pi
  show "\<exists>r w'. pt_call_at solve p T X0 nsp nel lewis M a X1 verbose i w = Inr (r, w')"
    by (simp add: pt_call_at_def)
qed

lemma pt_call_quiet:
  assumes "pt_quiet solve" and "heap w1 = heap w2"
  shows "outcome_rel UNIV
    (pt_call_at solve p T X0 nsp nel lewis M a X1 v1 i w1)
    (pt_call_at solve p T X0 nsp nel lewis M a X1 v2 i w2)"
proof -
  from assms(2) have "index w1 T i = index w2 T i" and "index w1 p i = index w2 p i"
    by (simp_all add: index_def load_def)
  then show ?thesis
    unfolding pt_call_at_def
    by (cases "index w2 T i"; cases "index w2 p i") (simp_all add: pt_quietD [OF assms])
qed

section \<open>Frame and absence of faults\<close>

text \<open>
  C7. Frame: with a solver that writes its output cells only, and a batch whose
  offsets fit in \<^verbatim>\<open>int\<close>, a call of \<^verbatim>\<open>batch_pt\<close> that returns has changed no cell
  outside the \<open>N * nsp\<close> cells of \<open>X1\<close>, has allocated and freed nothing, and has
  only appended to the output, whatever the status.
\<close>

theorem batch_pt_frame:
  assumes "pt_frame solve" and "batch_fits N nsp"
    and "batch_pt solve N p T X0 nsp nel lewis M a X1 verbose w = Inr (r, w')"
  shows "same_outside (batch_pt_outputs N X1 nsp) w w' \<and> extends_output w w'"
proof -
  note run = assms(3) [unfolded batch_pt_batch_run]
  note frame = pt_call_frame [OF assms(1,2), of p T X0 nel lewis M a X1 verbose]
  have sub: "slice X1 (sint nsp) (sint i) \<subseteq> batch_pt_outputs N X1 nsp" if "in_batch N i" for i
    unfolding batch_pt_outputs_def using assms(2) that by (rule slice_in_batch)
  from batch_run_frame [where outs = "\<lambda>i. slice X1 (sint nsp) (sint i)", OF frame run sub]
  show ?thesis by (rule conjI)
qed

theorem batch_pt_frame_witness:
  "\<exists>r w'. batch_pt probe_solve_pt 2 0 2 10 2 1 30 40 50 20 1 probe_world = Inr (r, w') \<and>
     same_outside (batch_pt_outputs 2 20 2) probe_world w' \<and> extends_output probe_world w'"
proof -
  have "\<exists>r w'. batch_pt probe_solve_pt 2 0 2 10 2 1 30 40 50 20 1 probe_world = Inr (r, w')"
    by (simp add: batch_pt_unfold for_loop.simps probe_eval)
  then obtain r w' where run: "batch_pt probe_solve_pt 2 0 2 10 2 1 30 40 50 20 1 probe_world = Inr (r, w')"
    by blast
  have "batch_fits 2 2" by (simp add: batch_fits_def)
  from batch_pt_frame [OF probe_pt_frame this run] run show ?thesis by blast
qed

text \<open>
  C8. No fault: with a solver that returns a status whenever its arrays are
  allocated and that writes its output cells only, a batch whose offsets fit in
  \<^verbatim>\<open>int\<close> and whose arrays are allocated with the sizes the comment of \<^verbatim>\<open>batch_pt\<close>
  gives (\<open>p\<close>, \<open>T\<close>: \<open>N\<close>; \<open>X0\<close>, \<open>X1\<close>: \<open>N * nsp\<close>; \<open>lewis\<close>: \<open>nsp * 3 * 9\<close>; \<open>M\<close>: \<open>nsp\<close>;
  \<open>a\<close>: \<open>nel * nsp\<close>) makes \<^verbatim>\<open>batch_pt\<close> return a status: no read or write leaves the
  allocated cells.
\<close>

theorem batch_pt_returns:
  fixes w :: "'d world"
  assumes "pt_safe solve" and "pt_frame solve" and "batch_fits N nsp"
    and "batch_pt_inputs N p T X0 nsp nel lewis M a \<union> batch_pt_outputs N X1 nsp \<subseteq> dom (heap w)"
  shows "\<exists>r w'. batch_pt solve N p T X0 nsp nel lewis M a X1 verbose w = Inr (r, w')"
  unfolding batch_pt_batch_run
  using pt_call_safe [OF assms(1,3)] pt_call_frame [OF assms(2,3)] assms(4)
  by (rule batch_run_returns)

theorem batch_pt_returns_witness:
  "\<exists>r w'. batch_pt probe_solve_pt 2 2 0 10 1 1 30 57 58 20 0 probe_world = Inr (r, w')"
proof -
  have "batch_fits 2 1" by (simp add: batch_fits_def)
  moreover have "batch_pt_inputs 2 2 0 10 1 1 30 57 58 \<union> batch_pt_outputs 2 20 1 \<subseteq> dom (heap probe_world)"
    by (auto simp: batch_pt_inputs_def batch_pt_outputs_def probe_world_def)
  ultimately show ?thesis
    by (rule batch_pt_returns [OF probe_pt_safe probe_pt_frame])
qed

section \<open>Independence of the inputs\<close>

text \<open>
  C5. Independence of the inputs: assume the solver writes its output cells only
  and its outcome is a function of its input cells, the offsets fit in \<^verbatim>\<open>int\<close>, and
  the output array is separate from \<open>p\<close>, \<open>T\<close>, \<open>lewis\<close>, \<open>M\<close> and \<open>a\<close> and either
  separate from \<open>X0\<close> or equal to it (a batch solved in place). If \<^verbatim>\<open>batch_pt\<close>
  returns 0, then for every input \<open>i\<close> the call for input \<open>i\<close> made directly on the
  initial world returns 0 too, and slice \<open>i\<close> of \<open>X1\<close> in the final world is what that
  direct call writes: solving the batch in sequence gives the results of \<open>N\<close>
  independent solves.
\<close>

theorem batch_pt_independent:
  assumes "pt_frame solve" and "pt_local solve"
    and "batch_pt_separate N p T X0 nsp nel lewis M a X1" and "batch_fits N nsp"
    and "batch_pt solve N p T X0 nsp nel lewis M a X1 verbose w = Inr (0, w')"
    and "in_batch N i"
  shows "\<exists>wi. pt_call_at solve p T X0 nsp nel lewis M a X1 verbose i w = Inr (0, wi) \<and>
    agree_on (slice X1 (sint nsp) (sint i)) wi w'"
  using pt_call_frame [OF assms(1,4)] pt_call_local [OF assms(2,4)] pt_calls_separate [OF assms(3,4)]
    assms(5) [unfolded batch_pt_batch_run] assms(6)
  by (rule batch_run_independent)

theorem batch_pt_independent_witness:
  "\<exists>wi w'. batch_pt probe_solve_pt 2 2 0 10 2 1 30 40 50 20 0 probe_world = Inr (0, w') \<and>
     pt_call_at probe_solve_pt 2 0 10 2 1 30 40 50 20 0 1 probe_world = Inr (0, wi) \<and>
     agree_on (slice 20 2 1) wi w'"
proof -
  have "\<exists>w'. batch_pt probe_solve_pt 2 2 0 10 2 1 30 40 50 20 0 probe_world = Inr (0, w')"
    by (simp add: batch_pt_unfold for_loop.simps probe_eval)
  then obtain w' where run: "batch_pt probe_solve_pt 2 2 0 10 2 1 30 40 50 20 0 probe_world = Inr (0, w')" ..
  have sep: "batch_pt_separate 2 2 0 10 2 1 30 40 50 20"
    by (simp add: batch_pt_separate_def disjoint_regions_def)
  have fits: "batch_fits 2 2" by (simp add: batch_fits_def)
  have "in_batch 2 1" by (simp add: in_batch_def)
  from batch_pt_independent [OF probe_pt_frame probe_pt_local sep fits run this] run
  show ?thesis by auto
qed

text \<open>
  C6. Results before a failure stay valid: under the same assumptions, if
  \<^verbatim>\<open>batch_pt\<close> returns a status \<open>r\<close> other than 0, there is a position \<open>k\<close> whose direct
  call on the initial world returns \<open>r\<close>, and for every input \<open>i\<close> before \<open>k\<close> the
  direct call returns 0 and slice \<open>i\<close> of \<open>X1\<close> in the final world is what it writes.
\<close>

theorem batch_pt_partial_valid:
  assumes "pt_frame solve" and "pt_local solve"
    and "batch_pt_separate N p T X0 nsp nel lewis M a X1" and "batch_fits N nsp"
    and "batch_pt solve N p T X0 nsp nel lewis M a X1 verbose w = Inr (r, w')" and "r \<noteq> 0"
  shows "\<exists>k. in_batch N k \<and>
    (\<exists>wk. pt_call_at solve p T X0 nsp nel lewis M a X1 verbose k w = Inr (r, wk)) \<and>
    (\<forall>i. in_batch k i \<longrightarrow>
       (\<exists>wi. pt_call_at solve p T X0 nsp nel lewis M a X1 verbose i w = Inr (0, wi) \<and>
          agree_on (slice X1 (sint nsp) (sint i)) wi w'))"
  using pt_call_frame [OF assms(1,4)] pt_call_local [OF assms(2,4)] pt_calls_separate [OF assms(3,4)]
    assms(5) [unfolded batch_pt_batch_run] assms(6)
  by (rule batch_run_partial_valid)

theorem batch_pt_partial_valid_witness:
  "\<exists>k. in_batch 2 k \<and>
     (\<exists>wk. pt_call_at probe_solve_pt 0 2 20 2 1 30 40 50 20 0 k probe_world = Inr (3, wk)) \<and>
     (\<forall>i. in_batch k i \<longrightarrow>
        (\<exists>wi. pt_call_at probe_solve_pt 0 2 20 2 1 30 40 50 20 0 i probe_world = Inr (0, wi)))"
proof -
  have "\<exists>w'. batch_pt probe_solve_pt 2 0 2 20 2 1 30 40 50 20 0 probe_world = Inr (3, w')"
    by (simp add: batch_pt_unfold for_loop.simps probe_eval)
  then obtain w' where run: "batch_pt probe_solve_pt 2 0 2 20 2 1 30 40 50 20 0 probe_world = Inr (3, w')" ..
  have sep: "batch_pt_separate 2 0 2 20 2 1 30 40 50 20"
    by (simp add: batch_pt_separate_def disjoint_regions_def)
  have fits: "batch_fits 2 2" by (simp add: batch_fits_def)
  from batch_pt_partial_valid [OF probe_pt_frame probe_pt_local sep fits run] show ?thesis
    by (simp del: in_batch_numeral) blast
qed

section \<open>The flag \<^verbatim>\<open>verbose\<close>\<close>

text \<open>
  The flag \<^verbatim>\<open>verbose\<close> changes the output only: with a solver whose status and
  written cells do not depend on \<^verbatim>\<open>verbose\<close> nor on what has been printed before,
  two calls of \<^verbatim>\<open>batch_pt\<close> that differ in \<^verbatim>\<open>verbose\<close> only fault alike or return the
  same status and leave the same memory.
\<close>

theorem batch_pt_quiet:
  assumes "pt_quiet solve"
  shows "outcome_rel UNIV
    (batch_pt solve N p T X0 nsp nel lewis M a X1 v1 w)
    (batch_pt solve N p T X0 nsp nel lewis M a X1 v2 w)"
  unfolding batch_pt_batch_run
  by (rule batch_run_rel) (simp_all add: pt_call_quiet [OF assms])

theorem batch_pt_quiet_witness:
  "outcome_rel UNIV
    (batch_pt probe_solve_pt 2 0 2 10 2 1 30 40 50 20 0 probe_world)
    (batch_pt probe_solve_pt 2 0 2 10 2 1 30 40 50 20 1 probe_world) \<and>
   (\<exists>w'. batch_pt probe_solve_pt 2 0 2 10 2 1 30 40 50 20 1 probe_world = Inr (3, w') \<and>
      stdout w' = ''solve_ptsolve_ptError in batch_pt @ position: 1'')"
  using batch_pt_quiet [OF probe_pt_quiet, of 2 0 2 10 2 1 30 40 50 20 0 probe_world 1]
  by (simp add: batch_pt_unfold for_loop.simps probe_eval)

section \<open>Refinement of the abstract batch\<close>

text \<open>
  C4. \<^verbatim>\<open>batch_pt\<close> returns the first status other than 0. Let the status of input
  \<open>i\<close> be the status of the direct call for input \<open>i\<close> on the initial memory. With
  the contracts of the solver, offsets that fit in \<^verbatim>\<open>int\<close>, arrays allocated with
  the sizes of the comment and an output array separate from the inputs (or equal
  to \<open>X0\<close>), \<^verbatim>\<open>batch_pt\<close> returns, and its status is the status of the first input
  in \<open>0, \<dots>, N - 1\<close> whose status is not 0, or 0 when there is none.
\<close>

theorem batch_pt_first_failure:
  fixes w :: "'d world"
  assumes "pt_safe solve" and "pt_frame solve" and "pt_local solve"
    and "batch_pt_separate N p T X0 nsp nel lewis M a X1" and "batch_fits N nsp"
    and "batch_pt_inputs N p T X0 nsp nel lewis M a \<union> batch_pt_outputs N X1 nsp \<subseteq> dom (heap w)"
  shows "\<exists>w'. batch_pt solve N p T X0 nsp nel lewis M a X1 verbose w =
    Inr (status_of (first_failure
      (direct_status (pt_call_at solve p T X0 nsp nel lewis M a X1 verbose) w)
      (indices_from 0 N)), w')"
  unfolding batch_pt_batch_run
  using pt_call_safe [OF assms(1,5)] assms(6) pt_call_frame [OF assms(2,5)]
    pt_call_local [OF assms(3,5)] pt_calls_separate [OF assms(4,5)]
  by (rule batch_run_first_failure)

theorem batch_pt_first_failure_witness:
  "first_failure (direct_status (pt_call_at probe_solve_pt 0 2 10 1 1 30 57 58 20 0) probe_world)
     [0, 1] = Some (1, 3) \<and>
   (\<exists>w'. batch_pt probe_solve_pt 2 0 2 10 1 1 30 57 58 20 0 probe_world = Inr (3, w'))"
proof -
  have "batch_pt_separate 2 0 2 10 1 1 30 57 58 20"
    by (simp add: batch_pt_separate_def disjoint_regions_def)
  moreover have "batch_fits 2 1" by (simp add: batch_fits_def)
  moreover have "batch_pt_inputs 2 0 2 10 1 1 30 57 58 \<union> batch_pt_outputs 2 20 1
      \<subseteq> dom (heap probe_world)"
    by (auto simp: batch_pt_inputs_def batch_pt_outputs_def probe_world_def)
  moreover have "indices_from 0 (2 :: c_int) = [0, 1]"
    by (simp add: indices_from_def upto.simps)
  moreover have "first_failure
      (direct_status (pt_call_at probe_solve_pt 0 2 10 1 1 30 57 58 20 0) probe_world) [0, 1]
      = Some (1, 3)"
    by (simp add: direct_status_def pt_call_at_def probe_eval)
  ultimately show ?thesis
    using batch_pt_first_failure [OF probe_pt_safe probe_pt_frame probe_pt_local,
        of 2 0 2 10 1 1 30 57 58 20 probe_world 0]
    by (simp add: status_of_def)
qed

section \<open>Well-formed configurations\<close>

text \<open>
  C34. Soundness of the loop for well-formed configurations: with a solver that
  returns a status on allocated arrays and writes its output cells only, offsets
  that fit in \<^verbatim>\<open>int\<close> and arrays allocated with the sizes of the comment, every
  configuration the loop of \<^verbatim>\<open>batch_pt\<close> reaches is well-formed (the counter is in
  the range of the loop, the allocated cells are those of the initial world, the
  output extends the initial output, there is no fault), and every such
  configuration is final or takes a step: the loop is never stuck and never
  faults.
\<close>

theorem batch_pt_configs_ok:
  fixes w :: "'d world"
  assumes "pt_safe solve" and "pt_frame solve" and "batch_fits N nsp"
    and "batch_pt_inputs N p T X0 nsp nel lewis M a \<union> batch_pt_outputs N X1 nsp \<subseteq> dom (heap w)"
    and "loop_steps (batch_pt_body solve p T X0 nsp nel lewis M a X1 verbose) N (Running 0 w) c"
  shows "config_ok N w c \<and>
    (final c \<or> (\<exists>c'. loop_step (batch_pt_body solve p T X0 nsp nel lewis M a X1 verbose) N c c'))"
  using pt_call_safe [OF assms(1,3)] pt_call_frame [OF assms(2,3)] assms(4)
    assms(5) [unfolded batch_pt_body_eq]
  unfolding batch_pt_body_eq by (rule batch_run_sound)

theorem batch_pt_configs_ok_witness:
  "\<exists>w1. loop_steps (batch_pt_body probe_solve_pt 2 0 10 1 1 30 57 58 20 0) 2
       (Running 0 probe_world) (Running 1 w1) \<and>
     config_ok 2 probe_world (Running 1 w1) \<and>
     (\<exists>c'. loop_step (batch_pt_body probe_solve_pt 2 0 10 1 1 30 57 58 20 0) 2 (Running 1 w1) c')"
proof -
  let ?body = "batch_pt_body probe_solve_pt 2 0 10 1 1 30 57 58 20 0"
  have "\<exists>w1. ?body 0 probe_world = Inr (Next, w1)"
    by (simp add: batch_pt_body_def probe_eval)
  then obtain w1 where "?body 0 probe_world = Inr (Next, w1)" ..
  then have "loop_step ?body 2 (Running 0 probe_world) (Running (0 + 1) w1)"
    by (intro step_next) simp
  then have steps: "loop_steps ?body 2 (Running 0 probe_world) (Running 1 w1)"
    by (simp add: loop_steps_step1)
  have fits: "batch_fits 2 1" by (simp add: batch_fits_def)
  have "batch_pt_inputs 2 2 0 10 1 1 30 57 58 \<union> batch_pt_outputs 2 20 1 \<subseteq> dom (heap probe_world)"
    by (auto simp: batch_pt_inputs_def batch_pt_outputs_def probe_world_def)
  from batch_pt_configs_ok [OF probe_pt_safe probe_pt_frame fits this steps] steps
  show ?thesis by auto
qed

end
