(* ===== verification/Batch_Rhou.thy ===== *)
theory Batch_Rhou
  imports Batch_Run Probe_Solver
begin

text \<open>
  \<^verbatim>\<open>batch_rhou\<close> of \<^verbatim>\<open>src/ceq.c\<close>: the equilibrium composition and temperature at \<open>N\<close>
  pairs of density and internal energy. \<open>batch_rhou_body\<close> is one iteration (read
  \<^verbatim>\<open>rho[i]\<close> and \<^verbatim>\<open>u[i]\<close>, form the two slice pointers and the pointer \<^verbatim>\<open>T + i\<close>,
  call \<^verbatim>\<open>solve_rhou\<close>, and on a non-zero status print the position and return the
  status); \<open>batch_rhou\<close> runs it for \<open>i = 0, \<dots>, N - 1\<close>. The theorems of this theory
  are about the control flow, the last of them the splitting of a batch at a
  position; \<open>Batch_Rhou_Memory\<close> has the theorems about memory.
\<close>

section \<open>Definitions\<close>

definition batch_rhou_body ::
  "'d solve_rhou_fn \<Rightarrow> addr \<Rightarrow> addr \<Rightarrow> addr \<Rightarrow> c_int \<Rightarrow> c_int \<Rightarrow> addr \<Rightarrow> addr \<Rightarrow> addr \<Rightarrow> addr \<Rightarrow>
   addr \<Rightarrow> c_int \<Rightarrow> (fault, 'd world) loop_body" where
  "batch_rhou_body solve_rhou rho u X0 nsp nel lewis M a X1 T verbose i w =
     bind_res (index w rho i) (\<lambda>rhoi.
     bind_res (index w u i) (\<lambda>ui.
       let X0i = ptr_add X0 (i * nsp);
           X1i = ptr_add X1 (i * nsp);
           Ti = ptr_add T i
       in bind_res (solve_rhou rhoi ui X0i nsp nel lewis M a X1i Ti verbose w) (\<lambda>(result, w').
            if result \<noteq> 0
            then Inr (Return result, printf ''Error in batch_rhou @ position: %d'' [i] w')
            else Inr (Next, w'))))"

definition batch_rhou ::
  "'d solve_rhou_fn \<Rightarrow> c_int \<Rightarrow> addr \<Rightarrow> addr \<Rightarrow> addr \<Rightarrow> c_int \<Rightarrow> c_int \<Rightarrow> addr \<Rightarrow> addr \<Rightarrow> addr \<Rightarrow>
   addr \<Rightarrow> addr \<Rightarrow> c_int \<Rightarrow> 'd world \<Rightarrow> fault + (c_int \<times> 'd world)" where
  "batch_rhou solve_rhou N rho u X0 nsp nel lewis M a X1 T verbose w =
     for_loop (batch_rhou_body solve_rhou rho u X0 nsp nel lewis M a X1 T verbose) 0 N w"

text \<open>
  The call that iteration \<open>i\<close> makes when it runs in world \<open>w\<close>: the outcome of
  \<^verbatim>\<open>solve_rhou\<close> on input \<open>i\<close>, or the fault of reading \<^verbatim>\<open>rho[i]\<close> or \<^verbatim>\<open>u[i]\<close>.
\<close>

definition rhou_call_at ::
  "'d solve_rhou_fn \<Rightarrow> addr \<Rightarrow> addr \<Rightarrow> addr \<Rightarrow> c_int \<Rightarrow> c_int \<Rightarrow> addr \<Rightarrow> addr \<Rightarrow> addr \<Rightarrow> addr \<Rightarrow>
   addr \<Rightarrow> c_int \<Rightarrow> c_int \<Rightarrow> 'd world \<Rightarrow> fault + (c_int \<times> 'd world)" where
  "rhou_call_at solve_rhou rho u X0 nsp nel lewis M a X1 T verbose i w =
     bind_res (index w rho i) (\<lambda>rhoi.
     bind_res (index w u i) (\<lambda>ui.
       solve_rhou rhoi ui (ptr_add X0 (i * nsp)) nsp nel lewis M a (ptr_add X1 (i * nsp))
         (ptr_add T i) verbose w))"

definition batch_rhou_inputs ::
  "c_int \<Rightarrow> addr \<Rightarrow> addr \<Rightarrow> addr \<Rightarrow> c_int \<Rightarrow> c_int \<Rightarrow> addr \<Rightarrow> addr \<Rightarrow> addr \<Rightarrow> addr set" where
  "batch_rhou_inputs N rho u X0 nsp nel lewis M a =
     region rho (sint N) \<union> region u (sint N) \<union> region X0 (sint N * sint nsp) \<union>
     region lewis (sint nsp * 3 * 9) \<union> region M (sint nsp) \<union> region a (sint nel * sint nsp)"

definition batch_rhou_outputs :: "c_int \<Rightarrow> addr \<Rightarrow> addr \<Rightarrow> c_int \<Rightarrow> addr set" where
  "batch_rhou_outputs N X1 T nsp = region X1 (sint N * sint nsp) \<union> region T (sint N)"

definition rhou_reads_at ::
  "addr \<Rightarrow> addr \<Rightarrow> addr \<Rightarrow> c_int \<Rightarrow> c_int \<Rightarrow> addr \<Rightarrow> addr \<Rightarrow> addr \<Rightarrow> addr \<Rightarrow> c_int \<Rightarrow> addr set" where
  "rhou_reads_at rho u X0 nsp nel lewis M a T i =
     {ptr_add rho i, ptr_add u i} \<union> rhou_inputs (ptr_add X0 (i * nsp)) nsp nel lewis M a \<union>
     region (ptr_add T i) 1"

definition rhou_writes_at :: "addr \<Rightarrow> addr \<Rightarrow> c_int \<Rightarrow> c_int \<Rightarrow> addr set" where
  "rhou_writes_at X1 T nsp i = slice X1 (sint nsp) (sint i) \<union> region (ptr_add T i) 1"

definition batch_rhou_separate ::
  "c_int \<Rightarrow> addr \<Rightarrow> addr \<Rightarrow> addr \<Rightarrow> c_int \<Rightarrow> c_int \<Rightarrow> addr \<Rightarrow> addr \<Rightarrow> addr \<Rightarrow> addr \<Rightarrow> addr \<Rightarrow> bool" where
  "batch_rhou_separate N rho u X0 nsp nel lewis M a X1 T \<longleftrightarrow>
     disjoint_regions X1 (sint N * sint nsp) rho (sint N) \<and>
     disjoint_regions X1 (sint N * sint nsp) u (sint N) \<and>
     disjoint_regions X1 (sint N * sint nsp) lewis (sint nsp * 3 * 9) \<and>
     disjoint_regions X1 (sint N * sint nsp) M (sint nsp) \<and>
     disjoint_regions X1 (sint N * sint nsp) a (sint nel * sint nsp) \<and>
     disjoint_regions X1 (sint N * sint nsp) T (sint N) \<and>
     (X0 = X1 \<or> disjoint_regions X1 (sint N * sint nsp) X0 (sint N * sint nsp)) \<and>
     disjoint_regions T (sint N) rho (sint N) \<and>
     disjoint_regions T (sint N) u (sint N) \<and>
     disjoint_regions T (sint N) lewis (sint nsp * 3 * 9) \<and>
     disjoint_regions T (sint N) M (sint nsp) \<and>
     disjoint_regions T (sint N) a (sint nel * sint nsp) \<and>
     disjoint_regions T (sint N) X0 (sint N * sint nsp)"

abbreviation batch_rhou_message :: string where
  "batch_rhou_message \<equiv> ''Error in batch_rhou @ position: %d''"

lemmas batch_rhou_unfold [ceq_unfold] = batch_rhou_def batch_rhou_body_def rhou_call_at_def

section \<open>The batch as an instance of the generic batch\<close>

lemma batch_rhou_body_eq:
  "batch_rhou_body solve rho u X0 nsp nel lewis M a X1 T verbose =
   batch_body (rhou_call_at solve rho u X0 nsp nel lewis M a X1 T verbose) batch_rhou_message"
  by (intro ext)
    (simp add: batch_rhou_body_def batch_body_def rhou_call_at_def bind_res_assoc Let_def)

lemma batch_rhou_batch_run:
  "batch_rhou solve N rho u X0 nsp nel lewis M a X1 T verbose w =
   batch_run (rhou_call_at solve rho u X0 nsp nel lewis M a X1 T verbose) batch_rhou_message N w"
  by (simp add: batch_rhou_def batch_run_def batch_rhou_body_eq)

lemma rhou_call_at_Inr:
  "rhou_call_at solve rho u X0 nsp nel lewis M a X1 T verbose i w = Inr (r, w') \<longleftrightarrow>
   (\<exists>rhoi ui. index w rho i = Inr rhoi \<and> index w u i = Inr ui \<and>
      solve rhoi ui (ptr_add X0 (i * nsp)) nsp nel lewis M a (ptr_add X1 (i * nsp)) (ptr_add T i)
        verbose w = Inr (r, w'))"
  by (auto simp: rhou_call_at_def bind_res_eq_Inr)

section \<open>Control flow\<close>

text \<open>
  C14. Fail-fast: when the first \<open>k\<close> inputs of a batch are solved with status 0 and
  the call for input \<open>k\<close> returns a status \<open>r\<close> other than 0, \<^verbatim>\<open>batch_rhou\<close> returns
  \<open>r\<close> and its final world is the world that call left, with the text
  \<^verbatim>\<open>Error in batch_rhou @ position: k\<close> appended to the output: no later input is
  solved and nothing else is written.
\<close>

theorem batch_rhou_fail_fast:
  assumes "in_batch N k"
    and "batch_rhou solve k rho u X0 nsp nel lewis M a X1 T verbose w = Inr (0, wk)"
    and "rhou_call_at solve rho u X0 nsp nel lewis M a X1 T verbose k wk = Inr (r, w')"
    and "r \<noteq> 0"
  shows "batch_rhou solve N rho u X0 nsp nel lewis M a X1 T verbose w =
    Inr (r, printf ''Error in batch_rhou @ position: %d'' [k] w')"
  using assms unfolding batch_rhou_batch_run by (rule batch_run_fail_fast)

theorem batch_rhou_fail_fast_witness:
  "\<exists>w'. batch_rhou probe_solve_rhou 2 0 2 10 2 1 30 40 50 20 60 0 probe_world = Inr (3, w') \<and>
     stdout w' = ''Error in batch_rhou @ position: 1'' \<and> heap w' 61 = Some 0 \<and>
     heap w' 22 = Some (- 9)"
proof -
  have "\<exists>wk. batch_rhou probe_solve_rhou 1 0 2 10 2 1 30 40 50 20 60 0 probe_world = Inr (0, wk) \<and>
      (\<exists>w'. rhou_call_at probe_solve_rhou 0 2 10 2 1 30 40 50 20 60 0 1 wk = Inr (3, w') \<and>
         stdout w' = [] \<and> heap w' 61 = Some 0 \<and> heap w' 22 = Some (- 9))"
    by (simp add: batch_rhou_unfold for_loop.simps probe_eval)
  then obtain wk w' where
    "batch_rhou probe_solve_rhou 1 0 2 10 2 1 30 40 50 20 60 0 probe_world = Inr (0, wk)"
    and "rhou_call_at probe_solve_rhou 0 2 10 2 1 30 40 50 20 60 0 1 wk = Inr (3, w')"
    and w': "stdout w' = []" "heap w' 61 = Some 0" "heap w' 22 = Some (- 9)"
    by blast
  from batch_rhou_fail_fast [of 2 1, OF _ this(1,2)] w' show ?thesis
    by (simp add: in_batch_def fmt_d_def digit_char_def)
qed

text \<open>
  C19. Conversely, a status other than 0 has exactly that origin: if \<^verbatim>\<open>batch_rhou\<close>
  returns \<open>r \<noteq> 0\<close>, there is a position \<open>k\<close> of the batch such that the inputs before
  \<open>k\<close> were solved with status 0, the call for input \<open>k\<close> returned \<open>r\<close>, and the final
  world is the one that call left plus the message naming \<open>k\<close>.
\<close>

theorem batch_rhou_failure_position:
  assumes "batch_rhou solve N rho u X0 nsp nel lewis M a X1 T verbose w = Inr (r, w')"
    and "r \<noteq> 0"
  shows "\<exists>k wk ws. in_batch N k \<and>
    batch_rhou solve k rho u X0 nsp nel lewis M a X1 T verbose w = Inr (0, wk) \<and>
    rhou_call_at solve rho u X0 nsp nel lewis M a X1 T verbose k wk = Inr (r, ws) \<and>
    w' = printf ''Error in batch_rhou @ position: %d'' [k] ws"
  using assms unfolding batch_rhou_batch_run
  by (rule batch_run_failure_position) (intro exI conjI)

theorem batch_rhou_failure_position_witness:
  "\<exists>k wk ws. in_batch 2 k \<and>
    batch_rhou probe_solve_rhou k 0 2 10 2 1 30 40 50 20 60 0 probe_world = Inr (0, wk) \<and>
    rhou_call_at probe_solve_rhou 0 2 10 2 1 30 40 50 20 60 0 k wk = Inr (3, ws)"
proof -
  have "\<exists>w'. batch_rhou probe_solve_rhou 2 0 2 10 2 1 30 40 50 20 60 0 probe_world = Inr (3, w')"
    by (simp add: batch_rhou_unfold for_loop.simps probe_eval)
  then obtain w' where
    "batch_rhou probe_solve_rhou 2 0 2 10 2 1 30 40 50 20 60 0 probe_world = Inr (3, w')" ..
  from batch_rhou_failure_position [OF this] show ?thesis by auto
qed

text \<open>
  C20. Status 0 means that every input was solved: if \<^verbatim>\<open>batch_rhou\<close> returns 0, then
  for every position \<open>k\<close> of the batch the inputs before \<open>k\<close> were solved with
  status 0 and the call for input \<open>k\<close>, made in the world they left, returned 0.
\<close>

theorem batch_rhou_all_solved:
  assumes "batch_rhou solve N rho u X0 nsp nel lewis M a X1 T verbose w = Inr (0, w')"
    and "in_batch N k"
  shows "\<exists>wk wk'. batch_rhou solve k rho u X0 nsp nel lewis M a X1 T verbose w = Inr (0, wk) \<and>
    rhou_call_at solve rho u X0 nsp nel lewis M a X1 T verbose k wk = Inr (0, wk')"
  using assms unfolding batch_rhou_batch_run
  by (rule batch_run_all_solved) (intro exI conjI)

theorem batch_rhou_all_solved_witness:
  "\<exists>wk wk'. batch_rhou probe_solve_rhou 1 2 0 10 2 1 30 40 50 20 60 0 probe_world = Inr (0, wk) \<and>
    rhou_call_at probe_solve_rhou 2 0 10 2 1 30 40 50 20 60 0 1 wk = Inr (0, wk')"
proof -
  have "\<exists>w'. batch_rhou probe_solve_rhou 2 2 0 10 2 1 30 40 50 20 60 0 probe_world = Inr (0, w')"
    by (simp add: batch_rhou_unfold for_loop.simps probe_eval)
  then obtain w' where
    "batch_rhou probe_solve_rhou 2 2 0 10 2 1 30 40 50 20 60 0 probe_world = Inr (0, w')" ..
  from batch_rhou_all_solved [OF this, of 1] show ?thesis
    by (simp add: in_batch_def)
qed

text \<open>
  C40. A fault is passed on unchanged: if the inputs before position \<open>k\<close> are solved
  with status 0 and iteration \<open>k\<close> faults (reading \<^verbatim>\<open>rho[k]\<close> or \<^verbatim>\<open>u[k]\<close> outside the
  allocated cells, or inside the solver), \<^verbatim>\<open>batch_rhou\<close> faults with the same fault.
\<close>

theorem batch_rhou_fault:
  assumes "in_batch N k"
    and "batch_rhou solve k rho u X0 nsp nel lewis M a X1 T verbose w = Inr (0, wk)"
    and "rhou_call_at solve rho u X0 nsp nel lewis M a X1 T verbose k wk = Inl f"
  shows "batch_rhou solve N rho u X0 nsp nel lewis M a X1 T verbose w = Inl f"
  using assms unfolding batch_rhou_batch_run by (rule batch_run_fault)

theorem batch_rhou_fault_witness:
  "batch_rhou probe_solve_rhou 2 63 0 10 2 1 30 40 50 20 60 0 probe_world = Inl (Bad_Read 64)"
proof -
  have "\<exists>wk. batch_rhou probe_solve_rhou 1 63 0 10 2 1 30 40 50 20 60 0 probe_world = Inr (0, wk) \<and>
      rhou_call_at probe_solve_rhou 63 0 10 2 1 30 40 50 20 60 0 1 wk = Inl (Bad_Read 64)"
    by (simp add: batch_rhou_unfold for_loop.simps probe_eval)
  then obtain wk where
    "batch_rhou probe_solve_rhou 1 63 0 10 2 1 30 40 50 20 60 0 probe_world = Inr (0, wk)"
    and "rhou_call_at probe_solve_rhou 63 0 10 2 1 30 40 50 20 60 0 1 wk = Inl (Bad_Read 64)"
    by blast
  from batch_rhou_fault [of 2 1, OF _ this] show ?thesis
    by (simp add: in_batch_def)
qed

text \<open>
  A batch without inputs: when \<open>N\<close> is zero or negative \<^verbatim>\<open>batch_rhou\<close> calls no
  solver, reads and writes nothing, and returns 0.
\<close>

theorem batch_rhou_empty:
  assumes "sint N \<le> 0"
  shows "batch_rhou solve N rho u X0 nsp nel lewis M a X1 T verbose w = Inr (0, w)"
  using assms unfolding batch_rhou_batch_run by (rule batch_run_empty)

theorem batch_rhou_empty_witness:
  "batch_rhou probe_solve_rhou 0 0 2 10 2 1 30 40 50 20 60 0 probe_world = Inr (0, probe_world)"
  using batch_rhou_empty [of 0 probe_solve_rhou 0 2 10 2 1 30 40 50 20 60 0 probe_world] by simp

section \<open>The slice pointers\<close>

text \<open>
  The pointers of a call: when the offsets of the batch fit in \<^verbatim>\<open>int\<close>, the call
  for input \<open>i\<close> is \<^verbatim>\<open>solve_rhou\<close> on \<^verbatim>\<open>rho[i]\<close> and \<^verbatim>\<open>u[i]\<close> with the pointers
  \<open>X0 + i * nsp\<close>, \<open>X1 + i * nsp\<close> and \<open>T + i\<close> computed without wrap-around; the \<open>nsp\<close>
  cells at the first lie inside the \<open>N * nsp\<close> cells of \<open>X0\<close>, and the cells the call
  may write lie inside the \<open>N * nsp\<close> cells of \<open>X1\<close> and the \<open>N\<close> cells of \<open>T\<close>.
\<close>

theorem batch_rhou_pointers:
  assumes "batch_fits N nsp" and "in_batch N i"
  shows "rhou_call_at solve rho u X0 nsp nel lewis M a X1 T verbose i w =
      bind_res (index w rho i) (\<lambda>rhoi. bind_res (index w u i) (\<lambda>ui.
        solve rhoi ui (X0 + sint i * sint nsp) nsp nel lewis M a (X1 + sint i * sint nsp)
          (T + sint i) verbose w)) \<and>
    region (X0 + sint i * sint nsp) (sint nsp) \<subseteq> region X0 (sint N * sint nsp) \<and>
    region (X1 + sint i * sint nsp) (sint nsp) \<union> {T + sint i} \<subseteq> batch_rhou_outputs N X1 T nsp"
  using slice_in_batch [OF assms, of X0] slice_in_batch [OF assms, of X1] assms(2)
  by (simp add: rhou_call_at_def offset_exact [OF assms] batch_rhou_outputs_def slice_def
      in_batch_def ptr_add_def le_supI1)

theorem batch_rhou_pointers_witness:
  "rhou_call_at probe_solve_rhou 2 0 10 2 1 30 40 50 20 60 0 2 probe_world =
     probe_solve_rhou (- 1) 1 14 2 1 30 40 50 24 62 0 probe_world \<and>
   region 14 2 \<subseteq> region 10 6 \<and> region 24 2 \<union> {62} \<subseteq> batch_rhou_outputs 3 20 60 2"
  using batch_rhou_pointers [of 3 2 2 probe_solve_rhou 2 0 10 1 30 40 50 20 60 0 probe_world]
  by (simp add: batch_fits_def index_def ptr_add_def load_def probe_world_def)

section \<open>The loop as a machine\<close>

text \<open>
  The function and the machine agree: started with counter 0, the machine
  whose step is one test of \<^verbatim>\<open>i<N\<close> and one run of the body of \<^verbatim>\<open>batch_rhou\<close> reaches
  a final configuration, it reaches only one, and that configuration is the
  status and world that \<^verbatim>\<open>batch_rhou\<close> returns, or its fault.
\<close>

theorem batch_rhou_machine:
  "loop_steps (batch_rhou_body solve rho u X0 nsp nel lewis M a X1 T verbose) N (Running 0 w) c \<and>
     final c
   \<longleftrightarrow> c = config_of (batch_rhou solve N rho u X0 nsp nel lewis M a X1 T verbose w)"
  unfolding batch_rhou_batch_run batch_rhou_body_eq by (rule batch_run_machine)

text \<open>
  What holds whenever the loop is about to test its condition: the counter
  \<open>j\<close> is not negative, it is at most \<open>N\<close> (or still 0, when \<open>N\<close> is negative), and
  the inputs before \<open>j\<close> have all been solved with status 0, the world being the
  one a batch of those \<open>j\<close> inputs returns.
\<close>

theorem batch_rhou_reachable:
  assumes "loop_steps (batch_rhou_body solve rho u X0 nsp nel lewis M a X1 T verbose) N
    (Running 0 w) (Running j w')"
  shows "0 \<le> sint j \<and> (sint j \<le> sint N \<or> j = 0) \<and>
    batch_rhou solve j rho u X0 nsp nel lewis M a X1 T verbose w = Inr (0, w')"
  using assms unfolding batch_rhou_batch_run batch_rhou_body_eq by (rule batch_run_reachable)

theorem batch_rhou_reachable_witness:
  "\<exists>w'. loop_steps (batch_rhou_body probe_solve_rhou 0 2 10 2 1 30 40 50 20 60 0) 2
       (Running 0 probe_world) (Running 1 w') \<and>
     batch_rhou probe_solve_rhou 1 0 2 10 2 1 30 40 50 20 60 0 probe_world = Inr (0, w')"
proof -
  have "\<exists>w'. batch_rhou_body probe_solve_rhou 0 2 10 2 1 30 40 50 20 60 0 0 probe_world
      = Inr (Next, w')"
    by (simp add: batch_rhou_unfold probe_eval)
  then obtain w' where
    "batch_rhou_body probe_solve_rhou 0 2 10 2 1 30 40 50 20 60 0 0 probe_world = Inr (Next, w')" ..
  then have "loop_step (batch_rhou_body probe_solve_rhou 0 2 10 2 1 30 40 50 20 60 0) 2
      (Running 0 probe_world) (Running (0 + 1) w')"
    by (intro step_next) simp_all
  then have steps: "loop_steps (batch_rhou_body probe_solve_rhou 0 2 10 2 1 30 40 50 20 60 0) 2
      (Running 0 probe_world) (Running 1 w')"
    by (intro steps_step [OF _ steps_refl]) simp
  from batch_rhou_reachable [OF steps] steps show ?thesis by blast
qed

section \<open>Splitting the batch\<close>

text \<open>
  As for \<^verbatim>\<open>batch_pt\<close>: the batch of the inputs from position \<open>k\<close> on, called with
  every array pointer moved to its row \<open>k\<close>, finishes a batch whose first \<open>k\<close> inputs
  are solved.
\<close>

lemma rhou_call_at_shift:
  assumes "batch_fits N nsp" and "0 \<le> sint k" and "sint k \<le> sint N" and "in_batch (N - k) i"
  shows "rhou_call_at solve (ptr_add rho k) (ptr_add u k) (ptr_add X0 (k * nsp)) nsp nel lewis M a
      (ptr_add X1 (k * nsp)) (ptr_add T k) verbose i w =
    rhou_call_at solve rho u X0 nsp nel lewis M a X1 T verbose (i + k) w"
  by (simp add: rhou_call_at_def index_def ptr_add_shift [OF assms(2-4)]
      ptr_add_offset_shift [OF assms])

lemma batch_rhou_split:
  assumes "batch_fits N nsp" and "0 \<le> sint k" and "sint k \<le> sint N"
    and "batch_rhou solve k rho u X0 nsp nel lewis M a X1 T verbose w = Inr (0, w1)"
  shows "case batch_rhou solve (N - k) (ptr_add rho k) (ptr_add u k) (ptr_add X0 (k * nsp)) nsp nel
        lewis M a (ptr_add X1 (k * nsp)) (ptr_add T k) verbose w1 of
      Inl f \<Rightarrow> batch_rhou solve N rho u X0 nsp nel lewis M a X1 T verbose w = Inl f
    | Inr (r, w2) \<Rightarrow> (\<exists>w3. batch_rhou solve N rho u X0 nsp nel lewis M a X1 T verbose w = Inr (r, w3) \<and>
        (r = 0 \<and> w3 = w2 \<or>
         (\<exists>i. in_batch (N - k) i \<and> r \<noteq> 0 \<and>
            (\<exists>ws. w2 = printf ''Error in batch_rhou @ position: %d'' [i] ws \<and>
                  w3 = printf ''Error in batch_rhou @ position: %d'' [i + k] ws))))"
proof -
  have "batch_run (rhou_call_at solve (ptr_add rho k) (ptr_add u k) (ptr_add X0 (k * nsp)) nsp nel
        lewis M a (ptr_add X1 (k * nsp)) (ptr_add T k) verbose) batch_rhou_message (N - k) w1 =
      batch_run (\<lambda>i. rhou_call_at solve rho u X0 nsp nel lewis M a X1 T verbose (i + k))
        batch_rhou_message (N - k) w1"
    by (rule batch_run_cong) (rule rhou_call_at_shift [OF assms(1-3)])
  with batch_run_split [where call = "rhou_call_at solve rho u X0 nsp nel lewis M a X1 T verbose",
      OF assms(2,3) assms(4) [unfolded batch_rhou_batch_run]]
  show ?thesis
    unfolding batch_rhou_batch_run by simp
qed

end
