(* ===== verification/Batch_Rhou_Memory.thy ===== *)
theory Batch_Rhou_Memory
  imports Batch_Rhou
begin

text \<open>
  What \<^verbatim>\<open>batch_rhou\<close> does to memory, relative to the contracts of the solver. The
  call for input \<open>i\<close> writes slice \<open>i\<close> of \<open>X1\<close> and the cell \<^verbatim>\<open>T[i]\<close>, and it may read
  \<^verbatim>\<open>T[i]\<close> (the contract does not say that \<^verbatim>\<open>solve_rhou\<close> ignores the value it finds
  there). The sections follow \<open>Batch_Pt_Memory\<close>.
\<close>

section \<open>Footprints of one iteration\<close>

lemma rhou_outputs_at:
  "batch_fits N nsp \<Longrightarrow> in_batch N i \<Longrightarrow>
   rhou_outputs (ptr_add X1 (i * nsp)) (ptr_add T i) nsp = rhou_writes_at X1 T nsp i"
  by (simp add: rhou_outputs_def rhou_writes_at_def region_ptr_add_offset)

lemma rhou_writes_in_batch:
  assumes "batch_fits N nsp" and "in_batch N i"
  shows "rhou_writes_at X1 T nsp i \<subseteq> batch_rhou_outputs N X1 T nsp"
  using slice_in_batch [OF assms, of X1] cell_in_batch [OF assms(2), of T]
  by (auto simp: rhou_writes_at_def batch_rhou_outputs_def)

lemma rhou_reads_in_batch:
  assumes "batch_fits N nsp" and "in_batch N i"
  shows "rhou_reads_at rho u X0 nsp nel lewis M a T i \<subseteq>
    batch_rhou_inputs N rho u X0 nsp nel lewis M a \<union> batch_rhou_outputs N X1 T nsp"
proof -
  have "region (ptr_add X0 (i * nsp)) (sint nsp) \<subseteq> region X0 (sint N * sint nsp)"
    using assms by (simp add: region_ptr_add_offset slice_in_batch)
  moreover have "ptr_add rho i \<in> region rho (sint N)" "ptr_add u i \<in> region u (sint N)"
    "ptr_add T i \<in> region T (sint N)"
    using assms(2) by (rule cell_in_batch)+
  ultimately show ?thesis
    unfolding rhou_reads_at_def rhou_inputs_def batch_rhou_inputs_def batch_rhou_outputs_def
    by auto
qed

lemma rhou_cells_distinct:
  fixes i j :: c_int
  shows "i \<noteq> j \<Longrightarrow> ptr_add T i \<noteq> ptr_add T j"
  by (simp add: ptr_add_def sint_inject)

lemma rhou_separateD:
  assumes "batch_rhou_separate N rho u X0 nsp nel lewis M a X1 T"
  shows "region X1 (sint N * sint nsp) \<inter> region rho (sint N) = {}"
    and "region X1 (sint N * sint nsp) \<inter> region u (sint N) = {}"
    and "region X1 (sint N * sint nsp) \<inter> region lewis (sint nsp * 3 * 9) = {}"
    and "region X1 (sint N * sint nsp) \<inter> region M (sint nsp) = {}"
    and "region X1 (sint N * sint nsp) \<inter> region a (sint nel * sint nsp) = {}"
    and "region X1 (sint N * sint nsp) \<inter> region T (sint N) = {}"
    and "region T (sint N) \<inter> region rho (sint N) = {}"
    and "region T (sint N) \<inter> region u (sint N) = {}"
    and "region T (sint N) \<inter> region lewis (sint nsp * 3 * 9) = {}"
    and "region T (sint N) \<inter> region M (sint nsp) = {}"
    and "region T (sint N) \<inter> region a (sint nel * sint nsp) = {}"
    and "region T (sint N) \<inter> region X0 (sint N * sint nsp) = {}"
    and "X0 \<noteq> X1 \<Longrightarrow> region X1 (sint N * sint nsp) \<inter> region X0 (sint N * sint nsp) = {}"
  using assms by (simp_all add: batch_rhou_separate_def disjoint_regions_iff)

lemma rhou_reads_slice:
  assumes "batch_rhou_separate N rho u X0 nsp nel lewis M a X1 T" and "batch_fits N nsp"
    and "in_batch N i" and "in_batch N j" and "i \<noteq> j"
  shows "rhou_reads_at rho u X0 nsp nel lewis M a T i \<inter> slice X1 (sint nsp) (sint j) = {}"
proof -
  note sep = rhou_separateD [OF assms(1)]
  have j: "slice X1 (sint nsp) (sint j) \<subseteq> region X1 (sint N * sint nsp)"
    using assms(2,4) by (rule slice_in_batch)
  have X0i: "region (ptr_add X0 (i * nsp)) (sint nsp) \<subseteq> region X0 (sint N * sint nsp)"
    using assms(2,3) by (simp add: region_ptr_add_offset slice_in_batch)
  have "region (ptr_add X0 (i * nsp)) (sint nsp) \<inter> slice X1 (sint nsp) (sint j) = {}"
  proof (cases "X0 = X1")
    case True
    with assms(2,3,5) show ?thesis
      by (simp add: region_ptr_add_offset slices_disjoint)
  next
    case False
    from sep(13) [OF this] X0i j show ?thesis by blast
  qed
  moreover have "ptr_add rho i \<in> region rho (sint N)" "ptr_add u i \<in> region u (sint N)"
    "ptr_add T i \<in> region T (sint N)"
    using assms(3) by (rule cell_in_batch)+
  ultimately show ?thesis
    using j sep(1-6) unfolding rhou_reads_at_def rhou_inputs_def region_1 by blast
qed

lemma rhou_reads_cell:
  assumes "batch_rhou_separate N rho u X0 nsp nel lewis M a X1 T" and "batch_fits N nsp"
    and "in_batch N i" and "in_batch N j" and "i \<noteq> j"
  shows "ptr_add T j \<notin> rhou_reads_at rho u X0 nsp nel lewis M a T i"
proof -
  have "ptr_add T j \<in> region T (sint N)"
    using assms(4) by (rule cell_in_batch)
  with rhou_separateD(7-12) [OF assms(1)]
  have notin: "ptr_add T j \<notin> region rho (sint N)" "ptr_add T j \<notin> region u (sint N)"
    "ptr_add T j \<notin> region lewis (sint nsp * 3 * 9)" "ptr_add T j \<notin> region M (sint nsp)"
    "ptr_add T j \<notin> region a (sint nel * sint nsp)" "ptr_add T j \<notin> region X0 (sint N * sint nsp)"
    unfolding disjoint_iff by blast+
  have "region (ptr_add X0 (i * nsp)) (sint nsp) \<subseteq> region X0 (sint N * sint nsp)"
    using assms(2,3) by (simp add: region_ptr_add_offset slice_in_batch)
  moreover have "ptr_add rho i \<in> region rho (sint N)" "ptr_add u i \<in> region u (sint N)"
    using assms(3) by (rule cell_in_batch)+
  moreover note rhou_cells_distinct [OF assms(5), of T]
  ultimately show ?thesis
    using notin unfolding rhou_reads_at_def rhou_inputs_def region_1
    by (auto simp del: in_region)
qed

lemma rhou_reads_separate:
  assumes "batch_rhou_separate N rho u X0 nsp nel lewis M a X1 T" and "batch_fits N nsp"
    and "in_batch N i" and "in_batch N j" and "i \<noteq> j"
  shows "rhou_reads_at rho u X0 nsp nel lewis M a T i \<inter> rhou_writes_at X1 T nsp j = {}"
  using rhou_reads_slice [OF assms] rhou_reads_cell [OF assms]
  unfolding rhou_writes_at_def region_1 disjoint_iff by auto

lemma rhou_cell_slice:
  assumes "batch_rhou_separate N rho u X0 nsp nel lewis M a X1 T" and "batch_fits N nsp"
    and "in_batch N i" and "in_batch N j"
  shows "ptr_add T i \<notin> slice X1 (sint nsp) (sint j)"
proof -
  have "slice X1 (sint nsp) (sint j) \<subseteq> region X1 (sint N * sint nsp)"
    using assms(2,4) by (rule slice_in_batch)
  moreover have "ptr_add T i \<in> region T (sint N)"
    using assms(3) by (rule cell_in_batch)
  ultimately show ?thesis
    using rhou_separateD(6) [OF assms(1)] unfolding disjoint_iff by blast
qed

lemma rhou_writes_disjoint:
  assumes "batch_rhou_separate N rho u X0 nsp nel lewis M a X1 T" and "batch_fits N nsp"
    and "in_batch N i" and "in_batch N j" and "i \<noteq> j"
  shows "rhou_writes_at X1 T nsp i \<inter> rhou_writes_at X1 T nsp j = {}"
  using slices_disjoint [OF assms(2,5), of X1] rhou_cells_distinct [OF assms(5), of T]
    rhou_cell_slice [OF assms(1-4)] rhou_cell_slice [OF assms(1,2,4,3)]
  unfolding rhou_writes_at_def region_1 disjoint_iff by auto

lemma rhou_call_at_cong:
  assumes "rhou_local solve" and "agree_on (rhou_reads_at rho u X0 nsp nel lewis M a T i) w1 w2"
    and "dom (heap w1) = dom (heap w2)"
  shows "outcome_rel (rhou_outputs (ptr_add X1 (i * nsp)) (ptr_add T i) nsp)
    (rhou_call_at solve rho u X0 nsp nel lewis M a X1 T verbose i w1)
    (rhou_call_at solve rho u X0 nsp nel lewis M a X1 T verbose i w2)"
proof -
  from assms(2) have rho: "index w1 rho i = index w2 rho i" and u: "index w1 u i = index w2 u i"
    by (simp_all add: rhou_reads_at_def index_def load_def)
  from assms(2)
  have "agree_on (rhou_inputs (ptr_add X0 (i * nsp)) nsp nel lewis M a \<union> region (ptr_add T i) 1) w1 w2"
    by (simp add: rhou_reads_at_def)
  note loc = rhou_localD [OF assms(1) this assms(3)]
  show ?thesis
    unfolding rhou_call_at_def rho u
    by (cases "index w2 rho i"; cases "index w2 u i") (simp_all add: loc)
qed

section \<open>The contracts of the calls of a batch\<close>

lemma rhou_call_frame:
  assumes "rhou_frame solve" and "batch_fits N nsp"
  shows "call_frame (rhou_call_at solve rho u X0 nsp nel lewis M a X1 T verbose)
    (rhou_writes_at X1 T nsp) N"
  unfolding call_frame_def
proof (intro allI impI, elim conjE)
  fix i w r w'
  assume inb: "in_batch N i"
    and "rhou_call_at solve rho u X0 nsp nel lewis M a X1 T verbose i w = Inr (r, w')"
  then obtain rhoi ui where solve:
    "solve rhoi ui (ptr_add X0 (i * nsp)) nsp nel lewis M a (ptr_add X1 (i * nsp)) (ptr_add T i)
       verbose w = Inr (r, w')"
    unfolding rhou_call_at_Inr by blast
  from rhou_frameD [where solve = solve, OF assms(1) solve]
  show "same_outside (rhou_writes_at X1 T nsp i) w w' \<and> extends_output w w'"
    by (simp add: rhou_outputs_at [OF assms(2) inb])
qed

lemma rhou_call_local:
  assumes "rhou_local solve" and "batch_fits N nsp"
  shows "call_local (rhou_call_at solve rho u X0 nsp nel lewis M a X1 T verbose)
    (rhou_reads_at rho u X0 nsp nel lewis M a T) (rhou_writes_at X1 T nsp) N"
  unfolding call_local_def
proof (intro allI impI, elim conjE)
  fix i and w1 w2 :: "'a world"
  assume "in_batch N i" and "agree_on (rhou_reads_at rho u X0 nsp nel lewis M a T i) w1 w2"
    and "dom (heap w1) = dom (heap w2)"
  with rhou_call_at_cong [OF assms(1), of rho u X0 nsp nel lewis M a T i w1 w2 X1 verbose]
  show "outcome_rel (rhou_writes_at X1 T nsp i)
      (rhou_call_at solve rho u X0 nsp nel lewis M a X1 T verbose i w1)
      (rhou_call_at solve rho u X0 nsp nel lewis M a X1 T verbose i w2)"
    by (simp add: rhou_outputs_at [OF assms(2)])
qed

lemma rhou_calls_separate:
  assumes "batch_rhou_separate N rho u X0 nsp nel lewis M a X1 T" and "batch_fits N nsp"
  shows "calls_separate (rhou_reads_at rho u X0 nsp nel lewis M a T) (rhou_writes_at X1 T nsp) N"
  unfolding calls_separate_def
  using rhou_reads_separate [OF assms] rhou_writes_disjoint [OF assms] by blast

lemma rhou_call_safe:
  assumes "rhou_safe solve" and "batch_fits N nsp"
  shows "call_safe (rhou_call_at solve rho u X0 nsp nel lewis M a X1 T verbose)
    (batch_rhou_inputs N rho u X0 nsp nel lewis M a \<union> batch_rhou_outputs N X1 T nsp) N"
  unfolding call_safe_def
proof (intro allI impI, elim conjE)
  fix i and w :: "'a world"
  assume inb: "in_batch N i"
    and alloc: "batch_rhou_inputs N rho u X0 nsp nel lewis M a \<union> batch_rhou_outputs N X1 T nsp
      \<subseteq> dom (heap w)"
  from alloc rhou_reads_in_batch [OF assms(2) inb, of rho u X0 nel lewis M a T X1]
  have reads: "rhou_reads_at rho u X0 nsp nel lewis M a T i \<subseteq> dom (heap w)" by blast
  then obtain rhoi ui where rhoi: "index w rho i = Inr rhoi" and ui: "index w u i = Inr ui"
    by (auto simp: rhou_reads_at_def index_def)
  from alloc rhou_writes_in_batch [OF assms(2) inb, of X1 T]
  have "rhou_writes_at X1 T nsp i \<subseteq> dom (heap w)" by blast
  with reads have "rhou_inputs (ptr_add X0 (i * nsp)) nsp nel lewis M a \<union>
      rhou_outputs (ptr_add X1 (i * nsp)) (ptr_add T i) nsp \<subseteq> dom (heap w)"
    by (simp add: rhou_reads_at_def rhou_outputs_at [OF assms(2) inb])
  from rhou_safeD [where solve = solve, OF assms(1) this] rhoi ui
  show "\<exists>r w'. rhou_call_at solve rho u X0 nsp nel lewis M a X1 T verbose i w = Inr (r, w')"
    by (simp add: rhou_call_at_def)
qed

lemma rhou_call_quiet:
  assumes "rhou_quiet solve" and "heap w1 = heap w2"
  shows "outcome_rel UNIV
    (rhou_call_at solve rho u X0 nsp nel lewis M a X1 T v1 i w1)
    (rhou_call_at solve rho u X0 nsp nel lewis M a X1 T v2 i w2)"
proof -
  from assms(2) have "index w1 rho i = index w2 rho i" and "index w1 u i = index w2 u i"
    by (simp_all add: index_def load_def)
  then show ?thesis
    unfolding rhou_call_at_def
    by (cases "index w2 rho i"; cases "index w2 u i") (simp_all add: rhou_quietD [OF assms])
qed

section \<open>Frame and absence of faults\<close>

text \<open>
  C17. Frame: with a solver that writes its output cells only, and a batch whose
  offsets fit in \<^verbatim>\<open>int\<close>, a call of \<^verbatim>\<open>batch_rhou\<close> that returns has changed no cell
  outside the \<open>N * nsp\<close> cells of \<open>X1\<close> and the \<open>N\<close> cells of \<open>T\<close>, has allocated and
  freed nothing, and has only appended to the output, whatever the status.
\<close>

theorem batch_rhou_frame:
  assumes "rhou_frame solve" and "batch_fits N nsp"
    and "batch_rhou solve N rho u X0 nsp nel lewis M a X1 T verbose w = Inr (r, w')"
  shows "same_outside (batch_rhou_outputs N X1 T nsp) w w' \<and> extends_output w w'"
proof -
  note run = assms(3) [unfolded batch_rhou_batch_run]
  note frame = rhou_call_frame [OF assms(1,2), of rho u X0 nel lewis M a X1 T verbose]
  from batch_run_frame [OF frame run rhou_writes_in_batch [OF assms(2)]]
  show ?thesis by (rule conjI)
qed

theorem batch_rhou_frame_witness:
  "\<exists>r w'. batch_rhou probe_solve_rhou 2 0 2 10 2 1 30 40 50 20 60 1 probe_world = Inr (r, w') \<and>
     same_outside (batch_rhou_outputs 2 20 60 2) probe_world w' \<and> extends_output probe_world w'"
proof -
  have "\<exists>r w'. batch_rhou probe_solve_rhou 2 0 2 10 2 1 30 40 50 20 60 1 probe_world = Inr (r, w')"
    by (simp add: batch_rhou_unfold for_loop.simps probe_eval)
  then obtain r w' where
    run: "batch_rhou probe_solve_rhou 2 0 2 10 2 1 30 40 50 20 60 1 probe_world = Inr (r, w')"
    by blast
  have "batch_fits 2 2" by (simp add: batch_fits_def)
  from batch_rhou_frame [OF probe_rhou_frame this run] run show ?thesis by blast
qed

text \<open>
  C18. No fault: with a solver that returns a status whenever its arrays are
  allocated and that writes its output cells only, a batch whose offsets fit in
  \<^verbatim>\<open>int\<close> and whose arrays are allocated with the sizes the comment of
  \<^verbatim>\<open>batch_rhou\<close> gives (\<open>rho\<close>, \<open>u\<close>, \<open>T\<close>: \<open>N\<close>; \<open>X0\<close>, \<open>X1\<close>: \<open>N * nsp\<close>; \<open>lewis\<close>:
  \<open>nsp * 3 * 9\<close>; \<open>M\<close>: \<open>nsp\<close>; \<open>a\<close>: \<open>nel * nsp\<close>) makes \<^verbatim>\<open>batch_rhou\<close> return a status: no
  read or write leaves the allocated cells.
\<close>

theorem batch_rhou_returns:
  fixes w :: "'d world"
  assumes "rhou_safe solve" and "rhou_frame solve" and "batch_fits N nsp"
    and "batch_rhou_inputs N rho u X0 nsp nel lewis M a \<union> batch_rhou_outputs N X1 T nsp
      \<subseteq> dom (heap w)"
  shows "\<exists>r w'. batch_rhou solve N rho u X0 nsp nel lewis M a X1 T verbose w = Inr (r, w')"
  unfolding batch_rhou_batch_run
  using rhou_call_safe [OF assms(1,3)] rhou_call_frame [OF assms(2,3)] assms(4)
  by (rule batch_run_returns)

theorem batch_rhou_returns_witness:
  "\<exists>r w'. batch_rhou probe_solve_rhou 2 0 2 10 1 1 30 57 58 20 60 0 probe_world = Inr (r, w')"
proof -
  have "batch_fits 2 1" by (simp add: batch_fits_def)
  moreover have "batch_rhou_inputs 2 0 2 10 1 1 30 57 58 \<union> batch_rhou_outputs 2 20 60 1
      \<subseteq> dom (heap probe_world)"
    by (auto simp: batch_rhou_inputs_def batch_rhou_outputs_def probe_world_def)
  ultimately show ?thesis
    by (rule batch_rhou_returns [OF probe_rhou_safe probe_rhou_frame])
qed

section \<open>Independence of the inputs\<close>

text \<open>
  C16. Independence of the inputs: assume the solver writes its output cells only
  and its outcome is a function of its input cells and of the cell \<open>T\<close> points to,
  the offsets fit in \<^verbatim>\<open>int\<close>, the arrays \<open>X1\<close> and \<open>T\<close> are separate from each other
  and from \<open>rho\<close>, \<open>u\<close>, \<open>lewis\<close>, \<open>M\<close> and \<open>a\<close>, \<open>T\<close> is separate from \<open>X0\<close>, and \<open>X1\<close> is
  separate from \<open>X0\<close> or equal to it. If \<^verbatim>\<open>batch_rhou\<close> returns 0, then for every
  input \<open>i\<close> the call for input \<open>i\<close> made directly on the initial world returns 0
  too, and slice \<open>i\<close> of \<open>X1\<close> and the cell \<^verbatim>\<open>T[i]\<close> in the final world are what that
  direct call writes.
\<close>

theorem batch_rhou_independent:
  assumes "rhou_frame solve" and "rhou_local solve"
    and "batch_rhou_separate N rho u X0 nsp nel lewis M a X1 T" and "batch_fits N nsp"
    and "batch_rhou solve N rho u X0 nsp nel lewis M a X1 T verbose w = Inr (0, w')"
    and "in_batch N i"
  shows "\<exists>wi. rhou_call_at solve rho u X0 nsp nel lewis M a X1 T verbose i w = Inr (0, wi) \<and>
    agree_on (rhou_writes_at X1 T nsp i) wi w'"
  using rhou_call_frame [OF assms(1,4)] rhou_call_local [OF assms(2,4)]
    rhou_calls_separate [OF assms(3,4)] assms(5) [unfolded batch_rhou_batch_run] assms(6)
  by (rule batch_run_independent)

theorem batch_rhou_independent_witness:
  "\<exists>wi w'. batch_rhou probe_solve_rhou 2 2 0 10 2 1 30 40 50 20 4 0 probe_world = Inr (0, w') \<and>
     rhou_call_at probe_solve_rhou 2 0 10 2 1 30 40 50 20 4 0 1 probe_world = Inr (0, wi) \<and>
     agree_on (rhou_writes_at 20 4 2 1) wi w'"
proof -
  have "\<exists>w'. batch_rhou probe_solve_rhou 2 2 0 10 2 1 30 40 50 20 4 0 probe_world = Inr (0, w')"
    by (simp add: batch_rhou_unfold for_loop.simps probe_eval)
  then obtain w' where
    run: "batch_rhou probe_solve_rhou 2 2 0 10 2 1 30 40 50 20 4 0 probe_world = Inr (0, w')" ..
  have sep: "batch_rhou_separate 2 2 0 10 2 1 30 40 50 20 4"
    by (simp add: batch_rhou_separate_def disjoint_regions_def)
  have fits: "batch_fits 2 2" by (simp add: batch_fits_def)
  have "in_batch 2 1" by (simp add: in_batch_def)
  from batch_rhou_independent [OF probe_rhou_frame probe_rhou_local sep fits run this] run
  show ?thesis by auto
qed

text \<open>
  C37. Results before a failure stay valid: under the same assumptions, if
  \<^verbatim>\<open>batch_rhou\<close> returns a status \<open>r\<close> other than 0, there is a position \<open>k\<close> whose
  direct call on the initial world returns \<open>r\<close>, and for every input \<open>i\<close> before \<open>k\<close>
  the direct call returns 0 and slice \<open>i\<close> of \<open>X1\<close> and the cell \<^verbatim>\<open>T[i]\<close> in the final
  world are what it writes.
\<close>

theorem batch_rhou_partial_valid:
  assumes "rhou_frame solve" and "rhou_local solve"
    and "batch_rhou_separate N rho u X0 nsp nel lewis M a X1 T" and "batch_fits N nsp"
    and "batch_rhou solve N rho u X0 nsp nel lewis M a X1 T verbose w = Inr (r, w')"
    and "r \<noteq> 0"
  shows "\<exists>k. in_batch N k \<and>
    (\<exists>wk. rhou_call_at solve rho u X0 nsp nel lewis M a X1 T verbose k w = Inr (r, wk)) \<and>
    (\<forall>i. in_batch k i \<longrightarrow>
       (\<exists>wi. rhou_call_at solve rho u X0 nsp nel lewis M a X1 T verbose i w = Inr (0, wi) \<and>
          agree_on (rhou_writes_at X1 T nsp i) wi w'))"
  using rhou_call_frame [OF assms(1,4)] rhou_call_local [OF assms(2,4)]
    rhou_calls_separate [OF assms(3,4)] assms(5) [unfolded batch_rhou_batch_run] assms(6)
  by (rule batch_run_partial_valid)

theorem batch_rhou_partial_valid_witness:
  "\<exists>k. in_batch 2 k \<and>
     (\<exists>wk. rhou_call_at probe_solve_rhou 0 2 20 2 1 30 40 50 20 4 0 k probe_world = Inr (3, wk)) \<and>
     (\<forall>i. in_batch k i \<longrightarrow>
        (\<exists>wi. rhou_call_at probe_solve_rhou 0 2 20 2 1 30 40 50 20 4 0 i probe_world = Inr (0, wi)))"
proof -
  have "\<exists>w'. batch_rhou probe_solve_rhou 2 0 2 20 2 1 30 40 50 20 4 0 probe_world = Inr (3, w')"
    by (simp add: batch_rhou_unfold for_loop.simps probe_eval)
  then obtain w' where
    run: "batch_rhou probe_solve_rhou 2 0 2 20 2 1 30 40 50 20 4 0 probe_world = Inr (3, w')" ..
  have sep: "batch_rhou_separate 2 0 2 20 2 1 30 40 50 20 4"
    by (simp add: batch_rhou_separate_def disjoint_regions_def)
  have fits: "batch_fits 2 2" by (simp add: batch_fits_def)
  from batch_rhou_partial_valid [OF probe_rhou_frame probe_rhou_local sep fits run] show ?thesis
    by (simp del: in_batch_numeral) blast
qed

section \<open>The flag \<^verbatim>\<open>verbose\<close>\<close>

text \<open>
  The flag \<^verbatim>\<open>verbose\<close> changes the output only: with a solver whose status and
  written cells do not depend on \<^verbatim>\<open>verbose\<close> nor on what has been printed before,
  two calls of \<^verbatim>\<open>batch_rhou\<close> that differ in \<^verbatim>\<open>verbose\<close> only fault alike or return
  the same status and leave the same memory.
\<close>

theorem batch_rhou_quiet:
  assumes "rhou_quiet solve"
  shows "outcome_rel UNIV
    (batch_rhou solve N rho u X0 nsp nel lewis M a X1 T v1 w)
    (batch_rhou solve N rho u X0 nsp nel lewis M a X1 T v2 w)"
  unfolding batch_rhou_batch_run
  by (rule batch_run_rel) (simp_all add: rhou_call_quiet [OF assms])

theorem batch_rhou_quiet_witness:
  "outcome_rel UNIV
    (batch_rhou probe_solve_rhou 2 0 2 10 2 1 30 40 50 20 60 0 probe_world)
    (batch_rhou probe_solve_rhou 2 0 2 10 2 1 30 40 50 20 60 1 probe_world) \<and>
   (\<exists>w'. batch_rhou probe_solve_rhou 2 0 2 10 2 1 30 40 50 20 60 1 probe_world = Inr (3, w') \<and>
      stdout w' = ''solve_rhousolve_rhouError in batch_rhou @ position: 1'')"
  using batch_rhou_quiet [OF probe_rhou_quiet, of 2 0 2 10 2 1 30 40 50 20 60 0 probe_world 1]
  by (simp add: batch_rhou_unfold for_loop.simps probe_eval)

section \<open>Refinement of the abstract batch\<close>

text \<open>
  C15. \<^verbatim>\<open>batch_rhou\<close> returns the first status other than 0. Let the status of input
  \<open>i\<close> be the status of the direct call for input \<open>i\<close> on the initial memory. With
  the contracts of the solver, offsets that fit in \<^verbatim>\<open>int\<close>, arrays allocated with
  the sizes of the comment and output arrays separate from each other and from
  the inputs (\<open>X1\<close> possibly equal to \<open>X0\<close>), \<^verbatim>\<open>batch_rhou\<close> returns, and its status
  is the status of the first input in \<open>0, \<dots>, N - 1\<close> whose status is not 0, or 0
  when there is none.
\<close>

theorem batch_rhou_first_failure:
  fixes w :: "'d world"
  assumes "rhou_safe solve" and "rhou_frame solve" and "rhou_local solve"
    and "batch_rhou_separate N rho u X0 nsp nel lewis M a X1 T" and "batch_fits N nsp"
    and "batch_rhou_inputs N rho u X0 nsp nel lewis M a \<union> batch_rhou_outputs N X1 T nsp
      \<subseteq> dom (heap w)"
  shows "\<exists>w'. batch_rhou solve N rho u X0 nsp nel lewis M a X1 T verbose w =
    Inr (status_of (first_failure
      (direct_status (rhou_call_at solve rho u X0 nsp nel lewis M a X1 T verbose) w)
      (indices_from 0 N)), w')"
  unfolding batch_rhou_batch_run
  using rhou_call_safe [OF assms(1,5)] assms(6) rhou_call_frame [OF assms(2,5)]
    rhou_call_local [OF assms(3,5)] rhou_calls_separate [OF assms(4,5)]
  by (rule batch_run_first_failure)

theorem batch_rhou_first_failure_witness:
  "first_failure
     (direct_status (rhou_call_at probe_solve_rhou 0 2 10 1 1 30 57 58 20 4 0) probe_world)
     [0, 1] = Some (1, 3) \<and>
   (\<exists>w'. batch_rhou probe_solve_rhou 2 0 2 10 1 1 30 57 58 20 4 0 probe_world = Inr (3, w'))"
proof -
  have "batch_rhou_separate 2 0 2 10 1 1 30 57 58 20 4"
    by (simp add: batch_rhou_separate_def disjoint_regions_def)
  moreover have "batch_fits 2 1" by (simp add: batch_fits_def)
  moreover have "batch_rhou_inputs 2 0 2 10 1 1 30 57 58 \<union> batch_rhou_outputs 2 20 4 1
      \<subseteq> dom (heap probe_world)"
    by (auto simp: batch_rhou_inputs_def batch_rhou_outputs_def probe_world_def)
  moreover have "indices_from 0 (2 :: c_int) = [0, 1]"
    by (simp add: indices_from_def upto.simps)
  moreover have "first_failure
      (direct_status (rhou_call_at probe_solve_rhou 0 2 10 1 1 30 57 58 20 4 0) probe_world) [0, 1]
      = Some (1, 3)"
    by (simp add: direct_status_def rhou_call_at_def probe_eval)
  ultimately show ?thesis
    using batch_rhou_first_failure [OF probe_rhou_safe probe_rhou_frame probe_rhou_local,
        of 2 0 2 10 1 1 30 57 58 20 4 probe_world 0]
    by (simp add: status_of_def)
qed

section \<open>Well-formed configurations\<close>

text \<open>
  As for \<^verbatim>\<open>batch_pt\<close>: every configuration the loop of \<^verbatim>\<open>batch_rhou\<close> reaches is
  well-formed, and is final or takes a step.
\<close>

lemma batch_rhou_configs_ok:
  fixes w :: "'d world"
  assumes "rhou_safe solve" and "rhou_frame solve" and "batch_fits N nsp"
    and "batch_rhou_inputs N rho u X0 nsp nel lewis M a \<union> batch_rhou_outputs N X1 T nsp
      \<subseteq> dom (heap w)"
    and "loop_steps (batch_rhou_body solve rho u X0 nsp nel lewis M a X1 T verbose) N (Running 0 w) c"
  shows "config_ok N w c \<and>
    (final c \<or> (\<exists>c'. loop_step (batch_rhou_body solve rho u X0 nsp nel lewis M a X1 T verbose) N c c'))"
  using rhou_call_safe [OF assms(1,3)] rhou_call_frame [OF assms(2,3)] assms(4)
    assms(5) [unfolded batch_rhou_body_eq]
  unfolding batch_rhou_body_eq by (rule batch_run_sound)

end
