(* ===== verification/Solver_Shell.thy ===== *)
theory Solver_Shell
  imports Solver_Interface
begin

text \<open>
  The shape the specification gives to a solve (section 5): the state of a call
  is its own, so a call reads its input arrays, computes, and writes its output
  arrays. \<open>solver_shell\<close> is that shape over any computation \<open>f\<close> on the values
  read: load the arrays \<open>ins\<close>, apply \<open>f\<close> to get a status, the values of the
  output arrays and a diagnostic text, store the values at \<open>outs\<close>, and append the
  text when \<^verbatim>\<open>verbose\<close> is set. The lemmas show that every function of this shape
  writes its output cells only, returns on allocated arrays, and has an outcome
  that depends on the cells it reads only and not on \<^verbatim>\<open>verbose\<close>: the contracts of
  \<open>Solver_Interface\<close> follow from the shape, whatever is computed.
\<close>

section \<open>Definitions\<close>

type_synonym 'd kernel = "'d list list \<Rightarrow> c_int \<times> 'd list list \<times> string"

fun load_arrays :: "'d world \<Rightarrow> (addr \<times> nat) list \<Rightarrow> fault + 'd list list" where
  "load_arrays w [] = Inr []"
| "load_arrays w ((p, n) # ps) =
     bind_res (load_array w p n) (\<lambda>xs. bind_res (load_arrays w ps) (\<lambda>xss. Inr (xs # xss)))"

fun store_arrays :: "(addr \<times> 'd list) list \<Rightarrow> 'd world \<Rightarrow> fault + 'd world" where
  "store_arrays [] w = Inr w"
| "store_arrays ((p, xs) # ps) w = bind_res (store_array p xs w) (store_arrays ps)"

definition read_cells :: "(addr \<times> nat) list \<Rightarrow> addr set" where
  "read_cells ins = (\<Union>(p, n)\<in>set ins. region p (int n))"

definition written_cells :: "(addr \<times> 'd list) list \<Rightarrow> addr set" where
  "written_cells outs = (\<Union>(p, xs)\<in>set outs. region p (int (length xs)))"

definition solver_shell ::
  "(addr \<times> nat) list \<Rightarrow> addr list \<Rightarrow> 'd kernel \<Rightarrow> c_int \<Rightarrow> 'd world \<Rightarrow> fault + (c_int \<times> 'd world)" where
  "solver_shell ins outs f verbose w =
     bind_res (load_arrays w ins) (\<lambda>xss.
       case f xss of (r, yss, msg) \<Rightarrow>
         bind_res (store_arrays (zip outs yss) w) (\<lambda>w'.
           Inr (r, if verbose = 0 then w' else w'\<lparr>stdout := stdout w' @ msg\<rparr>)))"

definition writes_exactly :: "(addr \<times> nat) list \<Rightarrow> addr set \<Rightarrow> addr list \<Rightarrow> 'd kernel \<Rightarrow> bool" where
  "writes_exactly ins W outs f \<longleftrightarrow>
     (\<forall>xss. map length xss = map snd ins \<longrightarrow> written_cells (zip outs (fst (snd (f xss)))) = W)"

section \<open>Loading and storing several arrays\<close>

lemma read_cells_Nil [simp]: "read_cells [] = {}"
  by (simp add: read_cells_def)

lemma read_cells_Cons [simp]: "read_cells ((p, n) # ps) = region p (int n) \<union> read_cells ps"
  by (simp add: read_cells_def)

lemma written_cells_Nil [simp]: "written_cells [] = {}"
  by (simp add: written_cells_def)

lemma written_cells_Cons [simp]:
  "written_cells ((p, xs) # ps) = region p (int (length xs)) \<union> written_cells ps"
  by (simp add: written_cells_def)

lemma load_arrays_cong_agree:
  "agree_on (read_cells ins) w w' \<Longrightarrow> load_arrays w ins = load_arrays w' ins"
  by (induction ins) (auto simp: load_array_cong_agree)

lemma load_arrays_lengths: "load_arrays w ins = Inr xss \<Longrightarrow> map length xss = map snd ins"
  by (induction ins arbitrary: xss) (auto simp: bind_res_eq_Inr load_array_length)

lemma load_arrays_allocated: "read_cells ins \<subseteq> dom (heap w) \<Longrightarrow> \<exists>xss. load_arrays w ins = Inr xss"
proof (induction ins)
  case Nil
  then show ?case by simp
next
  case (Cons pn ins)
  obtain p n where pn: "pn = (p, n)" by (cases pn)
  with Cons.prems have "allocated w p (int n)" and "read_cells ins \<subseteq> dom (heap w)"
    by (simp_all add: allocated_iff)
  with load_array_allocated [of w p n] Cons.IH show ?case
    by (auto simp: pn)
qed

lemma store_arrays_same_outside:
  "store_arrays outs w = Inr w' \<Longrightarrow> same_outside (written_cells outs) w w'"
proof (induction outs arbitrary: w)
  case Nil
  then show ?case by simp
next
  case (Cons pxs outs)
  obtain p xs where pxs: "pxs = (p, xs)" by (cases pxs)
  with Cons.prems obtain w1 where w1: "store_array p xs w = Inr w1"
    and rest: "store_arrays outs w1 = Inr w'"
    by (auto simp: bind_res_eq_Inr)
  from same_outside_trans [OF store_array_same_outside [OF w1] Cons.IH [OF rest]]
  show ?case by (simp add: pxs)
qed

lemma store_arrays_stdout: "store_arrays outs w = Inr w' \<Longrightarrow> stdout w' = stdout w"
proof (induction outs arbitrary: w)
  case Nil
  then show ?case by simp
next
  case (Cons pxs outs)
  obtain p xs where pxs: "pxs = (p, xs)" by (cases pxs)
  with Cons.prems obtain w1 where w1: "store_array p xs w = Inr w1"
    and rest: "store_arrays outs w1 = Inr w'"
    by (auto simp: bind_res_eq_Inr)
  from Cons.IH [OF rest] store_array_stdout [OF w1] show ?case by simp
qed

lemma store_arrays_allocated:
  "written_cells outs \<subseteq> dom (heap w) \<Longrightarrow> \<exists>w'. store_arrays outs w = Inr w'"
proof (induction outs arbitrary: w)
  case Nil
  then show ?case by simp
next
  case (Cons pxs outs)
  obtain p xs where pxs: "pxs = (p, xs)" by (cases pxs)
  with Cons.prems have "allocated w p (int (length xs))"
    by (simp add: allocated_iff)
  then obtain w1 where w1: "store_array p xs w = Inr w1"
    using store_array_allocated by blast
  from Cons.prems have "written_cells outs \<subseteq> dom (heap w1)"
    by (simp add: pxs same_outside_dom [OF store_array_same_outside [OF w1]])
  from Cons.IH [OF this] w1 show ?case
    by (simp add: pxs)
qed

lemma store_arrays_agree:
  assumes "agree_on S w1 w2" and "dom (heap w1) = dom (heap w2)"
  shows "case store_arrays outs w1 of
           Inl f \<Rightarrow> store_arrays outs w2 = Inl f
         | Inr w1' \<Rightarrow> (\<exists>w2'. store_arrays outs w2 = Inr w2' \<and>
             agree_on (S \<union> written_cells outs) w1' w2' \<and> dom (heap w1') = dom (heap w2'))"
  using assms
proof (induction outs arbitrary: w1 w2 S)
  case Nil
  then show ?case by simp
next
  case (Cons pxs outs)
  obtain p xs where pxs: "pxs = (p, xs)" by (cases pxs)
  note first = store_array_agree [OF Cons.prems, of p xs]
  show ?case
  proof (cases "store_array p xs w1")
    case (Inl f)
    with first show ?thesis unfolding pxs by simp
  next
    case (Inr v1)
    with first obtain v2 where v2: "store_array p xs w2 = Inr v2"
      and agree: "agree_on (S \<union> region p (int (length xs))) v1 v2"
      and dom: "dom (heap v1) = dom (heap v2)"
      by auto
    from Cons.IH [OF agree dom] Inr v2 show ?thesis
      unfolding pxs by (auto simp: Un_assoc split: sum.splits)
  qed
qed

section \<open>What the shape guarantees\<close>

lemma solver_shellE:
  assumes "solver_shell ins outs f verbose w = Inr (r, w')"
  obtains xss yss msg w1 where "load_arrays w ins = Inr xss" and "f xss = (r, yss, msg)"
    and "store_arrays (zip outs yss) w = Inr w1"
    and "w' = (if verbose = 0 then w1 else w1\<lparr>stdout := stdout w1 @ msg\<rparr>)"
proof -
  from assms obtain xss where xss: "load_arrays w ins = Inr xss"
    and rest: "(case f xss of (r, yss, msg) \<Rightarrow>
        bind_res (store_arrays (zip outs yss) w) (\<lambda>w'.
          Inr (r, if verbose = 0 then w' else w'\<lparr>stdout := stdout w' @ msg\<rparr>))) = Inr (r, w')"
    unfolding solver_shell_def bind_res_eq_Inr by blast
  obtain r0 yss msg where f: "f xss = (r0, yss, msg)"
    by (cases "f xss")
  with rest obtain w1 where "store_arrays (zip outs yss) w = Inr w1" and "r0 = r"
    and "w' = (if verbose = 0 then w1 else w1\<lparr>stdout := stdout w1 @ msg\<rparr>)"
    by (auto simp: bind_res_eq_Inr)
  with xss f show thesis
    by (intro that [of xss yss msg w1]) simp_all
qed

lemma writes_exactlyD:
  assumes "writes_exactly ins W outs f" and "load_arrays w ins = Inr xss" and "f xss = (r, yss, msg)"
  shows "written_cells (zip outs yss) = W"
  using assms load_arrays_lengths [OF assms(2)] unfolding writes_exactly_def by fastforce

lemma solver_shell_frame:
  assumes "writes_exactly ins W outs f" and "solver_shell ins outs f verbose w = Inr (r, w')"
  shows "same_outside W w w'" and "extends_output w w'"
proof -
  from assms(2) obtain xss yss msg w1 where xss: "load_arrays w ins = Inr xss"
    and f: "f xss = (r, yss, msg)" and w1: "store_arrays (zip outs yss) w = Inr w1"
    and w': "w' = (if verbose = 0 then w1 else w1\<lparr>stdout := stdout w1 @ msg\<rparr>)"
    by (rule solver_shellE)
  from store_arrays_same_outside [OF w1] show "same_outside W w w'"
    by (simp add: w' writes_exactlyD [OF assms(1) xss f])
  from store_arrays_stdout [OF w1] show "extends_output w w'"
    by (simp add: w' extends_output_def)
qed

lemma solver_shell_rel:
  assumes "writes_exactly ins W outs f" and "agree_on (S \<union> read_cells ins) w1 w2"
    and "dom (heap w1) = dom (heap w2)"
  shows "outcome_rel (S \<union> W) (solver_shell ins outs f v1 w1) (solver_shell ins outs f v2 w2)"
proof (cases "load_arrays w1 ins")
  case (Inl e)
  moreover from assms(2) have "load_arrays w2 ins = load_arrays w1 ins"
    by (intro load_arrays_cong_agree) (simp add: agree_on_sym)
  ultimately show ?thesis
    by (simp add: solver_shell_def)
next
  case (Inr xss)
  from assms(2) have w2: "load_arrays w2 ins = Inr xss"
    unfolding Inr [symmetric] by (intro load_arrays_cong_agree) (simp add: agree_on_sym)
  obtain r yss msg where f: "f xss = (r, yss, msg)"
    by (cases "f xss")
  from assms(2) have "agree_on S w1 w2" by simp
  note st = store_arrays_agree [OF this assms(3), of "zip outs yss"]
    and W = writes_exactlyD [OF assms(1) Inr f]
  show ?thesis
  proof (cases "store_arrays (zip outs yss) w1")
    case (Inl e)
    with st Inr w2 f show ?thesis
      by (simp add: solver_shell_def)
  next
    case v1: (Inr v1)
    with st W obtain v2 where "store_arrays (zip outs yss) w2 = Inr v2" and "agree_on (S \<union> W) v1 v2"
      by auto
    with v1 Inr w2 f show ?thesis
      by (simp add: solver_shell_def)
  qed
qed

lemma solver_shell_safe:
  assumes "writes_exactly ins W outs f" and "read_cells ins \<union> W \<subseteq> dom (heap w)"
  shows "\<exists>r w'. solver_shell ins outs f verbose w = Inr (r, w')"
proof -
  from assms(2) obtain xss where xss: "load_arrays w ins = Inr xss"
    using load_arrays_allocated [of ins w] by auto
  obtain r yss msg where f: "f xss = (r, yss, msg)"
    by (cases "f xss")
  from assms(2) have "written_cells (zip outs yss) \<subseteq> dom (heap w)"
    by (simp add: writes_exactlyD [OF assms(1) xss f])
  then obtain w1 where "store_arrays (zip outs yss) w = Inr w1"
    using store_arrays_allocated by blast
  with xss f show ?thesis
    by (simp add: solver_shell_def)
qed

end
