(* ===== verification/Composition.thy ===== *)
theory Composition
  imports Complex_Main
begin

text \<open>
  The data model of section 3 of the specification, over lists of reals. A
  composition is the list of the mole numbers \<open>n\<close> of the species (inside a
  solver) or of their mole fractions \<open>X\<close> (in the arrays \<open>X0\<close> and \<open>X1\<close>), with
  \<open>X\<^sub>s = n\<^sub>s / \<Sum>\<^sub>s n\<^sub>s\<close> (\<open>normalise\<close>). The composition matrix \<open>a\<close> is the flat
  \<open>[nel, nsp]\<close> array of \<^verbatim>\<open>src/ceq.c\<close>, stored by rows, and \<open>abundance A n e\<close> is the
  conserved quantity \<open>\<Sum>\<^sub>s a[e,s] * n\<^sub>s\<close> of element \<open>e\<close>.
  \<^item> \<open>mole_fractions\<close>: the invariant of a valid result, entries not negative
    and of sum 1 within \<open>1e-8\<close> (section 8);
  \<^item> \<open>conserves\<close>: the abundances of \<open>X1\<close> are those of \<open>X0\<close> within \<open>1e-6\<close>
    relative, for every element (section 8);
  \<^item> \<open>relative r b\<close>: the size of a residual \<open>r\<close> relative to the quantity \<open>b\<close>
    it is a residual of, and the absolute size where \<open>b\<close> is 0 (the specification
    does not say what a relative residual is there);
  \<^item> \<open>balanced tol\<close>: the abundances of the mole numbers \<open>n\<close> are those of \<open>X0\<close>
    with relative residuals below \<open>tol\<close> (the convergence test of section 4.2);
  \<^item> \<open>physical\<close>: mole numbers that are not negative and not all 0;
  \<^item> \<open>mean_molar_mass\<close>: the mean molar mass of a mixture given by mole
    fractions (section 4.3).

  The lemmas relate the two views. Normalising mole numbers gives mole
  fractions and divides every abundance by the total. So mole numbers that
  conserve the abundances give mole fractions whose abundances are those of the
  input only up to the ratio of the totals: \<open>conserves\<close>, read on mole fractions
  as section 8 states it, fails for a result with another total number of moles.
\<close>

section \<open>Definitions\<close>

definition mole_fractions :: "real list \<Rightarrow> bool" where
  "mole_fractions X \<longleftrightarrow> list_all (\<lambda>x. 0 \<le> x) X \<and> \<bar>sum_list X - 1\<bar> \<le> 1 / 10 ^ 8"

definition abundance :: "real list \<Rightarrow> real list \<Rightarrow> nat \<Rightarrow> real" where
  "abundance A X e = sum_list (map2 (*) (take (length X) (drop (e * length X) A)) X)"

definition conserves :: "nat \<Rightarrow> real list \<Rightarrow> real list \<Rightarrow> real list \<Rightarrow> bool" where
  "conserves nel A X0 X1 \<longleftrightarrow>
     list_all (\<lambda>e. \<bar>abundance A X1 e - abundance A X0 e\<bar> \<le> \<bar>abundance A X0 e\<bar> / 10 ^ 6) [0..<nel]"

definition relative :: "real \<Rightarrow> real \<Rightarrow> real" where
  "relative r b = (if b = 0 then \<bar>r\<bar> else \<bar>r\<bar> / \<bar>b\<bar>)"

definition balanced :: "real \<Rightarrow> nat \<Rightarrow> real list \<Rightarrow> real list \<Rightarrow> real list \<Rightarrow> bool" where
  "balanced tol nel A X0 n \<longleftrightarrow>
     list_all (\<lambda>e. relative (abundance A n e - abundance A X0 e) (abundance A X0 e) < tol) [0..<nel]"

definition physical :: "real list \<Rightarrow> bool" where
  "physical n \<longleftrightarrow> list_all (\<lambda>x. 0 \<le> x) n \<and> 0 < sum_list n"

definition normalise :: "real list \<Rightarrow> real list" where
  "normalise n = map (\<lambda>x. x / sum_list n) n"

definition mean_molar_mass :: "real list \<Rightarrow> real list \<Rightarrow> real" where
  "mean_molar_mass M X = sum_list (map2 (*) X M)"

section \<open>Sums\<close>

lemma sum_list_divide: "sum_list (map (\<lambda>x. x / c) xs) = sum_list xs / (c :: real)"
  by (induction xs) (simp_all add: add_divide_distrib)

lemma sum_list_nonneg_real: "list_all (\<lambda>x. 0 \<le> x) xs \<Longrightarrow> 0 \<le> (sum_list xs :: real)"
  by (induction xs) simp_all

lemma map2_times_divide:
  "map2 (*) xs (map (\<lambda>y. y / c) ys) = map (\<lambda>z. z / (c :: real)) (map2 (*) xs ys)"
  by (simp add: zip_map2 split_def)

section \<open>Residuals\<close>

lemma relative_nonneg [simp]: "0 \<le> relative r b"
  by (simp add: relative_def)

lemma relative_0 [simp]: "relative 0 b = 0"
  by (simp add: relative_def)

lemma relative_less_iff:
  "relative r b < tol \<longleftrightarrow> (if b = 0 then \<bar>r\<bar> < tol else \<bar>r\<bar> < tol * \<bar>b\<bar>)"
  by (simp add: relative_def pos_divide_less_eq)

lemma balanced_refl [simp]: "0 < tol \<Longrightarrow> balanced tol nel A X X"
  by (simp add: balanced_def list_all_iff)

lemma balancedD:
  assumes "balanced tol nel A X0 n" and "e < nel"
  shows "relative (abundance A n e - abundance A X0 e) (abundance A X0 e) < tol"
    and "abundance A X0 e \<noteq> 0 \<Longrightarrow> \<bar>abundance A n e - abundance A X0 e\<bar> < tol * \<bar>abundance A X0 e\<bar>"
    and "abundance A X0 e = 0 \<Longrightarrow> \<bar>abundance A n e\<bar> < tol"
proof -
  from assms show rel: "relative (abundance A n e - abundance A X0 e) (abundance A X0 e) < tol"
    by (simp add: balanced_def list_all_iff)
  from rel show "\<bar>abundance A n e - abundance A X0 e\<bar> < tol * \<bar>abundance A X0 e\<bar>"
    if "abundance A X0 e \<noteq> 0" using that by (simp add: relative_less_iff)
  from rel show "\<bar>abundance A n e\<bar> < tol" if "abundance A X0 e = 0"
    using that by (simp add: relative_less_iff)
qed

section \<open>Mole numbers and mole fractions\<close>

lemma conserves_refl [simp]: "conserves nel A X X"
  by (simp add: conserves_def list_all_iff)

lemma length_normalise [simp]: "length (normalise n) = length n"
  by (simp add: normalise_def)

lemma sum_list_normalise: "sum_list n \<noteq> 0 \<Longrightarrow> sum_list (normalise n) = 1"
  by (simp add: normalise_def sum_list_divide)

lemma normalise_unit [simp]: "sum_list n = 1 \<Longrightarrow> normalise n = n"
  by (simp add: normalise_def)

lemma abundance_normalise: "abundance A (normalise n) e = abundance A n e / sum_list n"
  unfolding abundance_def normalise_def map2_times_divide length_map by (rule sum_list_divide)

lemma mole_fractions_normalise:
  assumes "list_all (\<lambda>x. 0 \<le> x) n" and "0 < sum_list n"
  shows "mole_fractions (normalise n)"
  using assms by (simp add: mole_fractions_def sum_list_normalise) (simp add: normalise_def list_all_iff)

lemma mole_fractionsD:
  assumes "mole_fractions X"
  shows "list_all (\<lambda>x. 0 \<le> x) X" and "0 < sum_list X" and "sum_list X \<noteq> 0"
proof -
  from assms show "list_all (\<lambda>x. 0 \<le> x) X"
    by (simp add: mole_fractions_def)
  from assms have "\<bar>sum_list X - 1\<bar> \<le> 1 / 10 ^ 8"
    by (simp only: mole_fractions_def)
  then have "1 - 1 / 10 ^ 8 \<le> sum_list X"
    by (simp only: abs_le_iff) linarith
  then show "0 < sum_list X" and "sum_list X \<noteq> 0"
    by simp_all
qed

lemma mole_fractions_physical: "mole_fractions X \<Longrightarrow> physical X"
  by (simp add: physical_def mole_fractionsD)

lemma physical_normalise: "physical n \<Longrightarrow> mole_fractions (normalise n)"
  by (simp add: physical_def mole_fractions_normalise)

text \<open>
  An element that no species contains has abundance 0 in every composition:
  the input that section 8 proposes for the injection of a failure, a matrix
  with a row of zeros for an element of nonzero abundance, does not exist.
\<close>

lemma abundance_zero_row:
  assumes "list_all (\<lambda>x. x = 0) (take (length X) (drop (e * length X) A))"
  shows "abundance A X e = 0"
proof -
  have "sum_list (map2 (*) as X) = 0" if "list_all (\<lambda>x. x = 0) as" for as :: "real list"
    using that by (induction as arbitrary: X) (auto simp: zip_Cons1 split: list.splits)
  with assms show ?thesis
    by (simp add: abundance_def)
qed

text \<open>
  Mole numbers with the abundances of the input whose mole fractions do not
  have them: one element, two species with 2 and 1 atoms of it; one mole of the
  first species becomes two moles of the second.
\<close>

lemma fractions_not_conserved:
  "balanced (1 / 10 ^ 6) 1 [2, 1] [1, 0] [0, 2] \<and> \<not> conserves 1 [2, 1] [1, 0] (normalise [0, 2])"
  by (simp add: balanced_def conserves_def abundance_def normalise_def)

text \<open>
  With the same total number of moles the two readings agree.
\<close>

lemma balanced_conserves:
  assumes "balanced tol nel A X0 n" and "sum_list n = 1" and "tol \<le> 1 / 10 ^ 6"
    and "\<And>e. e < nel \<Longrightarrow> abundance A X0 e \<noteq> 0"
  shows "conserves nel A X0 (normalise n)"
  unfolding conserves_def list_all_iff
proof
  fix e assume "e \<in> set [0..<nel]"
  then have e: "e < nel" by simp
  from balancedD(2) [OF assms(1) e assms(4) [OF e]]
  have "\<bar>abundance A n e - abundance A X0 e\<bar> < tol * \<bar>abundance A X0 e\<bar>" .
  also from assms(3) have "\<dots> \<le> (1 / 10 ^ 6) * \<bar>abundance A X0 e\<bar>"
    by (intro mult_right_mono) simp_all
  finally show "\<bar>abundance A (normalise n) e - abundance A X0 e\<bar> \<le> \<bar>abundance A X0 e\<bar> / 10 ^ 6"
    using assms(2) by simp
qed

end
