(* ===== verification/Convergence_Policy.thy ===== *)
theory Convergence_Policy
  imports Complex_Main
begin

text \<open>
  The convergence policy of section 4.4 of the specification: the values that
  configure the solvers, with no behaviour of their own. The record has the
  enumerated options of that section. The diagnostic sink receives the number
  of an iteration and its residual and gives the text to append to the
  diagnostic output; \<open>None\<close> is a policy without tracing. \<open>literature_policy\<close> has
  the values section 9 names as standard (tolerance \<open>1e-6\<close>, damping cap 2, trace
  threshold \<open>1e-10\<close>) and the cap of 50 iterations of section 4.2; the
  specification gives no value for the cap of the outer loop, which is its
  argument. \<open>policy_ok\<close> says that the values are usable: positive tolerances and
  caps.
\<close>

section \<open>Definitions\<close>

record policy =
  tolerance :: real
  max_inner_iter :: nat
  max_outer_iter :: nat
  damping_cap :: real
  trace_threshold :: real
  trace_sink :: "(nat \<Rightarrow> real \<Rightarrow> string) option"

definition literature_policy :: "nat \<Rightarrow> policy" where
  "literature_policy outer =
     \<lparr>tolerance = 1 / 10 ^ 6, max_inner_iter = 50, max_outer_iter = outer, damping_cap = 2,
      trace_threshold = 1 / 10 ^ 10, trace_sink = None\<rparr>"

definition policy_ok :: "policy \<Rightarrow> bool" where
  "policy_ok pol \<longleftrightarrow>
     0 < tolerance pol \<and> 0 < damping_cap pol \<and> 0 < trace_threshold pol \<and>
     0 < max_inner_iter pol \<and> 0 < max_outer_iter pol"

definition emit :: "policy \<Rightarrow> nat \<Rightarrow> real \<Rightarrow> string" where
  "emit pol k r = (case trace_sink pol of None \<Rightarrow> [] | Some sink \<Rightarrow> sink k r)"

section \<open>Facts\<close>

lemma literature_policy_ok [simp]: "policy_ok (literature_policy outer) \<longleftrightarrow> 0 < outer"
  by (simp add: policy_ok_def literature_policy_def)

lemma policy_okD:
  assumes "policy_ok pol"
  shows "0 < tolerance pol" and "0 < damping_cap pol" and "0 < trace_threshold pol"
    and "0 < max_inner_iter pol" and "0 < max_outer_iter pol"
  using assms by (simp_all add: policy_ok_def)

lemma emit_no_sink [simp]: "trace_sink pol = None \<Longrightarrow> emit pol k r = []"
  by (simp add: emit_def)

end
