(* ===== verification/Status_Codes.thy ===== *)
theory Status_Codes
  imports Ceq_Prelude
begin

text \<open>
  The statuses of a solve, from sections 6 and 7 of the specification: success
  and four kinds of failure. The functions of \<^verbatim>\<open>src/ceq.c\<close> pass a status on as an
  \<^verbatim>\<open>int\<close> and test it against 0 only; the specification asks that 0 is success and
  that the four kinds of failure have distinct codes other than 0, and leaves the
  numbers open. \<open>status_code\<close> numbers the kinds in the order of section 7;
  \<open>status_of_code\<close> reads a code back. The theorems about the solvers depend on
  the facts proved here and not on the numbers chosen; the numbers show only in
  the concrete runs.
\<close>

section \<open>Definitions\<close>

datatype status =
  Success | Convergence_Failure | Singular_System | Out_Of_Range_Temperature | Inconsistent_Input

fun status_code :: "status \<Rightarrow> c_int" where
  "status_code Success = 0"
| "status_code Convergence_Failure = 1"
| "status_code Singular_System = 2"
| "status_code Out_Of_Range_Temperature = 3"
| "status_code Inconsistent_Input = 4"

definition status_of_code :: "c_int \<Rightarrow> status option" where
  "status_of_code r =
     (if r = 0 then Some Success
      else if r = 1 then Some Convergence_Failure
      else if r = 2 then Some Singular_System
      else if r = 3 then Some Out_Of_Range_Temperature
      else if r = 4 then Some Inconsistent_Input
      else None)"

section \<open>Codes and kinds\<close>

lemma status_of_code_status_code [simp]: "status_of_code (status_code s) = Some s"
  by (cases s) (simp_all add: status_of_code_def)

lemma status_code_inject [simp]: "status_code s = status_code t \<longleftrightarrow> s = t"
  by (metis status_of_code_status_code option.inject)

lemma status_code_eq_0 [simp]: "status_code s = 0 \<longleftrightarrow> s = Success"
  using status_code_inject [of s Success] by simp

lemma status_of_code_eq_Some: "status_of_code r = Some s \<longleftrightarrow> r = status_code s"
  by (cases s) (auto simp: status_of_code_def split: if_splits)

lemma status_of_code_eq_None: "status_of_code r = None \<longleftrightarrow> (\<forall>s. r \<noteq> status_code s)"
  by (metis status_of_code_eq_Some not_Some_eq)

end
