(* ===== verification/Thermo_Evaluator.thy ===== *)
theory Thermo_Evaluator
  imports Complex_Main
begin

text \<open>
  The thermodynamic evaluator of section 4.1 of the specification. The table
  \<^verbatim>\<open>lewis\<close> of \<^verbatim>\<open>src/ceq.c\<close> holds, for each species, three lists of nine
  coefficients, one per temperature range (low, mid, high), species first:
  \<open>species_coeffs lewis s r\<close> is the list of species \<open>s\<close> for range \<open>r\<close>. The table
  does not hold the temperatures at which the ranges meet; they are the record
  \<open>ranges\<close> of the evaluator. \<open>select_range\<close> gives the range that contains a
  temperature, and none outside the supported domain; at a temperature where
  two ranges meet it gives the upper one. \<open>evaluate\<close> applies a property of one
  list of coefficients at the range of the temperature; under the policy
  \<open>Reject\<close>, the default, a temperature outside the domain has no value, under
  \<open>Clamp\<close> it is moved to the nearest end of the domain first.

  The properties are the non-dimensional \<open>Cp/R\<close>, \<open>H/RT\<close> and \<open>S/R\<close> in the
  nine-coefficient form of the report that the head of \<^verbatim>\<open>src/ceq.c\<close> cites
  (McBride, Zehe and Gordon, NASA/TP-2002-211556): seven coefficients of the
  powers \<open>T\<^sup>-\<^sup>2, \<dots>, T\<^sup>4\<close> of \<open>Cp/R\<close> and the two integration constants of \<open>H\<close> and
  \<open>S\<close>; \<open>G/RT\<close> is \<open>H/RT - S/R\<close>. The lemmas show which temperatures have a
  value, that the four functions of the contract agree with each other on them,
  and that the three polynomials are consistent: \<open>Cp\<close> is the derivative of \<open>H\<close>
  and \<open>Cp/T\<close> that of \<open>S\<close>. \<open>continuous_data\<close> is the check of section 4.1 on the
  data: the properties of adjoining ranges agree where the ranges meet.
\<close>

section \<open>Definitions\<close>

record ranges =
  T_min :: real
  T_low :: real
  T_high :: real
  T_max :: real

datatype range_policy = Reject | Clamp

definition ranges_ok :: "ranges \<Rightarrow> bool" where
  "ranges_ok rg \<longleftrightarrow> 0 < T_min rg \<and> T_min rg < T_low rg \<and> T_low rg < T_high rg \<and> T_high rg < T_max rg"

definition select_range :: "ranges \<Rightarrow> real \<Rightarrow> nat option" where
  "select_range rg T =
     (if T < T_min rg \<or> T_max rg < T then None
      else if T < T_low rg then Some 0
      else if T < T_high rg then Some 1
      else Some 2)"

definition species_coeffs :: "real list \<Rightarrow> nat \<Rightarrow> nat \<Rightarrow> real list" where
  "species_coeffs lewis s r = take 9 (drop ((s * 3 + r) * 9) lewis)"

definition cp_poly :: "real list \<Rightarrow> real \<Rightarrow> real" where
  "cp_poly c T =
     c ! 0 / T ^ 2 + c ! 1 / T + c ! 2 + c ! 3 * T + c ! 4 * T ^ 2 + c ! 5 * T ^ 3 + c ! 6 * T ^ 4"

definition h_poly :: "real list \<Rightarrow> real \<Rightarrow> real" where
  "h_poly c T =
     - (c ! 0) / T ^ 2 + c ! 1 * ln T / T + c ! 2 + c ! 3 * T / 2 + c ! 4 * T ^ 2 / 3 +
     c ! 5 * T ^ 3 / 4 + c ! 6 * T ^ 4 / 5 + c ! 7 / T"

definition s_poly :: "real list \<Rightarrow> real \<Rightarrow> real" where
  "s_poly c T =
     - (c ! 0) / (2 * T ^ 2) - c ! 1 / T + c ! 2 * ln T + c ! 3 * T + c ! 4 * T ^ 2 / 2 +
     c ! 5 * T ^ 3 / 3 + c ! 6 * T ^ 4 / 4 + c ! 8"

definition g_poly :: "real list \<Rightarrow> real \<Rightarrow> real" where
  "g_poly c T = h_poly c T - s_poly c T"

definition effective_temperature :: "range_policy \<Rightarrow> ranges \<Rightarrow> real \<Rightarrow> real" where
  "effective_temperature rp rg T =
     (case rp of Reject \<Rightarrow> T | Clamp \<Rightarrow> max (T_min rg) (min T (T_max rg)))"

definition evaluate ::
  "(real list \<Rightarrow> real \<Rightarrow> real) \<Rightarrow> range_policy \<Rightarrow> ranges \<Rightarrow> real list \<Rightarrow> nat \<Rightarrow> real \<Rightarrow> real option" where
  "evaluate f rp rg lewis s T =
     (let T' = effective_temperature rp rg T
      in map_option (\<lambda>r. f (species_coeffs lewis s r) T') (select_range rg T'))"

abbreviation cp :: "range_policy \<Rightarrow> ranges \<Rightarrow> real list \<Rightarrow> nat \<Rightarrow> real \<Rightarrow> real option" where
  "cp \<equiv> evaluate cp_poly"

abbreviation enthalpy :: "range_policy \<Rightarrow> ranges \<Rightarrow> real list \<Rightarrow> nat \<Rightarrow> real \<Rightarrow> real option" where
  "enthalpy \<equiv> evaluate h_poly"

abbreviation entropy :: "range_policy \<Rightarrow> ranges \<Rightarrow> real list \<Rightarrow> nat \<Rightarrow> real \<Rightarrow> real option" where
  "entropy \<equiv> evaluate s_poly"

abbreviation gibbs :: "range_policy \<Rightarrow> ranges \<Rightarrow> real list \<Rightarrow> nat \<Rightarrow> real \<Rightarrow> real option" where
  "gibbs \<equiv> evaluate g_poly"

definition continuous_data ::
  "(real list \<Rightarrow> real \<Rightarrow> real) \<Rightarrow> real \<Rightarrow> ranges \<Rightarrow> real list \<Rightarrow> nat \<Rightarrow> bool" where
  "continuous_data f tol rg lewis s \<longleftrightarrow>
     \<bar>f (species_coeffs lewis s 0) (T_low rg) - f (species_coeffs lewis s 1) (T_low rg)\<bar> \<le> tol \<and>
     \<bar>f (species_coeffs lewis s 1) (T_high rg) - f (species_coeffs lewis s 2) (T_high rg)\<bar> \<le> tol"

section \<open>The range of a temperature\<close>

lemma select_range_None: "select_range rg T = None \<longleftrightarrow> T < T_min rg \<or> T_max rg < T"
  by (simp add: select_range_def)

lemma select_range_less_3: "select_range rg T = Some r \<Longrightarrow> r < 3"
  by (auto simp: select_range_def split: if_splits)

lemma select_range_Some:
  assumes "ranges_ok rg"
  shows "select_range rg T = Some r \<longleftrightarrow>
    (r = 0 \<and> T_min rg \<le> T \<and> T < T_low rg \<or> r = 1 \<and> T_low rg \<le> T \<and> T < T_high rg \<or>
     r = 2 \<and> T_high rg \<le> T \<and> T \<le> T_max rg)"
  using assms by (auto simp: select_range_def ranges_ok_def)

lemma length_species_coeffs:
  "(s * 3 + r + 1) * 9 \<le> length lewis \<Longrightarrow> length (species_coeffs lewis s r) = 9"
  by (simp add: species_coeffs_def)

lemma effective_temperature_Reject [simp]: "effective_temperature Reject rg T = T"
  by (simp add: effective_temperature_def)

lemma effective_temperature_inside:
  "T_min rg \<le> T \<Longrightarrow> T \<le> T_max rg \<Longrightarrow> effective_temperature rp rg T = T"
  by (cases rp) (simp_all add: effective_temperature_def)

lemma effective_temperature_Clamp:
  assumes "T_min rg \<le> T_max rg"
  shows "T_min rg \<le> effective_temperature Clamp rg T" and "effective_temperature Clamp rg T \<le> T_max rg"
  using assms by (simp_all add: effective_temperature_def)

section \<open>Which temperatures have a value\<close>

lemma evaluate_Reject_None: "evaluate f Reject rg lewis s T = None \<longleftrightarrow> T < T_min rg \<or> T_max rg < T"
  by (simp add: evaluate_def select_range_None)

lemma evaluate_Clamp_Some:
  assumes "T_min rg \<le> T_max rg"
  shows "\<exists>v. evaluate f Clamp rg lewis s T = Some v"
  using effective_temperature_Clamp [OF assms, of T]
  by (cases "select_range rg (effective_temperature Clamp rg T)")
    (simp_all add: evaluate_def select_range_None)

lemma evaluate_inside:
  assumes "T_min rg \<le> T" and "T \<le> T_max rg"
  shows "evaluate f rp rg lewis s T = evaluate f Reject rg lewis s T"
  by (simp add: evaluate_def effective_temperature_inside [OF assms])

lemma evaluate_defined_together:
  "evaluate f rp rg lewis s T = None \<longleftrightarrow> evaluate g rp rg lewis s T = None"
  by (simp add: evaluate_def Let_def)

lemma gibbs_enthalpy_entropy:
  "gibbs rp rg lewis s T = Some g \<longleftrightarrow>
   (\<exists>h e. enthalpy rp rg lewis s T = Some h \<and> entropy rp rg lewis s T = Some e \<and> g = h - e)"
  by (auto simp: evaluate_def Let_def g_poly_def)

lemma evaluate_at_boundary:
  assumes "ranges_ok rg" and "continuous_data f tol rg lewis s"
  shows "\<exists>v. evaluate f rp rg lewis s (T_low rg) = Some v \<and>
      \<bar>v - f (species_coeffs lewis s 0) (T_low rg)\<bar> \<le> tol"
    and "\<exists>v. evaluate f rp rg lewis s (T_high rg) = Some v \<and>
      \<bar>v - f (species_coeffs lewis s 1) (T_high rg)\<bar> \<le> tol"
  using assms
  by (simp_all add: evaluate_def effective_temperature_inside ranges_ok_def select_range_def
      continuous_data_def abs_minus_commute)

section \<open>Consistency of the three polynomials\<close>

lemma h_poly_times:
  assumes "t \<noteq> 0"
  shows "t * h_poly c t =
    - (c ! 0) / t + c ! 1 * ln t + c ! 2 * t + c ! 3 * t ^ 2 / 2 + c ! 4 * t ^ 3 / 3 +
    c ! 5 * t ^ 4 / 4 + c ! 6 * t ^ 5 / 5 + c ! 7"
  using assms by (simp add: h_poly_def field_simps power2_eq_square power3_eq_cube power4_eq_xxxx)
    (simp add: power_numeral_reduce)

lemma h_poly_derivative:
  assumes "0 < T"
  shows "((\<lambda>t. t * h_poly c t) has_real_derivative cp_poly c T) (at T)"
proof -
  let ?H = "\<lambda>t. - (c ! 0) / t + c ! 1 * ln t + c ! 2 * t + c ! 3 * t ^ 2 / 2 + c ! 4 * t ^ 3 / 3 +
    c ! 5 * t ^ 4 / 4 + c ! 6 * t ^ 5 / 5 + c ! 7"
  have deriv: "(?H has_real_derivative cp_poly c T) (at T)"
    unfolding cp_poly_def using assms
    by (auto intro!: derivative_eq_intros simp: field_simps power2_eq_square power3_eq_cube power4_eq_xxxx)
  have eq: "?H t = t * h_poly c t" if "t \<in> {0<..}" for t
    using that by (simp add: h_poly_times)
  from assms show ?thesis
    by (intro has_field_derivative_transform_within_open [OF deriv open_greaterThan _ eq]) simp_all
qed

lemma s_poly_derivative:
  assumes "0 < T"
  shows "(s_poly c has_real_derivative cp_poly c T / T) (at T)"
  unfolding s_poly_def cp_poly_def
  using assms by (auto intro!: derivative_eq_intros simp: field_simps power2_eq_square power3_eq_cube power4_eq_xxxx)

end
