(* ===== verification/Equilibrium_Solver.thy ===== *)
theory Equilibrium_Solver
  imports Composition Convergence_Policy Status_Codes Thermo_Evaluator
begin

text \<open>
  The equilibrium solver at given pressure and temperature, from section 4.2 of
  the specification: a damped Newton iteration on the mole numbers \<open>n\<close> and the
  element potentials \<open>\<pi>\<close>.
  \<^item> \<open>problem\<close> is what is fixed during a solve: the values \<open>gibbs(s,T)\<close>, the
    composition matrix, the abundances \<open>b\<close> of the initial composition and
    \<open>p / p_ref\<close>. \<open>iteration_state\<close> is the state of section 3.
  \<^item> \<open>chemical_potential\<close>, \<open>stationarity_residual\<close> and \<open>conservation_residual\<close>
    are the two residuals as the specification writes them; \<open>residual_norm\<close> is
    the largest of the relative conservation residuals and of the stationarity
    residuals of the active species, and \<open>converged\<close> the convergence test.
  \<^item> The corrections \<open>\<Delta>ln n\<close> and the new \<open>\<pi>\<close> come from the reduced linear
    system, which the specification describes but does not give: they are the
    parameter \<open>solve\<close> of type \<open>linear_solver\<close>, with \<open>None\<close> for a system that is
    singular.
  \<^item> \<open>damping_factor\<close> is the factor \<open>\<lambda>\<close> of the damping rule, \<open>damped_update\<close> the
    update of \<open>ln n\<close> for the active species, \<open>update_active\<close> the management of
    the active set, \<open>newton_step\<close> one iteration.
  \<^item> \<open>newton_loop\<close> is the iteration with its cap, and \<open>pt_core\<close> the whole solve:
    the check of the input, the evaluation of \<open>gibbs\<close>, the loop, and the mole
    fractions of the last iterate.

  The factor \<open>\<lambda>\<close> scales the corrections of \<open>ln n\<close>; the potentials that the
  linear system returns replace the old ones, as in the method of the report
  that \<^verbatim>\<open>src/ceq.c\<close> cites, where they are unknowns of the system and not
  corrections. The abundances \<open>b\<close> are computed from \<open>X0\<close> with the matrix of the
  call, so the second kind of inconsistent input of section 7, abundances that
  the species cannot have, does not arise.

  Where the specification is silent the model makes the simplest choice, and
  no lemma depends on it: the stationarity residual is taken as it is (it is
  already relative to \<open>RT\<close>); an inactive species is held at the value it has and
  is favourable again when its stationarity residual is negative; the iteration
  starts with \<open>\<pi> = 0\<close> and with the species above the trace threshold active.
\<close>

section \<open>Definitions\<close>

record problem =
  gibbs0 :: "real list"
  comp :: "real list"
  totals :: "real list"
  p_rel :: real

record iteration_state =
  moles :: "real list"
  potentials :: "real list"
  active :: "bool list"
  iterations :: nat
  settled :: bool

type_synonym linear_solver = "problem \<Rightarrow> iteration_state \<Rightarrow> (real list \<times> real list) option"

definition chemical_potential :: "problem \<Rightarrow> real list \<Rightarrow> nat \<Rightarrow> real" where
  "chemical_potential pb n s = gibbs0 pb ! s + ln (n ! s / sum_list n) + ln (p_rel pb)"

definition stationarity_residual :: "problem \<Rightarrow> real list \<Rightarrow> real list \<Rightarrow> nat \<Rightarrow> real" where
  "stationarity_residual pb n pot s =
     chemical_potential pb n s - (\<Sum>e\<leftarrow>[0..<length pot]. comp pb ! (e * length n + s) * pot ! e)"

definition conservation_residual :: "problem \<Rightarrow> real list \<Rightarrow> nat \<Rightarrow> real" where
  "conservation_residual pb n e = abundance (comp pb) n e - totals pb ! e"

definition active_species :: "iteration_state \<Rightarrow> nat list" where
  "active_species st = filter (\<lambda>s. active st ! s) [0..<length (moles st)]"

definition residual_norm :: "problem \<Rightarrow> iteration_state \<Rightarrow> real" where
  "residual_norm pb st =
     fold max
       (map (\<lambda>e. relative (conservation_residual pb (moles st) e) (totals pb ! e))
          [0..<length (totals pb)] @
        map (\<lambda>s. \<bar>stationarity_residual pb (moles st) (potentials st) s\<bar>) (active_species st))
       0"

definition converged :: "policy \<Rightarrow> problem \<Rightarrow> iteration_state \<Rightarrow> bool" where
  "converged pol pb st \<longleftrightarrow> residual_norm pb st < tolerance pol \<and> settled st"

fun damping_factor :: "real \<Rightarrow> real list \<Rightarrow> real" where
  "damping_factor cap [] = 1"
| "damping_factor cap (d # ds) = min (if cap < \<bar>d\<bar> then cap / \<bar>d\<bar> else 1) (damping_factor cap ds)"

definition damped_update :: "real \<Rightarrow> bool list \<Rightarrow> real list \<Rightarrow> real list \<Rightarrow> real list" where
  "damped_update lam act ds n =
     map (\<lambda>s. if act ! s then n ! s * exp (lam * ds ! s) else n ! s) [0..<length n]"

definition update_active :: "real \<Rightarrow> problem \<Rightarrow> real list \<Rightarrow> real list \<Rightarrow> bool list \<Rightarrow> bool list" where
  "update_active thr pb pot n act =
     map (\<lambda>s. if act ! s then thr * sum_list n \<le> n ! s else stationarity_residual pb n pot s < 0)
       [0..<length n]"

definition newton_step :: "policy \<Rightarrow> linear_solver \<Rightarrow> problem \<Rightarrow> iteration_state \<Rightarrow> iteration_state option" where
  "newton_step pol solve pb st =
     (case solve pb st of
        None \<Rightarrow> None
      | Some (ds, pot') \<Rightarrow>
          let lam = damping_factor (damping_cap pol) (map (\<lambda>s. ds ! s) (active_species st));
              n' = damped_update lam (active st) ds (moles st);
              act' = update_active (trace_threshold pol) pb pot' n' (active st)
          in Some \<lparr>moles = n', potentials = pot', active = act', iterations = Suc (iterations st),
                   settled = (act' = active st)\<rparr>)"

fun newton_loop ::
  "(iteration_state \<Rightarrow> bool) \<Rightarrow> (iteration_state \<Rightarrow> iteration_state option) \<Rightarrow>
   (iteration_state \<Rightarrow> string) \<Rightarrow> nat \<Rightarrow> iteration_state \<Rightarrow> status \<times> iteration_state \<times> string" where
  "newton_loop conv step report 0 st = (if conv st then Success else Convergence_Failure, st, [])"
| "newton_loop conv step report (Suc k) st =
     (if conv st then (Success, st, [])
      else case step st of
             None \<Rightarrow> (Singular_System, st, [])
           | Some st' \<Rightarrow> (case newton_loop conv step report k st' of (r, s, t) \<Rightarrow> (r, s, report st' @ t)))"

definition initial_state :: "policy \<Rightarrow> nat \<Rightarrow> real list \<Rightarrow> iteration_state" where
  "initial_state pol nel x0 =
     \<lparr>moles = x0, potentials = replicate nel 0,
      active = map (\<lambda>x. trace_threshold pol * sum_list x0 \<le> x) x0, iterations = 0, settled = False\<rparr>"

definition pt_problem :: "real list \<Rightarrow> real list \<Rightarrow> nat \<Rightarrow> real list \<Rightarrow> real \<Rightarrow> problem" where
  "pt_problem g A nel x0 pr =
     \<lparr>gibbs0 = g, comp = A, totals = map (abundance A x0) [0..<nel], p_rel = pr\<rparr>"

definition pt_iteration ::
  "policy \<Rightarrow> linear_solver \<Rightarrow> problem \<Rightarrow> nat \<Rightarrow> real list \<Rightarrow> status \<times> iteration_state \<times> string" where
  "pt_iteration pol solve pb nel x0 =
     newton_loop (converged pol pb) (newton_step pol solve pb)
       (\<lambda>s. emit pol (iterations s) (residual_norm pb s))
       (max_inner_iter pol) (initial_state pol nel x0)"

definition pt_core ::
  "policy \<Rightarrow> range_policy \<Rightarrow> ranges \<Rightarrow> real \<Rightarrow> linear_solver \<Rightarrow>
   real \<Rightarrow> real \<Rightarrow> real list \<Rightarrow> nat \<Rightarrow> real list \<Rightarrow> real list \<Rightarrow> real list \<Rightarrow>
   status \<times> real list \<times> string" where
  "pt_core pol rp rg p_ref solve p T x0 nel lewis M A =
     (if \<not> mole_fractions x0 then (Inconsistent_Input, x0, [])
      else case those (map (\<lambda>s. gibbs rp rg lewis s T) [0..<length x0]) of
             None \<Rightarrow> (Out_Of_Range_Temperature, x0, [])
           | Some g \<Rightarrow>
               (case pt_iteration pol solve (pt_problem g A nel x0 (p / p_ref)) nel x0 of
                  (r, s, t) \<Rightarrow> (r, normalise (moles s), t)))"

definition equilibrium :: "problem \<Rightarrow> real list \<Rightarrow> real list \<Rightarrow> bool" where
  "equilibrium pb n pot \<longleftrightarrow>
     list_all (\<lambda>e. conservation_residual pb n e = 0) [0..<length (totals pb)] \<and>
     list_all (\<lambda>s. stationarity_residual pb n pot s = 0) [0..<length n]"

section \<open>The damping rule\<close>

lemma damping_factor_pos: "0 < cap \<Longrightarrow> 0 < damping_factor cap ds"
  by (induction ds) (simp_all add: min_def)

lemma damping_factor_le_1: "damping_factor cap ds \<le> 1"
  by (induction ds) (simp_all add: min_def)

lemma damping_factor_le_member:
  "d \<in> set ds \<Longrightarrow> damping_factor cap ds \<le> (if cap < \<bar>d\<bar> then cap / \<bar>d\<bar> else 1)"
  by (induction ds) (auto simp: min_le_iff_disj)

lemma damping_factor_bound:
  assumes "0 < cap" and "d \<in> set ds"
  shows "\<bar>damping_factor cap ds * d\<bar> \<le> cap"
proof -
  have "damping_factor cap ds * \<bar>d\<bar> \<le> (if cap < \<bar>d\<bar> then cap / \<bar>d\<bar> else 1) * \<bar>d\<bar>"
    by (intro mult_right_mono damping_factor_le_member assms(2)) simp
  also from assms(1) have "\<dots> \<le> cap"
    by simp
  finally show ?thesis
    using damping_factor_pos [OF assms(1), of ds] by (simp add: abs_mult)
qed

lemma damping_factor_1: "(\<forall>d\<in>set ds. \<bar>d\<bar> \<le> cap) \<Longrightarrow> damping_factor cap ds = 1"
  by (induction ds) simp_all

lemma damping_factor_greatest:
  assumes "l \<le> 1" and "\<forall>d\<in>set ds. \<bar>l * d\<bar> \<le> cap"
  shows "l \<le> damping_factor cap ds"
  using assms(2)
proof (induction ds)
  case Nil
  with assms(1) show ?case by simp
next
  case (Cons x ds)
  then have IH: "l \<le> damping_factor cap ds" and x: "\<bar>l\<bar> * \<bar>x\<bar> \<le> cap"
    by (simp_all add: abs_mult)
  have "l \<le> cap / \<bar>x\<bar>" if "cap < \<bar>x\<bar>"
  proof -
    have "l * \<bar>x\<bar> \<le> \<bar>l\<bar> * \<bar>x\<bar>"
      by (intro mult_right_mono) simp_all
    with x have "l * \<bar>x\<bar> \<le> cap" by linarith
    moreover from that x have "0 < \<bar>x\<bar>"
      by (cases "x = 0") (simp_all add: abs_mult)
    ultimately show ?thesis by (simp add: pos_le_divide_eq)
  qed
  with IH assms(1) show ?case by simp
qed

section \<open>The update of the mole numbers\<close>

lemma length_damped_update [simp]: "length (damped_update lam act ds n) = length n"
  by (simp add: damped_update_def)

lemma nth_damped_update:
  "s < length n \<Longrightarrow>
   damped_update lam act ds n ! s = (if act ! s then n ! s * exp (lam * ds ! s) else n ! s)"
  by (simp add: damped_update_def)

lemma damped_update_sign:
  assumes "s < length n"
  shows "0 \<le> damped_update lam act ds n ! s \<longleftrightarrow> 0 \<le> n ! s"
    and "0 < damped_update lam act ds n ! s \<longleftrightarrow> 0 < n ! s"
  using assms by (simp_all add: nth_damped_update zero_le_mult_iff zero_less_mult_iff)

lemma physical_iff:
  "physical n \<longleftrightarrow> (\<forall>s<length n. 0 \<le> n ! s) \<and> (\<exists>s<length n. 0 < n ! s)"
proof (cases "\<forall>x\<in>set n. 0 \<le> x")
  case True
  then have "sum_list n = 0 \<longleftrightarrow> (\<forall>x\<in>set n. x = 0)" and "0 \<le> sum_list n"
    by (simp_all add: sum_list_nonneg_eq_0_iff sum_list_nonneg)
  with True have "0 < sum_list n \<longleftrightarrow> (\<exists>x\<in>set n. 0 < x)"
    by (auto simp: less_le)
  also have "\<dots> \<longleftrightarrow> (\<exists>s<length n. 0 < n ! s)"
    by (metis in_set_conv_nth)
  finally show ?thesis
    using True by (simp add: physical_def list_all_iff all_set_conv_all_nth)
next
  case False
  then show ?thesis
    by (auto simp: physical_def list_all_iff all_set_conv_all_nth)
qed

lemma physical_damped_update: "physical n \<Longrightarrow> physical (damped_update lam act ds n)"
  by (simp add: physical_iff damped_update_sign cong: conj_cong)

lemma physicalD:
  assumes "physical n"
  shows "list_all (\<lambda>x. 0 \<le> x) n" and "0 < sum_list n"
  using assms by (simp_all add: physical_def)

text \<open>
  The change of \<open>ln n\<close> of an active species in one update is \<open>\<lambda>\<close> times its
  correction, and with the factor of the damping rule it is at most the cap.
\<close>

lemma damped_update_ln:
  assumes "s < length n" and "act ! s" and "0 < n ! s"
  shows "ln (damped_update lam act ds n ! s) - ln (n ! s) = lam * ds ! s"
  using assms by (simp add: nth_damped_update ln_mult)

lemma damped_update_capped:
  assumes "0 < cap" and "s \<in> set (active_species st)" and "0 < moles st ! s"
  shows "\<bar>ln (damped_update (damping_factor cap (map (\<lambda>s. ds ! s) (active_species st)))
             (active st) ds (moles st) ! s) - ln (moles st ! s)\<bar> \<le> cap"
proof -
  from assms(2) have s: "s < length (moles st)" "active st ! s"
    by (simp_all add: active_species_def)
  from assms(2) have "ds ! s \<in> set (map (\<lambda>s. ds ! s) (active_species st))"
    by simp
  from damping_factor_bound [OF assms(1) this] show ?thesis
    by (simp add: damped_update_ln [OF s assms(3)])
qed

section \<open>One iteration\<close>

lemma newton_step_None: "newton_step pol solve pb st = None \<longleftrightarrow> solve pb st = None"
  by (simp add: newton_step_def Let_def split: option.splits)

lemma newton_stepE:
  assumes "newton_step pol solve pb st = Some st'"
  obtains ds pot where "solve pb st = Some (ds, pot)"
    and "moles st' = damped_update
      (damping_factor (damping_cap pol) (map (\<lambda>s. ds ! s) (active_species st))) (active st) ds (moles st)"
    and "potentials st' = pot" and "iterations st' = Suc (iterations st)"
    and "active st' = update_active (trace_threshold pol) pb pot (moles st') (active st)"
    and "settled st' \<longleftrightarrow> active st' = active st"
  using assms by (auto simp: newton_step_def Let_def split: option.splits)

lemma newton_step_moles:
  assumes "newton_step pol solve pb st = Some st'"
  shows "length (moles st') = length (moles st)" and "physical (moles st) \<Longrightarrow> physical (moles st')"
  using assms by (auto elim!: newton_stepE simp: physical_damped_update)

lemma newton_step_iterations:
  "newton_step pol solve pb st = Some st' \<Longrightarrow> iterations st' = Suc (iterations st)"
  by (erule newton_stepE)

section \<open>The iteration and its cap\<close>

lemmas newton_loop_splits = if_splits option.splits prod.splits

lemma newton_loop_converged: "conv st \<Longrightarrow> newton_loop conv step report k st = (Success, st, [])"
  by (cases k) simp_all

lemma newton_loop_invariant:
  assumes "newton_loop conv step report k st = (r, s, t)" and "P st"
    and "\<And>u u'. P u \<Longrightarrow> \<not> conv u \<Longrightarrow> step u = Some u' \<Longrightarrow> P u'"
  shows "P s"
  using assms(1,2)
proof (induction k arbitrary: st t)
  case 0
  then show ?case by (auto split: if_splits)
next
  case (Suc k)
  then show ?case
    by (auto split: newton_loop_splits intro: assms(3))
qed

lemma newton_loop_cases:
  assumes "newton_loop conv step report k st = (r, s, t)"
  shows "r = Success \<and> conv s \<or> r = Convergence_Failure \<and> \<not> conv s \<or>
    r = Singular_System \<and> \<not> conv s \<and> step s = None"
  using assms
proof (induction k arbitrary: st t)
  case 0
  then show ?case by (auto split: if_splits)
next
  case (Suc k)
  then show ?case
    by (auto split: newton_loop_splits)
qed

lemma newton_loop_count:
  assumes "newton_loop conv step report k st = (r, s, t)"
    and "\<And>u u'. step u = Some u' \<Longrightarrow> count u' = Suc (count u)"
  shows "count s \<le> count st + k" and "r = Convergence_Failure \<Longrightarrow> count s = count st + k"
  using assms(1)
proof (induction k arbitrary: st t)
  case 0
  {
    case 1
    then show ?case by (auto split: if_splits)
  next
    case 2
    then show ?case by (auto split: if_splits)
  }
next
  case (Suc k)
  {
    case 1
    with Suc.IH(1) show ?case
      by (fastforce split: newton_loop_splits dest: assms(2))
  next
    case 2
    with Suc.IH(2) show ?case
      by (fastforce split: newton_loop_splits dest: assms(2))
  }
qed

lemma newton_loop_report:
  assumes "newton_loop conv step report k st = (r, s, t)"
  shows "\<exists>t'. newton_loop conv step report' k st = (r, s, t')"
  using assms
proof (induction k arbitrary: st t)
  case 0
  then show ?case by (auto split: if_splits)
next
  case (Suc k)
  then show ?case
    by (fastforce split: newton_loop_splits)
qed

section \<open>The convergence test\<close>

lemma fold_max_ge_start: "a \<le> fold max xs (a :: real)"
  by (induction xs arbitrary: a) (auto intro: order_trans [OF max.cobounded2])

lemma fold_max_ge: "x \<in> set xs \<Longrightarrow> x \<le> fold max xs (a :: real)"
proof (induction xs arbitrary: a)
  case Nil
  then show ?case by simp
next
  case (Cons y xs)
  show ?case
  proof (cases "x = y")
    case True
    have "y \<le> max y a" by simp
    also have "\<dots> \<le> fold max xs (max y a)" by (rule fold_max_ge_start)
    finally show ?thesis using True by simp
  next
    case False
    with Cons show ?thesis by simp
  qed
qed

lemma residual_norm_conservation:
  assumes "e < length (totals pb)"
  shows "relative (conservation_residual pb (moles st) e) (totals pb ! e) \<le> residual_norm pb st"
  unfolding residual_norm_def using assms by (intro fold_max_ge) simp

lemma residual_norm_stationarity:
  assumes "s \<in> set (active_species st)"
  shows "\<bar>stationarity_residual pb (moles st) (potentials st) s\<bar> \<le> residual_norm pb st"
  unfolding residual_norm_def using assms by (intro fold_max_ge) simp

lemma converged_conserves:
  assumes "converged pol pb st" and "e < length (totals pb)"
  shows "relative (abundance (comp pb) (moles st) e - totals pb ! e) (totals pb ! e) < tolerance pol"
  using assms(1) residual_norm_conservation [OF assms(2), of st]
  by (simp add: converged_def conservation_residual_def)

section \<open>The whole solve\<close>

lemma those_eq_None: "those xs = None \<longleftrightarrow> None \<in> set xs"
  by (induction xs) (auto split: option.splits)

lemma initial_state_simps [simp]:
  "moles (initial_state pol nel x0) = x0" "iterations (initial_state pol nel x0) = 0"
  "\<not> settled (initial_state pol nel x0)"
  by (simp_all add: initial_state_def)

lemma pt_problem_simps [simp]:
  "comp (pt_problem g A nel x0 pr) = A" "length (totals (pt_problem g A nel x0 pr)) = nel"
  "e < nel \<Longrightarrow> totals (pt_problem g A nel x0 pr) ! e = abundance A x0 e"
  by (simp_all add: pt_problem_def)

lemma pt_core_inconsistent:
  "\<not> mole_fractions x0 \<Longrightarrow>
   pt_core pol rp rg p_ref solve p T x0 nel lewis M A = (Inconsistent_Input, x0, [])"
  by (simp add: pt_core_def)

lemma pt_core_out_of_range:
  assumes "mole_fractions x0" and "s < length x0" and "gibbs rp rg lewis s T = None"
  shows "pt_core pol rp rg p_ref solve p T x0 nel lewis M A = (Out_Of_Range_Temperature, x0, [])"
proof -
  from assms(2) have "gibbs rp rg lewis s T \<in> set (map (\<lambda>s. gibbs rp rg lewis s T) [0..<length x0])"
    by simp
  then have "those (map (\<lambda>s. gibbs rp rg lewis s T) [0..<length x0]) = None"
    unfolding those_eq_None assms(3) .
  with assms(1) show ?thesis
    by (simp add: pt_core_def)
qed

lemma pt_core_cases [consumes 1, case_names Inconsistent Out_Of_Range Iterated]:
  assumes "pt_core pol rp rg p_ref solve p T x0 nel lewis M A = (r, x1, t)"
  obtains "\<not> mole_fractions x0" and "r = Inconsistent_Input" and "x1 = x0" and "t = []"
  | "mole_fractions x0" and "those (map (\<lambda>s. gibbs rp rg lewis s T) [0..<length x0]) = None"
      and "r = Out_Of_Range_Temperature" and "x1 = x0" and "t = []"
  | g s where "mole_fractions x0"
      and "those (map (\<lambda>s. gibbs rp rg lewis s T) [0..<length x0]) = Some g"
      and "pt_iteration pol solve (pt_problem g A nel x0 (p / p_ref)) nel x0 = (r, s, t)"
      and "x1 = normalise (moles s)"
proof (cases "mole_fractions x0")
  case False
  with assms have "r = Inconsistent_Input" and "x1 = x0" and "t = []"
    by (simp_all add: pt_core_def)
  with False show thesis by (rule that(1))
next
  case valid: True
  show thesis
  proof (cases "those (map (\<lambda>s. gibbs rp rg lewis s T) [0..<length x0])")
    case None
    with assms valid have "r = Out_Of_Range_Temperature" and "x1 = x0" and "t = []"
      by (simp_all add: pt_core_def)
    with valid None show thesis by (rule that(2))
  next
    case (Some g)
    obtain r' s t' where run: "pt_iteration pol solve (pt_problem g A nel x0 (p / p_ref)) nel x0 = (r', s, t')"
      by (cases "pt_iteration pol solve (pt_problem g A nel x0 (p / p_ref)) nel x0")
    with assms valid Some have "r' = r" "t' = t" "x1 = normalise (moles s)"
      by (simp_all add: pt_core_def)
    with run valid Some show thesis
      by (intro that(3) [of g s]) simp_all
  qed
qed

lemma pt_iteration_moles:
  assumes "pt_iteration pol solve pb nel x0 = (r, s, t)"
  shows "length (moles s) = length x0" and "physical x0 \<Longrightarrow> physical (moles s)"
  using newton_loop_invariant [OF assms [unfolded pt_iteration_def], of "\<lambda>u. length (moles u) = length x0"]
    newton_loop_invariant [OF assms [unfolded pt_iteration_def], of "\<lambda>u. physical (moles u)"]
  by (simp_all add: newton_step_moles)

lemma pt_iteration_cases:
  assumes "pt_iteration pol solve pb nel x0 = (r, s, t)"
  shows "r = Success \<and> converged pol pb s \<or> r = Convergence_Failure \<and> \<not> converged pol pb s \<or>
    r = Singular_System \<and> \<not> converged pol pb s \<and> solve pb s = None"
  using newton_loop_cases [OF assms [unfolded pt_iteration_def]] by (simp add: newton_step_None)

lemma pt_core_length:
  assumes "pt_core pol rp rg p_ref solve p T x0 nel lewis M A = (r, x1, t)"
  shows "length x1 = length x0"
  using assms by (cases rule: pt_core_cases) (simp_all add: pt_iteration_moles)

lemma those_map_eq_None: "those (map f [0..<n]) = None \<longleftrightarrow> (\<exists>s<n. f s = None)"
  unfolding those_eq_None by (force simp: image_iff)

lemma pt_iteration_count:
  assumes "pt_iteration pol solve pb nel x0 = (r, s, t)"
  shows "iterations s \<le> max_inner_iter pol"
    and "r = Convergence_Failure \<Longrightarrow> iterations s = max_inner_iter pol"
  using newton_loop_count [OF assms [unfolded pt_iteration_def], of iterations]
  by (simp_all add: newton_step_iterations)

lemma pt_core_success:
  assumes "pt_core pol rp rg p_ref solve p T x0 nel lewis M A = (Success, x1, t)"
  obtains n where "x1 = normalise n" and "physical n" and "length n = length x0"
    and "mole_fractions x0" and "balanced (tolerance pol) nel A x0 n"
  using assms
proof (cases rule: pt_core_cases)
  case (Iterated g s)
  let ?pb = "pt_problem g A nel x0 (p / p_ref)"
  from pt_iteration_cases [OF Iterated(3)] have conv: "converged pol ?pb s" by simp
  have "balanced (tolerance pol) nel A x0 (moles s)"
    unfolding balanced_def list_all_iff using converged_conserves [OF conv] by simp
  moreover from Iterated(1) have "physical (moles s)"
    by (intro pt_iteration_moles(2) [OF Iterated(3)] mole_fractions_physical)
  ultimately show thesis
    using Iterated(1,4) pt_iteration_moles(1) [OF Iterated(3)] by (intro that [of "moles s"])
qed simp_all

text \<open>
  The failures of section 7 as the solve reports them: the input is checked
  first, then the temperature, and only the iteration reports a failure of
  convergence or a singular system.
\<close>

lemma mole_fractions_nonempty: "mole_fractions X \<Longrightarrow> X \<noteq> []"
  by (auto simp: mole_fractions_def)

lemma pt_core_status:
  assumes "pt_core pol rp rg p_ref solve p T x0 nel lewis M A = (r, x1, t)"
  shows "r = Inconsistent_Input \<longleftrightarrow> \<not> mole_fractions x0"
    and "r = Out_Of_Range_Temperature \<longleftrightarrow>
      mole_fractions x0 \<and> (\<exists>s<length x0. gibbs rp rg lewis s T = None)"
    and "r = Inconsistent_Input \<or> r = Out_Of_Range_Temperature \<Longrightarrow> x1 = x0"
proof -
  have "(r = Inconsistent_Input \<longleftrightarrow> \<not> mole_fractions x0) \<and>
    (r = Out_Of_Range_Temperature \<longleftrightarrow>
      mole_fractions x0 \<and> (\<exists>s<length x0. gibbs rp rg lewis s T = None)) \<and>
    (r = Inconsistent_Input \<or> r = Out_Of_Range_Temperature \<longrightarrow> x1 = x0)"
    using assms
  proof (cases rule: pt_core_cases)
    case Inconsistent
    then show ?thesis by simp
  next
    case Out_Of_Range
    then show ?thesis by (simp add: those_map_eq_None)
  next
    case (Iterated g s)
    from Iterated(2) have "\<not> (\<exists>s<length x0. gibbs rp rg lewis s T = None)"
      by (simp flip: those_map_eq_None)
    with Iterated(1) pt_iteration_cases [OF Iterated(3)] show ?thesis by auto
  qed
  then show "r = Inconsistent_Input \<longleftrightarrow> \<not> mole_fractions x0"
    and "r = Out_Of_Range_Temperature \<longleftrightarrow>
      mole_fractions x0 \<and> (\<exists>s<length x0. gibbs rp rg lewis s T = None)"
    and "r = Inconsistent_Input \<or> r = Out_Of_Range_Temperature \<Longrightarrow> x1 = x0"
    by blast+
qed

lemma pt_core_status_Reject:
  assumes "pt_core pol Reject rg p_ref solve p T x0 nel lewis M A = (r, x1, t)"
  shows "r = Out_Of_Range_Temperature \<longleftrightarrow> mole_fractions x0 \<and> (T < T_min rg \<or> T_max rg < T)"
  unfolding pt_core_status(2) [OF assms] evaluate_Reject_None
  using mole_fractions_nonempty [of x0] by auto

section \<open>Idempotence\<close>

text \<open>
  Section 8 asks that a solve which starts at an equilibrium converges at once.
  At mole numbers and potentials where both residuals are 0, a linear solver
  that returns no correction and an active set that stays as it is, the
  iteration stops after one step, with the mole numbers it started from; one
  step is needed because the active set has to be seen to be stable.
\<close>

lemma fold_max_zero: "\<forall>x\<in>set xs. x = 0 \<Longrightarrow> fold max xs (0 :: real) = 0"
  by (induction xs) simp_all

lemma residual_norm_equilibrium:
  assumes "equilibrium pb (moles st) (potentials st)"
  shows "residual_norm pb st = 0"
proof -
  from assms have "conservation_residual pb (moles st) e = 0" if "e < length (totals pb)" for e
    using that by (simp add: equilibrium_def list_all_iff)
  moreover from assms
  have "stationarity_residual pb (moles st) (potentials st) s = 0" if "s \<in> set (active_species st)" for s
    using that by (simp add: equilibrium_def list_all_iff active_species_def)
  ultimately show ?thesis
    unfolding residual_norm_def by (intro fold_max_zero) auto
qed

lemma damped_update_none:
  assumes "\<forall>s<length n. ds ! s = 0"
  shows "damped_update lam act ds n = n"
  using assms by (intro nth_equalityI) (simp_all add: nth_damped_update)

lemma newton_loop_one_step:
  assumes "\<not> conv st" and "step st = Some st'" and "conv st'"
  shows "newton_loop conv step report (Suc k) st = (Success, st', report st')"
  using assms by (simp add: newton_loop_converged)

lemma pt_iteration_idempotent:
  assumes "0 < max_inner_iter pol" and "0 < tolerance pol"
    and "solve pb (initial_state pol nel x0) = Some (ds, pot)" and "\<forall>s<length x0. ds ! s = 0"
    and "equilibrium pb x0 pot"
    and "update_active (trace_threshold pol) pb pot x0 (active (initial_state pol nel x0)) =
      active (initial_state pol nel x0)"
  obtains s where "pt_iteration pol solve pb nel x0 = (Success, s, emit pol 1 (residual_norm pb s))"
    and "moles s = x0" and "iterations s = 1"
proof -
  let ?st = "initial_state pol nel x0"
  define st' where "st' = \<lparr>moles = x0, potentials = pot, active = active ?st, iterations = 1, settled = True\<rparr>"
  from assms(3,4,6) have step: "newton_step pol solve pb ?st = Some st'"
    by (simp add: newton_step_def damped_update_none st'_def)
  from assms(5) have "residual_norm pb st' = 0"
    by (intro residual_norm_equilibrium) (simp add: st'_def)
  with assms(2) have conv: "converged pol pb st'"
    by (simp add: converged_def st'_def)
  have start: "\<not> converged pol pb ?st"
    by (simp add: converged_def)
  from assms(1) obtain k where "max_inner_iter pol = Suc k"
    by (cases "max_inner_iter pol") simp_all
  then have "pt_iteration pol solve pb nel x0 = (Success, st', emit pol 1 (residual_norm pb st'))"
    unfolding pt_iteration_def using newton_loop_one_step [where conv = "converged pol pb" and step = "newton_step pol solve pb",
        OF start step conv]
    by (simp add: st'_def)
  then show thesis
    by (rule that) (simp_all add: st'_def)
qed

lemma pt_core_idempotent:
  assumes "0 < max_inner_iter pol" and "0 < tolerance pol" and "mole_fractions x0"
    and "those (map (\<lambda>s. gibbs rp rg lewis s T) [0..<length x0]) = Some g"
    and "solve (pt_problem g A nel x0 (p / p_ref)) (initial_state pol nel x0) = Some (ds, pot)"
    and "\<forall>s<length x0. ds ! s = 0"
    and "equilibrium (pt_problem g A nel x0 (p / p_ref)) x0 pot"
    and "update_active (trace_threshold pol) (pt_problem g A nel x0 (p / p_ref)) pot x0
      (active (initial_state pol nel x0)) = active (initial_state pol nel x0)"
  shows "\<exists>r. pt_core pol rp rg p_ref solve p T x0 nel lewis M A = (Success, normalise x0, emit pol 1 r)"
proof -
  let ?pb = "pt_problem g A nel x0 (p / p_ref)"
  from assms(1,2,5-8) obtain s where
    "pt_iteration pol solve ?pb nel x0 = (Success, s, emit pol 1 (residual_norm ?pb s))"
    and "moles s = x0"
    by (rule pt_iteration_idempotent)
  with assms(3,4) show ?thesis
    by (auto simp: pt_core_def)
qed

end
