(* ===== verification/Energy_Outer_Loop.thy ===== *)
theory Energy_Outer_Loop
  imports Equilibrium_Solver
begin

text \<open>
  The solver at given density and internal energy, from section 4.3 of the
  specification: a search for the temperature at which the equilibrium
  composition has the target internal energy \<open>u\<close>. One trial at temperature \<open>T\<close>
  with the current composition \<open>X\<close> derives the pressure from the ideal-gas
  relation \<open>p = \<rho> R T / M(X)\<close> (\<open>ideal_gas_pressure\<close>), calls the solver at given
  pressure and temperature, and forms the residual \<open>u(T, X') - u\<close> of the
  composition \<open>X'\<close> it returns. A failure of the inner solve ends the search with
  that failure. The search has converged when the residual relative to \<open>u\<close> is
  below the tolerance; otherwise the next temperature is the Newton step
  \<open>T - r / Cv(T, X')\<close>, as long as the cap of the outer iteration allows.

  The inner solver is a parameter of \<open>outer_loop\<close> (a function of pressure,
  temperature and composition, as section 9 asks), and so are the internal
  energy and the heat capacity of a mixture, which the specification takes from
  the thermodynamic evaluator without giving the formulas. \<open>rhou_core\<close> is the
  search with \<open>pt_core\<close> inside.

  The lemmas follow a search trial by trial (\<open>trial_state\<close>, \<open>outer_loop_trial\<close>):
  the failure of the inner solve at any trial within the cap is the result, a
  trial within the tolerance is the result, and a search that would pass the cap
  fails to converge. For a mixture with the energy \<open>c T + e\<^sub>0\<close> and the heat
  capacity \<open>c\<close> the Newton step is exact (\<open>outer_loop_perfect_gas\<close>): the search
  ends at its second trial, at the temperature of the target energy.
\<close>

section \<open>Definitions\<close>

type_synonym inner_solver = "real \<Rightarrow> real \<Rightarrow> real list \<Rightarrow> status \<times> real list \<times> string"

record mixture =
  gas_constant :: real
  start_temperature :: real
  energy :: "real list \<Rightarrow> real list \<Rightarrow> real \<Rightarrow> real list \<Rightarrow> real"
  heat_capacity :: "real list \<Rightarrow> real list \<Rightarrow> real \<Rightarrow> real list \<Rightarrow> real"

definition ideal_gas_pressure :: "real \<Rightarrow> real \<Rightarrow> real list \<Rightarrow> real \<Rightarrow> real list \<Rightarrow> real" where
  "ideal_gas_pressure R rho M T X = rho * R * T / mean_molar_mass M X"

definition energy_converged :: "policy \<Rightarrow> real \<Rightarrow> real \<Rightarrow> bool" where
  "energy_converged pol u res \<longleftrightarrow> relative res u < tolerance pol"

fun outer_loop ::
  "policy \<Rightarrow> inner_solver \<Rightarrow> (real \<Rightarrow> real list \<Rightarrow> real) \<Rightarrow> (real \<Rightarrow> real list \<Rightarrow> real) \<Rightarrow>
   (real \<Rightarrow> real list \<Rightarrow> real) \<Rightarrow> real \<Rightarrow> nat \<Rightarrow> real \<Rightarrow> real list \<Rightarrow>
   status \<times> real list \<times> real \<times> string" where
  "outer_loop pol inner pressure en cv u 0 T X =
     (case inner (pressure T X) T X of (r, X', t) \<Rightarrow>
        if r \<noteq> Success then (r, X', T, t)
        else if energy_converged pol u (en T X' - u) then (Success, X', T, t)
        else (Convergence_Failure, X', T, t))"
| "outer_loop pol inner pressure en cv u (Suc k) T X =
     (case inner (pressure T X) T X of (r, X', t) \<Rightarrow>
        if r \<noteq> Success then (r, X', T, t)
        else if energy_converged pol u (en T X' - u) then (Success, X', T, t)
        else (case outer_loop pol inner pressure en cv u k (T - (en T X' - u) / cv T X') X' of
                (r', X'', T'', t') \<Rightarrow> (r', X'', T'', t @ t')))"

definition rhou_core ::
  "policy \<Rightarrow> range_policy \<Rightarrow> ranges \<Rightarrow> real \<Rightarrow> linear_solver \<Rightarrow> mixture \<Rightarrow>
   real \<Rightarrow> real \<Rightarrow> real list \<Rightarrow> nat \<Rightarrow> real list \<Rightarrow> real list \<Rightarrow> real list \<Rightarrow>
   status \<times> real list \<times> real \<times> string" where
  "rhou_core pol rp rg p_ref solve mx rho u x0 nel lewis M A =
     outer_loop pol (\<lambda>p T X. pt_core pol rp rg p_ref solve p T X nel lewis M A)
       (ideal_gas_pressure (gas_constant mx) rho M) (energy mx lewis M) (heat_capacity mx lewis M)
       u (max_outer_iter pol) (start_temperature mx) x0"

text \<open>
  The trials of a search as a sequence: \<open>trial_state \<dots> j T X\<close> is the temperature
  and the composition with which trial \<open>j\<close> of the search from \<open>(T, X)\<close> starts,
  when each of the trials before it succeeded without meeting the tolerance, and
  \<open>None\<close> when the search ends before trial \<open>j\<close>. \<open>rhou_trial\<close> is the sequence
  of \<open>rhou_core\<close>.
\<close>

fun trial_state ::
  "policy \<Rightarrow> inner_solver \<Rightarrow> (real \<Rightarrow> real list \<Rightarrow> real) \<Rightarrow> (real \<Rightarrow> real list \<Rightarrow> real) \<Rightarrow>
   (real \<Rightarrow> real list \<Rightarrow> real) \<Rightarrow> real \<Rightarrow> nat \<Rightarrow> real \<Rightarrow> real list \<Rightarrow> (real \<times> real list) option" where
  "trial_state pol inner pressure en cv u 0 T X = Some (T, X)"
| "trial_state pol inner pressure en cv u (Suc j) T X =
     (case inner (pressure T X) T X of (r, X', t) \<Rightarrow>
        if r = Success \<and> \<not> energy_converged pol u (en T X' - u)
        then trial_state pol inner pressure en cv u j (T - (en T X' - u) / cv T X') X'
        else None)"

definition rhou_trial ::
  "policy \<Rightarrow> range_policy \<Rightarrow> ranges \<Rightarrow> real \<Rightarrow> linear_solver \<Rightarrow> mixture \<Rightarrow>
   real \<Rightarrow> real \<Rightarrow> real list \<Rightarrow> nat \<Rightarrow> real list \<Rightarrow> real list \<Rightarrow> real list \<Rightarrow> nat \<Rightarrow>
   (real \<times> real list) option" where
  "rhou_trial pol rp rg p_ref solve mx rho u x0 nel lewis M A j =
     trial_state pol (\<lambda>p T X. pt_core pol rp rg p_ref solve p T X nel lewis M A)
       (ideal_gas_pressure (gas_constant mx) rho M) (energy mx lewis M) (heat_capacity mx lewis M)
       u j (start_temperature mx) x0"

section \<open>One trial\<close>

lemmas outer_loop_splits = if_splits prod.splits

lemma outer_loop_inner_failure:
  assumes "inner (pressure T X) T X = (r, X', t)" and "r \<noteq> Success"
  shows "outer_loop pol inner pressure en cv u k T X = (r, X', T, t)"
  using assms by (cases k) simp_all

lemma outer_loop_converged:
  assumes "inner (pressure T X) T X = (Success, X', t)" and "energy_converged pol u (en T X' - u)"
  shows "outer_loop pol inner pressure en cv u k T X = (Success, X', T, t)"
  using assms by (cases k) simp_all

lemma outer_loop_next:
  assumes "inner (pressure T X) T X = (Success, X', t)" and "\<not> energy_converged pol u (en T X' - u)"
  shows "outer_loop pol inner pressure en cv u (Suc k) T X =
    (case outer_loop pol inner pressure en cv u k (T - (en T X' - u) / cv T X') X' of
       (r', X'', T'', t') \<Rightarrow> (r', X'', T'', t @ t'))"
  using assms by simp

lemma outer_loop_unfold:
  "outer_loop pol inner pressure en cv u k T X =
     (case inner (pressure T X) T X of (r, X', t) \<Rightarrow>
        if r \<noteq> Success then (r, X', T, t)
        else if energy_converged pol u (en T X' - u) then (Success, X', T, t)
        else (case k of
                0 \<Rightarrow> (Convergence_Failure, X', T, t)
              | Suc k' \<Rightarrow>
                  (case outer_loop pol inner pressure en cv u k' (T - (en T X' - u) / cv T X') X' of
                     (r', X'', T'', t') \<Rightarrow> (r', X'', T'', t @ t'))))"
  by (cases k) (simp_all split: prod.splits)

lemma energy_converged_exact: "0 < tolerance pol \<Longrightarrow> energy_converged pol u 0"
  by (simp add: energy_converged_def)

section \<open>The search\<close>

text \<open>
  What a result of the search says: the composition and the temperature
  returned come from one inner solve at that temperature, and the status is
  success exactly when that solve succeeded and its energy residual passed the
  test; every failure is either the failure of that solve or the cap.
\<close>

lemma outer_loop_result:
  assumes "outer_loop pol inner pressure en cv u k T X = (r, X1, T1, t)"
  shows "\<exists>Xp t1.
      r = Success \<and> inner (pressure T1 Xp) T1 Xp = (Success, X1, t1) \<and>
        energy_converged pol u (en T1 X1 - u) \<or>
      r \<noteq> Success \<and> inner (pressure T1 Xp) T1 Xp = (r, X1, t1) \<or>
      r = Convergence_Failure \<and> inner (pressure T1 Xp) T1 Xp = (Success, X1, t1) \<and>
        \<not> energy_converged pol u (en T1 X1 - u)"
  using assms
proof (induction k arbitrary: T X t)
  case 0
  obtain r0 X' t0 where "inner (pressure T X) T X = (r0, X', t0)"
    by (cases "inner (pressure T X) T X")
  with 0 show ?case
    by (intro exI [of _ X] exI [of _ t0]) (auto split: if_splits)
next
  case (Suc k)
  obtain r0 X' t0 where inner: "inner (pressure T X) T X = (r0, X', t0)"
    by (cases "inner (pressure T X) T X")
  show ?case
  proof (cases "r0 = Success \<and> \<not> energy_converged pol u (en T X' - u)")
    case True
    with Suc.prems inner obtain t' where
      "outer_loop pol inner pressure en cv u k (T - (en T X' - u) / cv T X') X' = (r, X1, T1, t')"
      by (auto split: prod.splits)
    then show ?thesis by (rule Suc.IH)
  next
    case False
    with Suc.prems inner show ?thesis
      by (intro exI [of _ X] exI [of _ t0]) (auto split: if_splits)
  qed
qed

lemma outer_loop_length:
  assumes "outer_loop pol inner pressure en cv u k T X = (r, X1, T1, t)"
    and "\<And>p T X r X' t. inner p T X = (r, X', t) \<Longrightarrow> length X' = length X"
  shows "length X1 = length X"
  using assms(1)
proof (induction k arbitrary: T X t)
  case 0
  then show ?case
    by (auto split: outer_loop_splits dest: assms(2))
next
  case (Suc k)
  obtain r0 X' t0 where inner: "inner (pressure T X) T X = (r0, X', t0)"
    by (cases "inner (pressure T X) T X")
  show ?case
  proof (cases "r0 = Success \<and> \<not> energy_converged pol u (en T X' - u)")
    case True
    with Suc.prems inner obtain t' where
      "outer_loop pol inner pressure en cv u k (T - (en T X' - u) / cv T X') X' = (r, X1, T1, t')"
      by (auto split: prod.splits)
    then have "length X1 = length X'" by (rule Suc.IH)
    with assms(2) [OF inner] show ?thesis by simp
  next
    case False
    with Suc.prems inner assms(2) [OF inner] show ?thesis
      by (auto split: if_splits)
  qed
qed

lemma rhou_core_length:
  assumes "rhou_core pol rp rg p_ref solve mx rho u x0 nel lewis M A = (r, x1, T1, t)"
  shows "length x1 = length x0"
  using assms unfolding rhou_core_def by (rule outer_loop_length) (rule pt_core_length)

lemma rhou_core_success:
  assumes "rhou_core pol rp rg p_ref solve mx rho u x0 nel lewis M A = (Success, x1, T1, t)"
  obtains n where "x1 = normalise n" and "physical n"
    and "energy_converged pol u (energy mx lewis M T1 x1 - u)"
proof -
  from outer_loop_result [OF assms [unfolded rhou_core_def]] obtain Xp t1 where
    inner: "pt_core pol rp rg p_ref solve (ideal_gas_pressure (gas_constant mx) rho M T1 Xp) T1 Xp
      nel lewis M A = (Success, x1, t1)"
    and conv: "energy_converged pol u (energy mx lewis M T1 x1 - u)"
    by auto
  from inner obtain n where "x1 = normalise n" and "physical n"
    by (rule pt_core_success)
  with conv show thesis
    by (intro that)
qed

lemma rhou_core_failure:
  assumes "rhou_core pol rp rg p_ref solve mx rho u x0 nel lewis M A = (r, x1, T1, t)"
    and "r \<noteq> Success" and "r \<noteq> Convergence_Failure"
  obtains Xp t1 where
    "pt_core pol rp rg p_ref solve (ideal_gas_pressure (gas_constant mx) rho M T1 Xp) T1 Xp
      nel lewis M A = (r, x1, t1)"
  using outer_loop_result [OF assms(1) [unfolded rhou_core_def]] assms(2,3) by auto

text \<open>
  The round trip of section 8: started at the temperature of a known
  equilibrium, with the density and the energy of that state, the search
  returns the state after one inner solve.
\<close>

lemma ideal_gas_density:
  assumes "R \<noteq> 0" and "T \<noteq> 0" and "mean_molar_mass M X \<noteq> 0"
  shows "ideal_gas_pressure R (p * mean_molar_mass M X / (R * T)) M T X = p"
  using assms by (simp add: ideal_gas_pressure_def)

lemma outer_loop_fixed_point:
  assumes "inner (pressure T X) T X = (Success, X, t)" and "en T X = u" and "0 < tolerance pol"
  shows "outer_loop pol inner pressure en cv u k T X = (Success, X, T, t)"
  using assms by (intro outer_loop_converged) (simp_all add: energy_converged_exact)

lemma rhou_core_round_trip:
  assumes "pt_core pol rp rg p_ref solve p Ts x0 nel lewis M A = (Success, x0, t)"
    and "start_temperature mx = Ts" and "gas_constant mx \<noteq> 0" and "Ts \<noteq> 0"
    and "mean_molar_mass M x0 \<noteq> 0" and "0 < tolerance pol"
  shows "rhou_core pol rp rg p_ref solve mx (p * mean_molar_mass M x0 / (gas_constant mx * Ts))
    (energy mx lewis M Ts x0) x0 nel lewis M A = (Success, x0, Ts, t)"
  unfolding rhou_core_def assms(2)
  by (rule outer_loop_fixed_point) (simp_all add: ideal_gas_density assms)

section \<open>The search, trial by trial\<close>

text \<open>
  A search that reaches trial \<open>j\<close> within the cap goes on from the state of that
  trial with the iterations that are left; what the earlier trials traced comes
  first in the trace.
\<close>

lemma trial_state_Suc_eq_Some:
  "trial_state pol inner pressure en cv u (Suc j) T X = Some s \<longleftrightarrow>
   (\<exists>X' t. inner (pressure T X) T X = (Success, X', t) \<and> \<not> energy_converged pol u (en T X' - u) \<and>
      trial_state pol inner pressure en cv u j (T - (en T X' - u) / cv T X') X' = Some s)"
  by (auto split: prod.splits)

lemma outer_loop_trial:
  assumes "trial_state pol inner pressure en cv u j T X = Some (Tj, Xj)" and "j \<le> k"
  shows "\<exists>t. outer_loop pol inner pressure en cv u k T X =
    (case outer_loop pol inner pressure en cv u (k - j) Tj Xj of (r, X', T', t') \<Rightarrow> (r, X', T', t @ t'))"
  using assms
proof (induction j arbitrary: T X k)
  case 0
  then show ?case
    by (intro exI [of _ "[]"]) (simp split: prod.splits)
next
  case (Suc j)
  from Suc.prems(1) obtain X' t0 where inner: "inner (pressure T X) T X = (Success, X', t0)"
    and far: "\<not> energy_converged pol u (en T X' - u)"
    and rest: "trial_state pol inner pressure en cv u j (T - (en T X' - u) / cv T X') X' = Some (Tj, Xj)"
    unfolding trial_state_Suc_eq_Some by blast
  from Suc.prems(2) obtain k' where k: "k = Suc k'" and "j \<le> k'"
    by (cases k) simp_all
  from Suc.IH [OF rest this(2)] obtain t where
    "outer_loop pol inner pressure en cv u k' (T - (en T X' - u) / cv T X') X' =
      (case outer_loop pol inner pressure en cv u (k' - j) Tj Xj of (r, X', T', t') \<Rightarrow> (r, X', T', t @ t'))"
    by blast
  with inner far k show ?case
    by (intro exI [of _ "t0 @ t"]) (simp split: prod.splits)
qed

text \<open>
  Hence the three ways a search ends, each at the trial where it happens: a
  failure of the inner solve at a trial the search reaches is the result of the
  search, with the temperature of that trial; a trial that meets the tolerance
  is the result; and a search that would reach a trial beyond the cap fails to
  converge.
\<close>

lemma outer_loop_trial_failure:
  assumes "trial_state pol inner pressure en cv u j T X = Some (Tj, Xj)" and "j \<le> k"
    and "inner (pressure Tj Xj) Tj Xj = (r, X', t)" and "r \<noteq> Success"
  shows "\<exists>t'. outer_loop pol inner pressure en cv u k T X = (r, X', Tj, t')"
  using outer_loop_trial [OF assms(1,2)]
    outer_loop_inner_failure [where inner = inner and pressure = pressure, OF assms(3,4)]
  by auto

lemma outer_loop_trial_converged:
  assumes "trial_state pol inner pressure en cv u j T X = Some (Tj, Xj)" and "j \<le> k"
    and "inner (pressure Tj Xj) Tj Xj = (Success, X', t)"
    and "energy_converged pol u (en Tj X' - u)"
  shows "\<exists>t'. outer_loop pol inner pressure en cv u k T X = (Success, X', Tj, t')"
  using outer_loop_trial [OF assms(1,2)]
    outer_loop_converged [where inner = inner and pressure = pressure and en = en, OF assms(3,4)]
  by auto

lemma outer_loop_cap:
  assumes "trial_state pol inner pressure en cv u (Suc k) T X = Some s"
  shows "\<exists>X' T' t. outer_loop pol inner pressure en cv u k T X = (Convergence_Failure, X', T', t)"
  using assms
proof (induction k arbitrary: T X)
  case 0
  then show ?case
    unfolding trial_state_Suc_eq_Some by auto
next
  case (Suc k)
  from Suc.prems obtain X' t0 where inner: "inner (pressure T X) T X = (Success, X', t0)"
    and far: "\<not> energy_converged pol u (en T X' - u)"
    and rest: "trial_state pol inner pressure en cv u (Suc k) (T - (en T X' - u) / cv T X') X' = Some s"
    unfolding trial_state_Suc_eq_Some [of _ _ _ _ _ _ "Suc k"] by blast
  from Suc.IH [OF rest] inner far show ?case
    by auto
qed

lemma rhou_core_propagates:
  assumes "rhou_trial pol rp rg p_ref solve mx rho u x0 nel lewis M A j = Some (Tj, Xj)"
    and "j \<le> max_outer_iter pol"
    and "pt_core pol rp rg p_ref solve (ideal_gas_pressure (gas_constant mx) rho M Tj Xj) Tj Xj
      nel lewis M A = (r, x1, t)"
    and "r \<noteq> Success"
  shows "\<exists>t'. rhou_core pol rp rg p_ref solve mx rho u x0 nel lewis M A = (r, x1, Tj, t')"
  unfolding rhou_core_def
  by (rule outer_loop_trial_failure [OF assms(1) [unfolded rhou_trial_def] assms(2)]) (fact assms(3,4))+

lemma rhou_core_cap:
  assumes "rhou_trial pol rp rg p_ref solve mx rho u x0 nel lewis M A (Suc (max_outer_iter pol)) = Some s"
  shows "\<exists>x1 T1 t. rhou_core pol rp rg p_ref solve mx rho u x0 nel lewis M A =
    (Convergence_Failure, x1, T1, t)"
  using assms unfolding rhou_core_def rhou_trial_def by (rule outer_loop_cap)

section \<open>A calorically perfect mixture\<close>

text \<open>
  When the internal energy of the mixture is \<open>c T + e\<^sub>0\<close> and its heat capacity is
  \<open>c\<close>, the Newton step is exact: from any temperature \<open>T\<close> the step of a trial
  with residual \<open>c T + e\<^sub>0 - u\<close> lands on the temperature \<open>T\<^sub>s\<close> with
  \<open>c T\<^sub>s + e\<^sub>0 = u\<close>. A search that starts outside the tolerance therefore ends
  at its second trial, with \<open>T\<^sub>s\<close> and the composition of the inner solve there.
\<close>

lemma newton_step_exact:
  fixes c :: real
  assumes "en T X = c * T + e0" and "cv T X = c" and "c \<noteq> 0"
  shows "T - (en T X - (c * Ts + e0)) / cv T X = Ts"
  using assms by (simp add: field_simps)

lemma outer_loop_perfect_gas:
  assumes "\<And>T X. en T X = c * T + e0" and "\<And>T X. cv T X = c" and "c \<noteq> 0"
    and "inner (pressure T X) T X = (Success, Xa, ta)"
    and "\<not> energy_converged pol (c * Ts + e0) (c * T + e0 - (c * Ts + e0))"
    and "inner (pressure Ts Xa) Ts Xa = (Success, Xs, tb)"
    and "0 < tolerance pol"
  shows "outer_loop pol inner pressure en cv (c * Ts + e0) (Suc k) T X = (Success, Xs, Ts, ta @ tb)"
proof -
  let ?u = "c * Ts + e0"
  have conv: "outer_loop pol inner pressure en cv ?u k Ts Xa = (Success, Xs, Ts, tb)"
    using assms(6) by (rule outer_loop_converged) (simp add: assms(1,7) energy_converged_exact)
  have far: "\<not> energy_converged pol ?u (en T Xa - ?u)"
    using assms(5) by (simp add: assms(1))
  have "outer_loop pol inner pressure en cv ?u (Suc k) T X =
      (case outer_loop pol inner pressure en cv ?u k (T - (en T Xa - ?u) / cv T Xa) Xa of
         (r', X'', T'', t') \<Rightarrow> (r', X'', T'', ta @ t'))"
    using assms(4) far by (rule outer_loop_next)
  also have "\<dots> = (Success, Xs, Ts, ta @ tb)"
    unfolding newton_step_exact [of en T Xa c e0 cv, OF assms(1,2,3)] by (simp add: conv)
  finally show ?thesis .
qed

lemma rhou_core_perfect_gas:
  assumes "\<And>T X. energy mx lewis M T X = c * T + e0" and "\<And>T X. heat_capacity mx lewis M T X = c"
    and "c \<noteq> 0"
    and "pt_core pol rp rg p_ref solve
      (ideal_gas_pressure (gas_constant mx) rho M (start_temperature mx) x0) (start_temperature mx) x0
      nel lewis M A = (Success, xa, ta)"
    and "\<not> energy_converged pol (c * Ts + e0) (c * start_temperature mx + e0 - (c * Ts + e0))"
    and "pt_core pol rp rg p_ref solve (ideal_gas_pressure (gas_constant mx) rho M Ts xa) Ts xa
      nel lewis M A = (Success, xs, tb)"
    and "0 < tolerance pol" and "0 < max_outer_iter pol"
  shows "rhou_core pol rp rg p_ref solve mx rho (c * Ts + e0) x0 nel lewis M A =
    (Success, xs, Ts, ta @ tb)"
proof -
  from assms(8) obtain k where k: "max_outer_iter pol = Suc k"
    by (cases "max_outer_iter pol") simp_all
  show ?thesis
    unfolding rhou_core_def k
    by (rule outer_loop_perfect_gas [where c = c and ?e0.0 = e0, OF assms(1-3)]) (fact assms(4-7))+
qed

end
