(* ===== verification/Solver_Model.thy ===== *)
theory Solver_Model
  imports Solver_Shell Energy_Outer_Loop
begin

text \<open>
  The two solvers that \<^verbatim>\<open>src/ceq.c\<close> calls, as the specification describes them:
  the shape of \<open>Solver_Shell\<close> around a computation on the values of the input
  arrays. \<open>solve_pt_model core\<close> reads \<open>X0\<close>, the table \<open>lewis\<close>, \<open>M\<close> and \<open>a\<close> with
  the sizes of the comment of \<^verbatim>\<open>pt\<close>, applies \<open>core\<close>, writes the composition it
  returns to \<open>X1\<close> and returns the code of its status; \<open>solve_rhou_model\<close> also
  writes the temperature to the cell of \<open>T\<close>. On a failure the specification
  leaves the contents of the outputs open; the model writes what the
  computation returns in every case, so that the outputs are a function of the
  inputs. The computations meant are \<open>pt_core\<close> and \<open>rhou_core\<close> with a policy, a
  thermodynamic domain and a linear solver.

  The theorems discharge the contracts of \<open>Solver_Interface\<close> for every solver
  of this shape whose computation returns a composition as long as its input:
  the contracts are consequences of the design, and the theorems about
  \<^verbatim>\<open>batch_pt\<close> and \<^verbatim>\<open>batch_rhou\<close> apply to the solvers of the specification.
\<close>

section \<open>Definitions\<close>

type_synonym pt_core_fn =
  "real \<Rightarrow> real \<Rightarrow> real list \<Rightarrow> nat \<Rightarrow> real list \<Rightarrow> real list \<Rightarrow> real list \<Rightarrow> status \<times> real list \<times> string"

type_synonym rhou_core_fn =
  "real \<Rightarrow> real \<Rightarrow> real list \<Rightarrow> nat \<Rightarrow> real list \<Rightarrow> real list \<Rightarrow> real list \<Rightarrow>
   status \<times> real list \<times> real \<times> string"

definition solver_inputs :: "addr \<Rightarrow> c_int \<Rightarrow> c_int \<Rightarrow> addr \<Rightarrow> addr \<Rightarrow> addr \<Rightarrow> (addr \<times> nat) list" where
  "solver_inputs X0 nsp nel lewis M a =
     [(X0, nat (sint nsp)), (lewis, nat (sint nsp * 3 * 9)), (M, nat (sint nsp)),
      (a, nat (sint nel * sint nsp))]"

definition pt_kernel :: "pt_core_fn \<Rightarrow> real \<Rightarrow> real \<Rightarrow> c_int \<Rightarrow> real kernel" where
  "pt_kernel core p T nel xss =
     (case core p T (xss ! 0) (nat (sint nel)) (xss ! 1) (xss ! 2) (xss ! 3) of
        (r, x1, t) \<Rightarrow> (status_code r, [x1], t))"

definition rhou_kernel :: "rhou_core_fn \<Rightarrow> real \<Rightarrow> real \<Rightarrow> c_int \<Rightarrow> real kernel" where
  "rhou_kernel core rho u nel xss =
     (case core rho u (xss ! 0) (nat (sint nel)) (xss ! 1) (xss ! 2) (xss ! 3) of
        (r, x1, T1, t) \<Rightarrow> (status_code r, [x1, [T1]], t))"

definition solve_pt_model :: "pt_core_fn \<Rightarrow> real solve_pt_fn" where
  "solve_pt_model core p T X0 nsp nel lewis M a X1 verbose =
     solver_shell (solver_inputs X0 nsp nel lewis M a) [X1] (pt_kernel core p T nel) verbose"

definition solve_rhou_model :: "rhou_core_fn \<Rightarrow> real solve_rhou_fn" where
  "solve_rhou_model core rho u X0 nsp nel lewis M a X1 T verbose =
     solver_shell (solver_inputs X0 nsp nel lewis M a) [X1, T] (rhou_kernel core rho u nel) verbose"

definition pt_shaped :: "pt_core_fn \<Rightarrow> bool" where
  "pt_shaped core \<longleftrightarrow> (\<forall>p T x0 nel lewis M A. length (fst (snd (core p T x0 nel lewis M A))) = length x0)"

definition rhou_shaped :: "rhou_core_fn \<Rightarrow> bool" where
  "rhou_shaped core \<longleftrightarrow>
     (\<forall>rho u x0 nel lewis M A. length (fst (snd (core rho u x0 nel lewis M A))) = length x0)"

section \<open>Footprints\<close>

lemma rhou_inputs_pt_inputs: "rhou_inputs = pt_inputs"
  by (simp add: fun_eq_iff rhou_inputs_def pt_inputs_def)

lemma read_cells_solver_inputs [simp]:
  "read_cells (solver_inputs X0 nsp nel lewis M a) = pt_inputs X0 nsp nel lewis M a"
  by (simp add: solver_inputs_def pt_inputs_def Un_assoc)

lemma pt_kernel_writes:
  assumes "pt_shaped core"
  shows "writes_exactly (solver_inputs X0 nsp nel lewis M a) (pt_outputs X1 nsp) [X1]
    (pt_kernel core p T nel)"
  unfolding writes_exactly_def
proof (intro allI impI)
  fix xss :: "real list list"
  assume "map length xss = map snd (solver_inputs X0 nsp nel lewis M a)"
  then have "length (xss ! 0) = nat (sint nsp)"
    by (cases xss) (simp_all add: solver_inputs_def)
  with assms show "written_cells (zip [X1] (fst (snd (pt_kernel core p T nel xss)))) = pt_outputs X1 nsp"
    by (simp add: pt_kernel_def pt_shaped_def pt_outputs_def split: prod.splits) (metis fst_conv snd_conv region_nat)
qed

lemma rhou_kernel_writes:
  assumes "rhou_shaped core"
  shows "writes_exactly (solver_inputs X0 nsp nel lewis M a) (rhou_outputs X1 T nsp) [X1, T]
    (rhou_kernel core rho u nel)"
  unfolding writes_exactly_def
proof (intro allI impI)
  fix xss :: "real list list"
  assume "map length xss = map snd (solver_inputs X0 nsp nel lewis M a)"
  then have "length (xss ! 0) = nat (sint nsp)"
    by (cases xss) (simp_all add: solver_inputs_def)
  with assms show "written_cells (zip [X1, T] (fst (snd (rhou_kernel core rho u nel xss)))) =
      rhou_outputs X1 T nsp"
    by (simp add: rhou_kernel_def rhou_shaped_def rhou_outputs_def split: prod.splits)
      (metis fst_conv snd_conv region_nat)
qed

lemma pt_core_shaped [simp]: "pt_shaped (pt_core pol rp rg p_ref solve)"
  unfolding pt_shaped_def by (metis pt_core_length prod.collapse)

lemma rhou_core_shaped [simp]: "rhou_shaped (rhou_core pol rp rg p_ref solve mx)"
  unfolding rhou_shaped_def by (metis rhou_core_length prod.collapse)

section \<open>The contracts hold for the shape\<close>

lemma solve_pt_model_frame: "pt_shaped core \<Longrightarrow> pt_frame (solve_pt_model core)"
  unfolding pt_frame_def solve_pt_model_def
  by (blast intro: solver_shell_frame [OF pt_kernel_writes])

lemma solve_pt_model_safe: "pt_shaped core \<Longrightarrow> pt_safe (solve_pt_model core)"
  unfolding pt_safe_def solve_pt_model_def
  by (auto intro!: solver_shell_safe [OF pt_kernel_writes])

lemma solve_pt_model_local: "pt_shaped core \<Longrightarrow> pt_local (solve_pt_model core)"
  unfolding pt_local_def solve_pt_model_def
  using solver_shell_rel [OF pt_kernel_writes, where S = "{}"] by simp

lemma solve_pt_model_quiet: "pt_shaped core \<Longrightarrow> pt_quiet (solve_pt_model core)"
  unfolding pt_quiet_def solve_pt_model_def
  using solver_shell_rel [OF pt_kernel_writes, where S = UNIV] by simp

lemma solve_rhou_model_frame: "rhou_shaped core \<Longrightarrow> rhou_frame (solve_rhou_model core)"
  unfolding rhou_frame_def solve_rhou_model_def
  by (blast intro: solver_shell_frame [OF rhou_kernel_writes])

lemma solve_rhou_model_safe: "rhou_shaped core \<Longrightarrow> rhou_safe (solve_rhou_model core)"
  unfolding rhou_safe_def solve_rhou_model_def rhou_inputs_pt_inputs
  by (auto intro!: solver_shell_safe [OF rhou_kernel_writes])

lemma solve_rhou_model_local: "rhou_shaped core \<Longrightarrow> rhou_local (solve_rhou_model core)"
  unfolding rhou_local_def solve_rhou_model_def rhou_inputs_pt_inputs
  using solver_shell_rel [OF rhou_kernel_writes, where S = "{}"]
  by (simp add: agree_on_def)

lemma solve_rhou_model_quiet: "rhou_shaped core \<Longrightarrow> rhou_quiet (solve_rhou_model core)"
  unfolding rhou_quiet_def solve_rhou_model_def
  using solver_shell_rel [OF rhou_kernel_writes, where S = UNIV] by simp

section \<open>What a call returns\<close>

lemma load_solver_inputsE:
  assumes "load_arrays w (solver_inputs X0 nsp nel lewis M a) = Inr xss"
  obtains x0 lw m A where "xss = [x0, lw, m, A]"
    and "load_array w X0 (nat (sint nsp)) = Inr x0"
    and "load_array w lewis (nat (sint nsp * 3 * 9)) = Inr lw"
    and "load_array w M (nat (sint nsp)) = Inr m"
    and "load_array w a (nat (sint nel * sint nsp)) = Inr A"
  using assms unfolding solver_inputs_def by (auto simp: bind_res_eq_Inr)

lemma load_solver_inputsI:
  assumes "load_array w X0 (nat (sint nsp)) = Inr x0"
    and "load_array w lewis (nat (sint nsp * 3 * 9)) = Inr lw"
    and "load_array w M (nat (sint nsp)) = Inr m"
    and "load_array w a (nat (sint nel * sint nsp)) = Inr A"
  shows "load_arrays w (solver_inputs X0 nsp nel lewis M a) = Inr [x0, lw, m, A]"
  using assms by (simp add: solver_inputs_def)

lemma load_array_verbose:
  "load_array (if verbose = 0 then w else w\<lparr>stdout := stdout w @ msg\<rparr>) p n = load_array w p n"
  by (rule load_array_heap_cong) simp

lemma solve_pt_modelE:
  assumes "solve_pt_model core p T X0 nsp nel lewis M a X1 verbose w = Inr (r, w')"
  obtains x0 lw m A st x1 t where "load_array w X0 (nat (sint nsp)) = Inr x0"
    and "load_array w lewis (nat (sint nsp * 3 * 9)) = Inr lw"
    and "load_array w M (nat (sint nsp)) = Inr m"
    and "load_array w a (nat (sint nel * sint nsp)) = Inr A"
    and "core p T x0 (nat (sint nel)) lw m A = (st, x1, t)" and "r = status_code st"
    and "load_array w' X1 (length x1) = Inr x1"
proof -
  from assms obtain xss yss msg w1 where
    xss: "load_arrays w (solver_inputs X0 nsp nel lewis M a) = Inr xss"
    and f: "pt_kernel core p T nel xss = (r, yss, msg)"
    and w1: "store_arrays (zip [X1] yss) w = Inr w1"
    and w': "w' = (if verbose = 0 then w1 else w1\<lparr>stdout := stdout w1 @ msg\<rparr>)"
    unfolding solve_pt_model_def by (rule solver_shellE)
  from xss obtain x0 lw m A where loads: "xss = [x0, lw, m, A]"
    "load_array w X0 (nat (sint nsp)) = Inr x0" "load_array w lewis (nat (sint nsp * 3 * 9)) = Inr lw"
    "load_array w M (nat (sint nsp)) = Inr m" "load_array w a (nat (sint nel * sint nsp)) = Inr A"
    by (rule load_solver_inputsE)
  obtain st x1 t where core: "core p T x0 (nat (sint nel)) lw m A = (st, x1, t)"
    by (cases "core p T x0 (nat (sint nel)) lw m A")
  with f loads(1) have "r = status_code st" and yss: "yss = [x1]"
    by (simp_all add: pt_kernel_def)
  moreover from w1 yss have "load_array w1 X1 (length x1) = Inr x1"
    by (auto simp: bind_res_eq_Inr load_array_store_array)
  then have "load_array w' X1 (length x1) = Inr x1"
    unfolding w' load_array_verbose .
  ultimately show thesis
    using loads(2-5) core by (intro that)
qed

lemma solve_rhou_modelE:
  assumes "solve_rhou_model core rho u X0 nsp nel lewis M a X1 T verbose w = Inr (r, w')"
  obtains x0 lw m A st x1 T1 t where "load_array w X0 (nat (sint nsp)) = Inr x0"
    and "load_array w lewis (nat (sint nsp * 3 * 9)) = Inr lw"
    and "load_array w M (nat (sint nsp)) = Inr m"
    and "load_array w a (nat (sint nel * sint nsp)) = Inr A"
    and "core rho u x0 (nat (sint nel)) lw m A = (st, x1, T1, t)" and "r = status_code st"
    and "load w' T = Inr T1"
    and "T \<notin> region X1 (int (length x1)) \<Longrightarrow> load_array w' X1 (length x1) = Inr x1"
proof -
  from assms obtain xss yss msg w2 where
    xss: "load_arrays w (solver_inputs X0 nsp nel lewis M a) = Inr xss"
    and f: "rhou_kernel core rho u nel xss = (r, yss, msg)"
    and w2: "store_arrays (zip [X1, T] yss) w = Inr w2"
    and w': "w' = (if verbose = 0 then w2 else w2\<lparr>stdout := stdout w2 @ msg\<rparr>)"
    unfolding solve_rhou_model_def by (rule solver_shellE)
  from xss obtain x0 lw m A where loads: "xss = [x0, lw, m, A]"
    "load_array w X0 (nat (sint nsp)) = Inr x0" "load_array w lewis (nat (sint nsp * 3 * 9)) = Inr lw"
    "load_array w M (nat (sint nsp)) = Inr m" "load_array w a (nat (sint nel * sint nsp)) = Inr A"
    by (rule load_solver_inputsE)
  obtain st x1 T1 t where core: "core rho u x0 (nat (sint nel)) lw m A = (st, x1, T1, t)"
    by (cases "core rho u x0 (nat (sint nel)) lw m A")
  with f loads(1) have r: "r = status_code st" and yss: "yss = [x1, [T1]]"
    by (simp_all add: rhou_kernel_def)
  with w2 obtain w1 where w1: "store_array X1 x1 w = Inr w1" and T: "store_array T [T1] w1 = Inr w2"
    by (auto simp: bind_res_eq_Inr)
  from load_array_store_array [OF T] have "load_array w' T 1 = Inr [T1]"
    unfolding w' load_array_verbose by simp
  then have cell: "load w' T = Inr T1"
    by (auto simp: bind_res_eq_Inr)
  have "load_array w' X1 (length x1) = Inr x1" if "T \<notin> region X1 (int (length x1))"
  proof -
    from that have "region T (int (length [T1])) \<inter> region X1 (int (length x1)) = {}"
      by (auto simp: region_def)
    with store_array_same_outside [OF T]
    have "load_array w2 X1 (length x1) = load_array w1 X1 (length x1)"
      by (rule load_array_same_outside)
    with w1 show ?thesis
      unfolding w' load_array_verbose by (simp add: load_array_store_array)
  qed
  with loads(2-5) core r cell show thesis
    by (intro that)
qed

text \<open>
  The converse: on arrays that are loaded and an output that is allocated the
  call returns the code of the status of the computation and leaves its
  composition in \<open>X1\<close>.
\<close>

lemma solve_pt_model_returns:
  assumes "pt_shaped core" and "load_array w X0 (nat (sint nsp)) = Inr x0"
    and "load_array w lewis (nat (sint nsp * 3 * 9)) = Inr lw"
    and "load_array w M (nat (sint nsp)) = Inr m"
    and "load_array w a (nat (sint nel * sint nsp)) = Inr A"
    and "pt_outputs X1 nsp \<subseteq> dom (heap w)"
    and "core p T x0 (nat (sint nel)) lw m A = (st, x1, t)"
  obtains w' where "solve_pt_model core p T X0 nsp nel lewis M a X1 verbose w = Inr (status_code st, w')"
    and "load_array w' X1 (length x1) = Inr x1"
proof -
  from assms(1,7) load_array_length [OF assms(2)] have "length x1 = nat (sint nsp)"
    unfolding pt_shaped_def by (metis fst_conv snd_conv)
  with assms(6) have "written_cells [(X1, x1)] \<subseteq> dom (heap w)"
    by (simp add: pt_outputs_def)
  then obtain w1 where w1: "store_arrays [(X1, x1)] w = Inr w1"
    using store_arrays_allocated by blast
  let ?w' = "if verbose = 0 then w1 else w1\<lparr>stdout := stdout w1 @ t\<rparr>"
  from w1 assms(7) have "solve_pt_model core p T X0 nsp nel lewis M a X1 verbose w = Inr (status_code st, ?w')"
    by (simp add: solve_pt_model_def solver_shell_def pt_kernel_def load_solver_inputsI [OF assms(2-5)])
  moreover from w1 have "load_array ?w' X1 (length x1) = Inr x1"
    unfolding load_array_verbose by (auto simp: bind_res_eq_Inr load_array_store_array)
  ultimately show thesis
    by (rule that)
qed

lemma solve_rhou_model_returns:
  assumes "rhou_shaped core" and "load_array w X0 (nat (sint nsp)) = Inr x0"
    and "load_array w lewis (nat (sint nsp * 3 * 9)) = Inr lw"
    and "load_array w M (nat (sint nsp)) = Inr m"
    and "load_array w a (nat (sint nel * sint nsp)) = Inr A"
    and "rhou_outputs X1 T nsp \<subseteq> dom (heap w)"
    and "core rho u x0 (nat (sint nel)) lw m A = (st, x1, T1, t)"
  obtains w' where
    "solve_rhou_model core rho u X0 nsp nel lewis M a X1 T verbose w = Inr (status_code st, w')"
    and "load w' T = Inr T1"
    and "T \<notin> region X1 (sint nsp) \<Longrightarrow> load_array w' X1 (length x1) = Inr x1"
proof -
  from assms(1,7) load_array_length [OF assms(2)] have len: "length x1 = nat (sint nsp)"
    unfolding rhou_shaped_def by (metis fst_conv snd_conv)
  with assms(6) have "written_cells [(X1, x1), (T, [T1])] \<subseteq> dom (heap w)"
    by (simp add: rhou_outputs_def)
  then obtain w1 where w1: "store_arrays [(X1, x1), (T, [T1])] w = Inr w1"
    using store_arrays_allocated by blast
  let ?w' = "if verbose = 0 then w1 else w1\<lparr>stdout := stdout w1 @ t\<rparr>"
  from w1 assms(7)
  have run: "solve_rhou_model core rho u X0 nsp nel lewis M a X1 T verbose w = Inr (status_code st, ?w')"
    by (simp add: solve_rhou_model_def solver_shell_def rhou_kernel_def load_solver_inputsI [OF assms(2-5)])
  from run obtain x1' T1' where "load ?w' T = Inr T1'"
    and "T \<notin> region X1 (int (length x1')) \<Longrightarrow> load_array ?w' X1 (length x1') = Inr x1'"
    and "x1' = x1" and "T1' = T1"
    by (rule solve_rhou_modelE) (use assms(2-5,7) in simp)
  with run len show thesis
    by (intro that [of ?w']) simp_all
qed

end
