(* ===== verification/Model_Batch.thy ===== *)
theory Model_Batch
  imports Solver_Model Batch_Pt_Memory Batch_Rhou_Memory Ceq_Entry
begin

text \<open>
  The functions of \<^verbatim>\<open>src/ceq.c\<close> with the solvers of the specification in place
  of the solver parameter. The contracts that the theorems of \<open>Batch_Pt_Memory\<close>
  and \<open>Batch_Rhou_Memory\<close> assume are here discharged by \<open>Solver_Model\<close>, so the
  theorems of this theory have no hypothesis on the solver:
  \<^item> \<open>balanced_at\<close>: what a successful call leaves in \<open>X1\<close>, mole fractions that
    sum to 1, of mole numbers that have the element abundances of the input
    within the tolerance of the policy;
  \<^item> \<open>pt_row\<close>: the status code and the composition that the computation gives
    on the row \<open>i\<close> of the initial memory, the abstract view of one input of a
    batch, and \<open>pt_rows_failure\<close>, the first row whose code is not 0;
  \<^item> \<open>energy_at\<close>: what a successful call of the solver at given density and
    energy leaves in \<open>X1\<close> and \<open>T\<close>;
  \<^item> the batch returns the first code other than 0 of its rows, and after a
    batch that returned 0 every row of \<open>X1\<close> is balanced (and for
    \<^verbatim>\<open>batch_rhou\<close> has the target energy at the temperature stored in \<open>T\<close>);
  \<^item> the wrappers \<^verbatim>\<open>pt\<close> and \<^verbatim>\<open>rhou\<close> report the failures of section 7 of the
    specification by their codes: \<^verbatim>\<open>rhou\<close> returns the failure of its inner solve
    at whatever trial of the search it happens, and for a calorically perfect
    mixture it returns the temperature of the state whose energy it is given.

  The concrete runs are in \<open>gas_world\<close>, on a gas of one species made of one
  atom of one element, whose reduced linear system \<open>single_species_solver\<close>
  solves, with a table \<^verbatim>\<open>lewis\<close> of zeros, the temperature ranges \<open>nasa_ranges\<close>
  and a mixture whose internal energy is its temperature (\<open>thermal_mixture\<close>)
  or, where the step of the temperature search matters, \<open>2 T + 100\<close> with the
  heat capacity 2 (\<open>perfect_mixture\<close>); \<open>offset_mixture\<close>, with the energy
  \<open>T + 10\<^sup>9\<close>, shows what the tolerance on the energy allows.
\<close>

section \<open>Definitions\<close>

definition balanced_at ::
  "real \<Rightarrow> real world \<Rightarrow> addr \<Rightarrow> c_int \<Rightarrow> c_int \<Rightarrow> addr \<Rightarrow> real world \<Rightarrow> addr \<Rightarrow> bool" where
  "balanced_at tol w X0 nsp nel a w' X1 \<longleftrightarrow>
     (\<exists>x0 A n. load_array w X0 (nat (sint nsp)) = Inr x0 \<and>
        load_array w a (nat (sint nel * sint nsp)) = Inr A \<and> mole_fractions x0 \<and>
        physical n \<and> balanced tol (nat (sint nel)) A x0 n \<and>
        load_array w' X1 (nat (sint nsp)) = Inr (normalise n) \<and> mole_fractions (normalise n))"

definition pt_row ::
  "pt_core_fn \<Rightarrow> real world \<Rightarrow> addr \<Rightarrow> addr \<Rightarrow> addr \<Rightarrow> c_int \<Rightarrow> c_int \<Rightarrow> addr \<Rightarrow> addr \<Rightarrow> addr \<Rightarrow>
   c_int \<Rightarrow> c_int \<times> real list" where
  "pt_row core w p T X0 nsp nel lewis M a i =
     (case (index w T i, index w p i,
            load_arrays w (solver_inputs (ptr_add X0 (i * nsp)) nsp nel lewis M a)) of
        (Inr Ti, Inr pr, Inr xss) \<Rightarrow>
          (case pt_kernel core pr Ti nel xss of (r, yss, msg) \<Rightarrow> (r, yss ! 0))
      | _ \<Rightarrow> (0, []))"

definition pt_rows_failure ::
  "pt_core_fn \<Rightarrow> real world \<Rightarrow> addr \<Rightarrow> addr \<Rightarrow> addr \<Rightarrow> c_int \<Rightarrow> c_int \<Rightarrow> addr \<Rightarrow> addr \<Rightarrow> addr \<Rightarrow>
   c_int \<Rightarrow> (c_int \<times> c_int) option" where
  "pt_rows_failure core w p T X0 nsp nel lewis M a N =
     first_failure (\<lambda>i. fst (pt_row core w p T X0 nsp nel lewis M a i)) (indices_from 0 N)"

definition energy_at ::
  "policy \<Rightarrow> mixture \<Rightarrow> real world \<Rightarrow> addr \<Rightarrow> addr \<Rightarrow> real \<Rightarrow> c_int \<Rightarrow> real world \<Rightarrow> addr \<Rightarrow> addr \<Rightarrow>
   bool" where
  "energy_at pol mx w lewis M u nsp w' X1 T \<longleftrightarrow>
     (\<exists>lw m x1 T1. load_array w lewis (nat (sint nsp * 3 * 9)) = Inr lw \<and>
        load_array w M (nat (sint nsp)) = Inr m \<and> load w' T = Inr T1 \<and>
        load_array w' X1 (nat (sint nsp)) = Inr x1 \<and> mole_fractions x1 \<and>
        energy_converged pol u (energy mx lw m T1 x1 - u))"

definition nasa_ranges :: ranges where
  "nasa_ranges = \<lparr>T_min = 200, T_low = 1000, T_high = 6000, T_max = 20000\<rparr>"

definition single_species_solver :: linear_solver where
  "single_species_solver pb st = Some ([0], [gibbs0 pb ! 0 + ln (p_rel pb)])"

definition gas_world :: "real world" where
  "gas_world =
     \<lparr>heap = (\<lambda>x. if 0 \<le> x \<and> x < 100
                   then Some (if x < 2 then 1000 else if 30 \<le> x \<and> x < 57 then 0 else 1)
                   else None),
      stdout = []\<rparr>"

definition thermal_mixture :: mixture where
  "thermal_mixture =
     \<lparr>gas_constant = 1, start_temperature = 900, energy = (\<lambda>lewis M T X. T),
      heat_capacity = (\<lambda>lewis M T X. 1)\<rparr>"

abbreviation gas_rhou_core :: rhou_core_fn where
  "gas_rhou_core \<equiv>
     rhou_core (literature_policy 10) Reject nasa_ranges 1 single_species_solver thermal_mixture"

definition perfect_mixture :: mixture where
  "perfect_mixture =
     \<lparr>gas_constant = 1, start_temperature = 900, energy = (\<lambda>lewis M T X. 2 * T + 100),
      heat_capacity = (\<lambda>lewis M T X. 2)\<rparr>"

abbreviation perfect_rhou_core :: rhou_core_fn where
  "perfect_rhou_core \<equiv>
     rhou_core (literature_policy 10) Reject nasa_ranges 1 single_species_solver perfect_mixture"

definition offset_mixture :: mixture where
  "offset_mixture =
     \<lparr>gas_constant = 1, start_temperature = 900, energy = (\<lambda>lewis M T X. T + 1000000000),
      heat_capacity = (\<lambda>lewis M T X. 1)\<rparr>"

abbreviation gas_pt_core :: pt_core_fn where
  "gas_pt_core \<equiv> pt_core (literature_policy 10) Reject nasa_ranges 1 single_species_solver"

section \<open>One call\<close>

lemma balanced_at_cong:
  assumes "agree_on (region X1 (sint nsp)) w1 w2"
  shows "balanced_at tol w X0 nsp nel a w1 X1 = balanced_at tol w X0 nsp nel a w2 X1"
proof -
  from assms have "agree_on (region X1 (int (nat (sint nsp)))) w1 w2"
    by simp
  then have "load_array w1 X1 (nat (sint nsp)) = load_array w2 X1 (nat (sint nsp))"
    by (rule load_array_cong_agree)
  then show ?thesis
    by (simp add: balanced_at_def)
qed

lemma solve_pt_model_balanced:
  assumes "solve_pt_model (pt_core pol rp rg p_ref solve) p T X0 nsp nel lewis M a X1 verbose w =
    Inr (0, w')"
  shows "balanced_at (tolerance pol) w X0 nsp nel a w' X1"
  using assms
proof (rule solve_pt_modelE)
  fix x0 lw m A st x1 t
  assume x0: "load_array w X0 (nat (sint nsp)) = Inr x0"
    and A: "load_array w a (nat (sint nel * sint nsp)) = Inr A"
    and core: "pt_core pol rp rg p_ref solve p T x0 (nat (sint nel)) lw m A = (st, x1, t)"
    and "0 = status_code st" and x1: "load_array w' X1 (length x1) = Inr x1"
  then have "pt_core pol rp rg p_ref solve p T x0 (nat (sint nel)) lw m A = (Success, x1, t)"
    by (simp add: eq_commute [of 0])
  then obtain n where n: "x1 = normalise n" "physical n" "length n = length x0"
    "mole_fractions x0" "balanced (tolerance pol) (nat (sint nel)) A x0 n"
    by (rule pt_core_success)
  with x1 load_array_length [OF x0] have "load_array w' X1 (nat (sint nsp)) = Inr (normalise n)"
    by simp
  with x0 A n physical_normalise [OF n(2)] show ?thesis
    unfolding balanced_at_def by blast
qed

lemma energy_at_cong:
  assumes "agree_on (rhou_outputs X1 T nsp) w1 w2"
  shows "energy_at pol mx w lewis M u nsp w1 X1 T = energy_at pol mx w lewis M u nsp w2 X1 T"
proof -
  from assms have "agree_on (region X1 (int (nat (sint nsp)))) w1 w2" and "load w1 T = load w2 T"
    by (simp_all add: rhou_outputs_def agree_on_def load_def)
  with load_array_cong_agree [of X1 "nat (sint nsp)" w1 w2] show ?thesis
    by (simp add: energy_at_def)
qed

lemma solve_rhou_model_energy:
  assumes "solve_rhou_model (rhou_core pol rp rg p_ref solve mx) rho u X0 nsp nel lewis M a X1 T
    verbose w = Inr (0, w')"
    and "T \<notin> region X1 (sint nsp)"
  shows "energy_at pol mx w lewis M u nsp w' X1 T"
  using assms(1)
proof (rule solve_rhou_modelE)
  fix x0 lw m A st x1 T1 t
  assume x0: "load_array w X0 (nat (sint nsp)) = Inr x0"
    and lw: "load_array w lewis (nat (sint nsp * 3 * 9)) = Inr lw"
    and m: "load_array w M (nat (sint nsp)) = Inr m"
    and core: "rhou_core pol rp rg p_ref solve mx rho u x0 (nat (sint nel)) lw m A = (st, x1, T1, t)"
    and "0 = status_code st" and T1: "load w' T = Inr T1"
    and x1: "T \<notin> region X1 (int (length x1)) \<Longrightarrow> load_array w' X1 (length x1) = Inr x1"
  then have run: "rhou_core pol rp rg p_ref solve mx rho u x0 (nat (sint nel)) lw m A = (Success, x1, T1, t)"
    by (simp add: eq_commute [of 0])
  from rhou_core_length [OF run] load_array_length [OF x0] have "length x1 = nat (sint nsp)"
    by simp
  with x1 assms(2) have "load_array w' X1 (nat (sint nsp)) = Inr x1"
    by simp
  moreover from run obtain n where "x1 = normalise n" and "physical n"
    and "energy_converged pol u (energy mx lw m T1 x1 - u)"
    by (rule rhou_core_success)
  ultimately show ?thesis
    using lw m T1 unfolding energy_at_def by (blast intro: physical_normalise)
qed

lemmas rhou_model_contracts =
  solve_rhou_model_frame [THEN rhou_call_frame] solve_rhou_model_local [THEN rhou_call_local]
  solve_rhou_model_safe [THEN rhou_call_safe]

lemma rhou_direct_status:
  assumes "rhou_shaped core" and "index w rho i = Inr rhoi" and "index w u i = Inr ui"
    and "load_array w (ptr_add X0 (i * nsp)) (nat (sint nsp)) = Inr x0"
    and "load_array w lewis (nat (sint nsp * 3 * 9)) = Inr lw"
    and "load_array w M (nat (sint nsp)) = Inr m"
    and "load_array w a (nat (sint nel * sint nsp)) = Inr A"
    and "rhou_outputs (ptr_add X1 (i * nsp)) (ptr_add T i) nsp \<subseteq> dom (heap w)"
    and "core rhoi ui x0 (nat (sint nel)) lw m A = (st, x1, T1, t)"
  shows "direct_status (rhou_call_at (solve_rhou_model core) rho u X0 nsp nel lewis M a X1 T verbose) w i =
    status_code st"
proof -
  from assms(1,4-9) obtain w' where
    "solve_rhou_model core rhoi ui (ptr_add X0 (i * nsp)) nsp nel lewis M a (ptr_add X1 (i * nsp))
      (ptr_add T i) verbose w = Inr (status_code st, w')"
    by (rule solve_rhou_model_returns)
  with assms(2,3) show ?thesis
    by (simp add: direct_status_def rhou_call_at_def)
qed

lemma pt_row_call:
  assumes "pt_shaped core"
    and "pt_call_at (solve_pt_model core) p T X0 nsp nel lewis M a X1 verbose i w = Inr (r, w')"
  shows "fst (pt_row core w p T X0 nsp nel lewis M a i) = r"
    and "load_array w' (ptr_add X1 (i * nsp)) (nat (sint nsp)) =
      Inr (snd (pt_row core w p T X0 nsp nel lewis M a i))"
proof -
  let ?X0 = "ptr_add X0 (i * nsp)"
  from assms(2) obtain Ti pr where Ti: "index w T i = Inr Ti" and pr: "index w p i = Inr pr"
    and run: "solve_pt_model core pr Ti ?X0 nsp nel lewis M a (ptr_add X1 (i * nsp)) verbose w = Inr (r, w')"
    unfolding pt_call_at_Inr by blast
  from run obtain x0 lw m A st x1 t where loads: "load_array w ?X0 (nat (sint nsp)) = Inr x0"
    "load_array w lewis (nat (sint nsp * 3 * 9)) = Inr lw" "load_array w M (nat (sint nsp)) = Inr m"
    "load_array w a (nat (sint nel * sint nsp)) = Inr A"
    and core: "core pr Ti x0 (nat (sint nel)) lw m A = (st, x1, t)" and r: "r = status_code st"
    and x1: "load_array w' (ptr_add X1 (i * nsp)) (length x1) = Inr x1"
    by (rule solve_pt_modelE)
  from Ti pr core r have row: "pt_row core w p T X0 nsp nel lewis M a i = (r, x1)"
    by (simp add: pt_row_def pt_kernel_def load_solver_inputsI [OF loads])
  then show "fst (pt_row core w p T X0 nsp nel lewis M a i) = r"
    by simp
  from assms(1) core load_array_length [OF loads(1)] have "length x1 = nat (sint nsp)"
    unfolding pt_shaped_def by (metis fst_conv snd_conv)
  with x1 row show "load_array w' (ptr_add X1 (i * nsp)) (nat (sint nsp)) =
      Inr (snd (pt_row core w p T X0 nsp nel lewis M a i))"
    by simp
qed

text \<open>A slice that agrees with what a successful direct call wrote holds the row.\<close>

lemma pt_row_solved:
  assumes "pt_shaped core" and "batch_fits N nsp" and "in_batch N i"
    and "pt_call_at (solve_pt_model core) p T X0 nsp nel lewis M a X1 verbose i w = Inr (r, wi)"
    and "agree_on (slice X1 (sint nsp) (sint i)) wi w'"
  shows "load_array w' (ptr_add X1 (i * nsp)) (nat (sint nsp)) =
    Inr (snd (pt_row core w p T X0 nsp nel lewis M a i))"
proof -
  from assms(5) have "agree_on (region (ptr_add X1 (i * nsp)) (int (nat (sint nsp)))) wi w'"
    by (simp add: region_ptr_add_offset [OF assms(2,3)])
  from load_array_cong_agree [OF this] pt_row_call(2) [OF assms(1,4)] show ?thesis
    by simp
qed

lemmas pt_model_contracts =
  solve_pt_model_frame [THEN pt_call_frame] solve_pt_model_local [THEN pt_call_local]
  solve_pt_model_safe [THEN pt_call_safe]

lemma pt_model_direct_status:
  assumes "pt_shaped core" and "batch_fits N nsp"
    and "batch_pt_inputs N p T X0 nsp nel lewis M a \<union> batch_pt_outputs N X1 nsp \<subseteq> dom (heap w)"
    and "in_batch N i"
  shows "direct_status (pt_call_at (solve_pt_model core) p T X0 nsp nel lewis M a X1 verbose) w i =
    fst (pt_row core w p T X0 nsp nel lewis M a i)"
proof -
  let ?call = "pt_call_at (solve_pt_model core) p T X0 nsp nel lewis M a X1 verbose"
  from pt_model_contracts(3) [OF assms(1,2)] assms(3,4) obtain r wi where "?call i w = Inr (r, wi)"
    unfolding call_safe_def by blast
  with assms(1) show ?thesis
    by (simp add: direct_status_def pt_row_call(1))
qed

lemma pt_model_direct_failure:
  assumes "pt_shaped core" and "batch_fits N nsp"
    and "batch_pt_inputs N p T X0 nsp nel lewis M a \<union> batch_pt_outputs N X1 nsp \<subseteq> dom (heap w)"
  shows "first_failure
      (direct_status (pt_call_at (solve_pt_model core) p T X0 nsp nel lewis M a X1 verbose) w)
      (indices_from 0 N) = pt_rows_failure core w p T X0 nsp nel lewis M a N"
  unfolding pt_rows_failure_def
  by (rule first_failure_cong) (simp add: pt_model_direct_status [OF assms] in_batch_indices)

lemma batch_pt_model_run:
  assumes "pt_shaped core"
    and "batch_pt_separate N p T X0 nsp nel lewis M a X1" and "batch_fits N nsp"
    and "batch_pt_inputs N p T X0 nsp nel lewis M a \<union> batch_pt_outputs N X1 nsp \<subseteq> dom (heap w)"
  shows "\<exists>w'. batch_pt (solve_pt_model core) N p T X0 nsp nel lewis M a X1 verbose w =
    Inr (status_of (pt_rows_failure core w p T X0 nsp nel lewis M a N), w')"
  using batch_run_first_failure [
      where call = "pt_call_at (solve_pt_model core) p T X0 nsp nel lewis M a X1 verbose",
      OF pt_model_contracts(3) [OF assms(1,3)] assms(4)
      pt_model_contracts(1,2) [OF assms(1,3)] pt_calls_separate [OF assms(2,3)], of batch_pt_message]
  by (simp add: batch_pt_batch_run pt_model_direct_failure [OF assms(1,3,4)])

section \<open>A gas of one species\<close>

lemma gas_gibbs:
  assumes "200 \<le> T" and "T \<le> 20000"
  shows "gibbs Reject nasa_ranges (replicate 27 0) 0 T = Some 0"
  using assms
  by (simp add: evaluate_def select_range_def nasa_ranges_def species_coeffs_def g_poly_def
      h_poly_def s_poly_def)

lemma gas_pt_core_solved:
  assumes "200 \<le> T" and "T \<le> 20000"
  shows "gas_pt_core p T [1] (Suc 0) (replicate 27 0) [1] [1] = (Success, [1], [])"
proof -
  have "\<exists>r. gas_pt_core p T [1] 1 (replicate 27 0) [1] [1] =
      (Success, normalise [1], emit (literature_policy 10) 1 r)"
  proof (rule pt_core_idempotent)
    show "those (map (\<lambda>s. gibbs Reject nasa_ranges (replicate 27 0) s T) [0..<length [1 :: real]]) = Some [0]"
      by (simp add: gas_gibbs [OF assms])
    show "single_species_solver (pt_problem [0] [1] 1 [1] (p / 1)) (initial_state (literature_policy 10) 1 [1])
        = Some ([0], [ln p])"
      by (simp add: single_species_solver_def pt_problem_def)
    show "equilibrium (pt_problem [0] [1] 1 [1] (p / 1)) [1] [ln p]"
      by (simp add: equilibrium_def conservation_residual_def stationarity_residual_def
          chemical_potential_def pt_problem_def abundance_def)
    show "update_active (trace_threshold (literature_policy 10)) (pt_problem [0] [1] 1 [1] (p / 1)) [ln p] [1]
        (active (initial_state (literature_policy 10) 1 [1])) = active (initial_state (literature_policy 10) 1 [1])"
      by (simp add: update_active_def initial_state_def literature_policy_def)
  qed (simp_all add: literature_policy_def mole_fractions_def)
  then show ?thesis
    by (auto simp: literature_policy_def emit_def)
qed

lemma gas_pt_core_rejected:
  assumes "T < 200"
  shows "gas_pt_core p T [1] nel lw [1] [1] = (Out_Of_Range_Temperature, [1], [])"
  using assms
  by (intro pt_core_out_of_range [where s = 0])
    (simp_all add: mole_fractions_def evaluate_Reject_None nasa_ranges_def)

lemma gas_world_loads:
  "load_array gas_world 30 27 = Inr (replicate 27 0)"
  "0 \<le> x \<and> x < 2 \<Longrightarrow> load gas_world x = Inr 1000"
  "2 \<le> x \<and> x < 30 \<or> 57 \<le> x \<and> x < 100 \<Longrightarrow> load gas_world x = Inr 1"
  by (rule load_array_replicate) (auto simp: gas_world_def load_def)

lemmas gas_eval = pt_row_def pt_kernel_def solver_inputs_def index_def ptr_add_def gas_world_loads

lemma gas_pt_row_solved:
  assumes "i = 0 \<or> i = 1"
  shows "pt_row gas_pt_core gas_world 2 0 10 1 1 30 60 62 i = (0, [1])"
  using assms by (auto simp: gas_eval gas_pt_core_solved simp del: load_array_numeral)

lemma gas_pt_row_rejected:
  "pt_row gas_pt_core gas_world 3 1 10 1 1 30 60 62 0 = (0, [1])"
  "pt_row gas_pt_core gas_world 3 1 10 1 1 30 60 62 1 = (3, [1])"
  by (simp_all add: gas_eval gas_pt_core_solved gas_pt_core_rejected del: load_array_numeral)

lemma literature_policy_simps:
  "max_outer_iter (literature_policy k) = k" "tolerance (literature_policy k) = 1 / 10 ^ 6"
  by (simp_all add: literature_policy_def)

lemmas gas_rhou_eval = rhou_core_def thermal_mixture_def literature_policy_simps
  outer_loop_unfold [where k = 10] outer_loop_unfold [where k = 9]
  energy_converged_def relative_def

lemma gas_rhou_core_solved:
  "gas_rhou_core rho 1000 [1] (Suc 0) (replicate 27 0) [1] [1] = (Success, [1], 1000, [])"
  by (simp add: gas_rhou_eval gas_pt_core_solved)

lemma gas_rhou_core_rejected:
  "gas_rhou_core rho 1 [1] (Suc 0) (replicate 27 0) [1] [1] = (Out_Of_Range_Temperature, [1], 1, [])"
  by (simp add: gas_rhou_eval gas_pt_core_solved gas_pt_core_rejected)

lemma gas_loads:
  "load_array gas_world 10 (nat (sint (1 :: c_int))) = Inr [1]"
  "load_array gas_world 30 (nat (sint (1 :: c_int) * 3 * 9)) = Inr (replicate 27 0)"
  "load_array gas_world 60 (nat (sint (1 :: c_int))) = Inr [1]"
  "load_array gas_world 62 (nat (sint (1 :: c_int) * sint (1 :: c_int))) = Inr [1]"
  "rhou_outputs 20 24 1 \<subseteq> dom (heap gas_world)" "24 \<notin> region 20 (sint (1 :: c_int))"
proof -
  show "rhou_outputs 20 24 1 \<subseteq> dom (heap gas_world)" and "24 \<notin> region 20 (sint (1 :: c_int))"
    by (auto simp: rhou_outputs_def gas_world_def)
qed (simp_all add: gas_world_loads del: load_array_numeral)

lemma gas_rhou_direct:
  assumes "i = 0 \<or> i = 1"
  shows "direct_status (rhou_call_at (solve_rhou_model gas_rhou_core) 2 0 10 1 1 30 60 62 20 24 0)
    gas_world i = 0"
proof -
  have "direct_status (rhou_call_at (solve_rhou_model gas_rhou_core) 2 0 10 1 1 30 60 62 20 24 0)
      gas_world i = status_code Success"
  proof (rule rhou_direct_status)
    show "index gas_world 2 i = Inr 1" and "index gas_world 0 i = Inr 1000"
      using assms by (auto simp: index_def ptr_add_def gas_world_def)
    show "load_array gas_world (ptr_add 10 (i * 1)) (nat (sint (1 :: c_int))) = Inr [1]"
      and "load_array gas_world 60 (nat (sint (1 :: c_int))) = Inr [1]"
      and "load_array gas_world 62 (nat (sint (1 :: c_int) * sint (1 :: c_int))) = Inr [1]"
      using assms by (auto simp: index_def ptr_add_def gas_world_loads)
    show "load_array gas_world 30 (nat (sint (1 :: c_int) * 3 * 9)) = Inr (replicate 27 0)"
      by (simp add: gas_world_loads del: load_array_numeral)
    show "rhou_outputs (ptr_add 20 (i * 1)) (ptr_add 24 i) 1 \<subseteq> dom (heap gas_world)"
      using assms by (auto simp: rhou_outputs_def ptr_add_def gas_world_def)
    show "gas_rhou_core 1 1000 [1] (nat (sint (1 :: c_int))) (replicate 27 0) [1] [1] =
        (Success, [1], 1000, [])"
      by (simp add: gas_rhou_core_solved)
  qed simp
  then show ?thesis by simp
qed

lemma gas_pt_core_shaped: "pt_shaped gas_pt_core"
  by simp

lemma gas_batch:
  "batch_fits 2 1" "indices_from 0 (2 :: c_int) = [0, 1]"
  "batch_pt_separate 2 2 0 10 1 1 30 60 62 20 \<and> batch_pt_separate 2 3 1 10 1 1 30 60 62 20"
  "batch_pt_inputs 2 2 0 10 1 1 30 60 62 \<union> batch_pt_outputs 2 20 1 \<subseteq> dom (heap gas_world)"
  "batch_pt_inputs 2 3 1 10 1 1 30 60 62 \<union> batch_pt_outputs 2 20 1 \<subseteq> dom (heap gas_world)"
  "batch_rhou_separate 2 2 0 10 1 1 30 60 62 20 24"
  "batch_rhou_inputs 2 2 0 10 1 1 30 60 62 \<union> batch_rhou_outputs 2 20 24 1 \<subseteq> dom (heap gas_world)"
  by (auto simp: batch_fits_def indices_from_def upto.simps batch_pt_separate_def
      batch_rhou_separate_def disjoint_regions_def batch_pt_inputs_def batch_pt_outputs_def
      batch_rhou_inputs_def batch_rhou_outputs_def gas_world_def)

section \<open>The batch at given pressure and temperature\<close>

text \<open>
  C21. Conservation through \<^verbatim>\<open>batch_pt\<close> with the solver of the specification:
  when the offsets fit in \<^verbatim>\<open>int\<close> and \<open>X1\<close> is separate from the inputs or equal to
  \<open>X0\<close>, and \<^verbatim>\<open>batch_pt\<close> returns 0, then for every input \<open>i\<close> the slice of \<open>X0\<close> held
  mole fractions in the initial memory, and slice \<open>i\<close> of \<open>X1\<close> holds in the final
  memory the mole fractions of mole numbers that are not negative and that
  have, for every element, the abundance of the initial slice with a relative
  residual below the tolerance of the policy. No assumption is made on the
  linear solver.
\<close>

theorem batch_pt_model_balanced:
  assumes "batch_pt_separate N p T X0 nsp nel lewis M a X1" and "batch_fits N nsp"
    and "batch_pt (solve_pt_model (pt_core pol rp rg p_ref solve)) N p T X0 nsp nel lewis M a X1
      verbose w = Inr (0, w')"
    and "in_batch N i"
  shows "balanced_at (tolerance pol) w (ptr_add X0 (i * nsp)) nsp nel a w' (ptr_add X1 (i * nsp))"
proof -
  let ?solve = "solve_pt_model (pt_core pol rp rg p_ref solve)"
  from batch_run_independent [where call = "pt_call_at ?solve p T X0 nsp nel lewis M a X1 verbose",
      OF pt_model_contracts(1,2) [OF pt_core_shaped assms(2)]
        pt_calls_separate [OF assms(1,2)] assms(3) [unfolded batch_pt_batch_run] assms(4)]
  obtain wi where call: "pt_call_at ?solve p T X0 nsp nel lewis M a X1 verbose i w = Inr (0, wi)"
    and agree: "agree_on (slice X1 (sint nsp) (sint i)) wi w'"
    by blast
  from call have "balanced_at (tolerance pol) w (ptr_add X0 (i * nsp)) nsp nel a wi (ptr_add X1 (i * nsp))"
    unfolding pt_call_at_Inr by (blast intro: solve_pt_model_balanced)
  with agree show ?thesis
    by (simp add: balanced_at_cong flip: region_ptr_add_offset [OF assms(2,4)])
qed

theorem batch_pt_model_balanced_witness:
  "\<exists>w'. batch_pt (solve_pt_model gas_pt_core) 2 2 0 10 1 1 30 60 62 20 0 gas_world = Inr (0, w') \<and>
     balanced_at (1 / 10 ^ 6) gas_world 11 1 1 62 w' 21"
proof -
  have ff: "pt_rows_failure gas_pt_core gas_world 2 0 10 1 1 30 60 62 2 = None"
    by (simp add: pt_rows_failure_def gas_batch gas_pt_row_solved)
  note sep = gas_batch(3) [THEN conjunct1]
  from ff batch_pt_model_run [OF gas_pt_core_shaped sep gas_batch(1,4), of 0] obtain w' where
    run: "batch_pt (solve_pt_model gas_pt_core) 2 2 0 10 1 1 30 60 62 20 0 gas_world = Inr (0, w')"
    by (auto simp: status_of_def)
  have "in_batch 2 1" by (simp add: in_batch_def)
  from batch_pt_model_balanced [OF sep gas_batch(1) run this] run show ?thesis
    by (auto simp: ptr_add_def literature_policy_def)
qed

text \<open>
  C22. \<^verbatim>\<open>batch_pt\<close> with a solver of the shape of the specification refines the
  list of its rows. Let row \<open>i\<close> be the status code and the composition that the
  computation returns on \<open>T[i]\<close>, \<open>p[i]\<close>, slice \<open>i\<close> of \<open>X0\<close> and the arrays \<open>lewis\<close>,
  \<open>M\<close> and \<open>a\<close> of the initial memory. When the arrays are allocated with the
  sizes of the comment, the offsets fit in \<^verbatim>\<open>int\<close> and \<open>X1\<close> is separate from the
  inputs or equal to \<open>X0\<close>, \<^verbatim>\<open>batch_pt\<close> does not fault; it returns the status of
  the first row whose status is not 0, or 0 when there is none; and for every
  row before that one, slice \<open>i\<close> of \<open>X1\<close> holds the composition of row \<open>i\<close>. The
  rows do not depend on \<open>X1\<close>: a batch solved in place, with \<open>X1 = X0\<close>, returns
  the status and the compositions of the batch solved into a separate array.
\<close>

theorem batch_pt_model_refines:
  assumes "pt_shaped core"
    and "batch_pt_separate N p T X0 nsp nel lewis M a X1" and "batch_fits N nsp"
    and "batch_pt_inputs N p T X0 nsp nel lewis M a \<union> batch_pt_outputs N X1 nsp \<subseteq> dom (heap w)"
  shows "\<exists>w'. batch_pt (solve_pt_model core) N p T X0 nsp nel lewis M a X1 verbose w =
      Inr (status_of (pt_rows_failure core w p T X0 nsp nel lewis M a N), w') \<and>
    (\<forall>i. in_batch (solved_rows (pt_rows_failure core w p T X0 nsp nel lewis M a N) N) i \<longrightarrow>
       load_array w' (ptr_add X1 (i * nsp)) (nat (sint nsp)) =
       Inr (snd (pt_row core w p T X0 nsp nel lewis M a i)))"
proof -
  let ?call = "pt_call_at (solve_pt_model core) p T X0 nsp nel lewis M a X1 verbose"
  let ?ff = "pt_rows_failure core w p T X0 nsp nel lewis M a N"
  from batch_run_refines [where call = ?call, OF pt_model_contracts(3) [OF assms(1,3)] assms(4)
      pt_model_contracts(1,2) [OF assms(1,3)] pt_calls_separate [OF assms(2,3)], of batch_pt_message]
  obtain w' where run: "batch_pt (solve_pt_model core) N p T X0 nsp nel lewis M a X1 verbose w =
      Inr (status_of ?ff, w')"
    and solved: "\<And>i. in_batch (solved_rows ?ff N) i \<Longrightarrow>
      in_batch N i \<and> (\<exists>wi. ?call i w = Inr (0, wi) \<and> agree_on (slice X1 (sint nsp) (sint i)) wi w')"
    unfolding batch_pt_batch_run pt_model_direct_failure [OF assms(1,3,4)] by blast
  have "load_array w' (ptr_add X1 (i * nsp)) (nat (sint nsp)) =
      Inr (snd (pt_row core w p T X0 nsp nel lewis M a i))"
    if "in_batch (solved_rows ?ff N) i" for i
    using solved [OF that] by (blast intro: pt_row_solved [OF assms(1,3)])
  with run show ?thesis by blast
qed

theorem batch_pt_model_refines_witness:
  "\<exists>w'. batch_pt (solve_pt_model gas_pt_core) 2 3 1 10 1 1 30 60 62 20 0 gas_world = Inr (3, w') \<and>
     load_array w' 20 1 = Inr [1]"
proof -
  have ff: "pt_rows_failure gas_pt_core gas_world 3 1 10 1 1 30 60 62 2 = Some (1, 3)"
    by (simp add: pt_rows_failure_def gas_batch gas_pt_row_rejected)
  have "in_batch 1 0" by (simp add: in_batch_def)
  with batch_pt_model_refines [OF gas_pt_core_shaped gas_batch(3) [THEN conjunct2] gas_batch(1,5),
      where verbose = 0]
  show ?thesis
    unfolding ff by (auto simp: status_of_def solved_rows_def gas_pt_row_rejected ptr_add_def)
qed

section \<open>The batch at given density and internal energy\<close>

text \<open>
  C23. The target energy through \<^verbatim>\<open>batch_rhou\<close> with the solver of the
  specification: when the offsets fit in \<^verbatim>\<open>int\<close>, \<open>X1\<close> and \<open>T\<close> are separate from
  each other and from the inputs, and \<^verbatim>\<open>batch_rhou\<close> returns 0, then for every
  input \<open>i\<close> the final memory holds in slice \<open>i\<close> of \<open>X1\<close> mole fractions and in
  \<open>T[i]\<close> a temperature at which the internal energy of that composition is the
  target \<open>u[i]\<close> of the initial memory, with a relative residual below the
  tolerance of the policy.
\<close>

theorem batch_rhou_model_energy:
  assumes "batch_rhou_separate N rho u X0 nsp nel lewis M a X1 T" and "batch_fits N nsp"
    and "batch_rhou (solve_rhou_model (rhou_core pol rp rg p_ref solve mx)) N rho u X0 nsp nel lewis M a
      X1 T verbose w = Inr (0, w')"
    and "in_batch N i"
  shows "\<exists>ui. index w u i = Inr ui \<and>
    energy_at pol mx w lewis M ui nsp w' (ptr_add X1 (i * nsp)) (ptr_add T i)"
proof -
  let ?solve = "solve_rhou_model (rhou_core pol rp rg p_ref solve mx)"
  from batch_run_independent [
      where call = "rhou_call_at ?solve rho u X0 nsp nel lewis M a X1 T verbose",
      OF rhou_model_contracts(1,2) [OF rhou_core_shaped assms(2)]
        rhou_calls_separate [OF assms(1,2)] assms(3) [unfolded batch_rhou_batch_run] assms(4)]
  obtain wi where call: "rhou_call_at ?solve rho u X0 nsp nel lewis M a X1 T verbose i w = Inr (0, wi)"
    and agree: "agree_on (rhou_writes_at X1 T nsp i) wi w'"
    by blast
  from call obtain rhoi ui where ui: "index w u i = Inr ui"
    and run: "?solve rhoi ui (ptr_add X0 (i * nsp)) nsp nel lewis M a (ptr_add X1 (i * nsp))
      (ptr_add T i) verbose w = Inr (0, wi)"
    unfolding rhou_call_at_Inr by blast
  from rhou_cell_slice [OF assms(1,2,4,4)]
  have "ptr_add T i \<notin> region (ptr_add X1 (i * nsp)) (sint nsp)"
    by (simp add: region_ptr_add_offset [OF assms(2,4)])
  with run have "energy_at pol mx w lewis M ui nsp wi (ptr_add X1 (i * nsp)) (ptr_add T i)"
    by (rule solve_rhou_model_energy)
  with agree ui show ?thesis
    by (simp add: energy_at_cong flip: rhou_outputs_at [OF assms(2,4)])
qed

theorem batch_rhou_model_energy_witness:
  "\<exists>w'. batch_rhou (solve_rhou_model gas_rhou_core) 2 2 0 10 1 1 30 60 62 20 24 0 gas_world = Inr (0, w') \<and>
     energy_at (literature_policy 10) thermal_mixture gas_world 30 60 1000 1 w' 21 25"
proof -
  let ?call = "rhou_call_at (solve_rhou_model gas_rhou_core) 2 0 10 1 1 30 60 62 20 24 0"
  have "first_failure (direct_status ?call gas_world) (indices_from 0 2) = None"
    by (simp add: gas_batch gas_rhou_direct)
  with batch_run_first_failure [where call = ?call and fmt = batch_rhou_message,
      OF rhou_model_contracts(3) [OF rhou_core_shaped gas_batch(1)] gas_batch(7)
        rhou_model_contracts(1,2) [OF rhou_core_shaped gas_batch(1)]
        rhou_calls_separate [OF gas_batch(6,1)]]
  obtain w' where
    run: "batch_rhou (solve_rhou_model gas_rhou_core) 2 2 0 10 1 1 30 60 62 20 24 0 gas_world = Inr (0, w')"
    by (auto simp: batch_rhou_batch_run status_of_def)
  have "in_batch 2 1" by (simp add: in_batch_def)
  from batch_rhou_model_energy [OF gas_batch(6,1) run this] run show ?thesis
    by (auto simp: index_def ptr_add_def gas_world_loads)
qed

section \<open>The failures of one call\<close>

text \<open>
  C24. The wrapper \<^verbatim>\<open>pt\<close> with the solver of the specification, under the default
  policy for the temperature range, reports the failures of its input by their
  codes: the call returns the code of a status of the taxonomy; the status is
  \<open>Inconsistent_Input\<close> exactly when the array \<open>X0\<close> does not hold mole fractions,
  and \<open>Out_Of_Range_Temperature\<close> exactly when it does and \<open>T\<close> lies outside the
  domain of the thermodynamic data.
\<close>

theorem pt_model_classifies:
  assumes "pt (solve_pt_model (pt_core pol Reject rg p_ref solve)) p T X0 nsp nel lewis M a X1 verbose w =
    Inr (r, w')"
  shows "\<exists>x0 s. load_array w X0 (nat (sint nsp)) = Inr x0 \<and> r = status_code s \<and>
    (s = Inconsistent_Input \<longleftrightarrow> \<not> mole_fractions x0) \<and>
    (s = Out_Of_Range_Temperature \<longleftrightarrow> mole_fractions x0 \<and> (T < T_min rg \<or> T_max rg < T))"
  using assms [unfolded pt_eq]
proof (rule solve_pt_modelE)
  fix x0 lw m A st x1 t
  assume x0: "load_array w X0 (nat (sint nsp)) = Inr x0" and r: "r = status_code st"
    and core: "pt_core pol Reject rg p_ref solve p T x0 (nat (sint nel)) lw m A = (st, x1, t)"
  from x0 r pt_core_status(1) [OF core] pt_core_status_Reject [OF core] show ?thesis
    by (intro exI [of _ x0] exI [of _ st]) simp
qed

theorem pt_model_classifies_witness:
  "\<exists>w'. pt (solve_pt_model gas_pt_core) 1 1000 10 2 1 30 90 92 20 0 gas_world = Inr (4, w')"
proof -
  have "pt_inputs 10 2 1 30 90 92 \<union> pt_outputs 20 2 \<subseteq> dom (heap gas_world)"
    by (auto simp: pt_inputs_def pt_outputs_def gas_world_def)
  with pt_safeD [OF solve_pt_model_safe [OF gas_pt_core_shaped]] obtain r w' where
    run: "pt (solve_pt_model gas_pt_core) 1 1000 10 2 1 30 90 92 20 0 gas_world = Inr (r, w')"
    unfolding pt_eq by blast
  have "load_array gas_world 10 (nat (sint (2 :: c_int))) = Inr [1, 1]"
    by (simp add: gas_world_loads)
  with pt_model_classifies [OF run] have "r = status_code Inconsistent_Input"
    by (auto simp: mole_fractions_def)
  with run show ?thesis by simp
qed

text \<open>
  What \<^verbatim>\<open>rhou\<close> with the solver of the specification returns and leaves in the
  outputs, from the result of the search on the arrays of the call.
\<close>

lemma rhou_model_call:
  assumes "rhou_shaped core" and "load_array w X0 (nat (sint nsp)) = Inr x0"
    and "load_array w lewis (nat (sint nsp * 3 * 9)) = Inr lw"
    and "load_array w M (nat (sint nsp)) = Inr m"
    and "load_array w a (nat (sint nel * sint nsp)) = Inr A"
    and "rhou_outputs X1 T nsp \<subseteq> dom (heap w)" and "T \<notin> region X1 (sint nsp)"
    and "core rho u x0 (nat (sint nel)) lw m A = (st, x1, T1, t)"
  shows "\<exists>w'. rhou (solve_rhou_model core) rho u X0 nsp nel lewis M a X1 T verbose w =
      Inr (status_code st, w') \<and>
    load w' T = Inr T1 \<and> load_array w' X1 (nat (sint nsp)) = Inr x1"
proof (rule solve_rhou_model_returns [where verbose = verbose, OF assms(1-6,8)])
  fix w'
  assume "solve_rhou_model core rho u X0 nsp nel lewis M a X1 T verbose w = Inr (status_code st, w')"
    and "load w' T = Inr T1"
    and "T \<notin> region X1 (sint nsp) \<Longrightarrow> load_array w' X1 (length x1) = Inr x1"
  moreover from assms(1,8) load_array_length [OF assms(2)] have "length x1 = nat (sint nsp)"
    unfolding rhou_shaped_def by (metis fst_conv snd_conv)
  ultimately show ?thesis
    using assms(7) by (intro exI [of _ w']) simp
qed

lemmas perfect_rhou_eval = rhou_trial_def perfect_mixture_def literature_policy_simps
  energy_converged_def relative_def

text \<open>
  C25. A failure of the inner solve ends \<^verbatim>\<open>rhou\<close> with that failure: when the
  temperature search of the call reaches trial \<open>j\<close> within the cap of the outer
  iteration, with the temperature \<open>T\<^sub>j\<close> and the composition \<open>X\<^sub>j\<close>, and the solver
  at given pressure and temperature fails there with the status \<open>st\<close>, at the
  pressure of the ideal-gas relation for the density \<open>rho\<close>, then \<^verbatim>\<open>rhou\<close> with
  the solver of the specification returns the code of \<open>st\<close>, which is not 0,
  makes no further trial, and leaves \<open>T\<^sub>j\<close> in \<open>T\<close> and the composition of the
  failed solve in \<open>X1\<close>.
\<close>

theorem rhou_model_propagates:
  assumes "load_array w X0 (nat (sint nsp)) = Inr x0"
    and "load_array w lewis (nat (sint nsp * 3 * 9)) = Inr lw"
    and "load_array w M (nat (sint nsp)) = Inr m"
    and "load_array w a (nat (sint nel * sint nsp)) = Inr A"
    and "rhou_outputs X1 T nsp \<subseteq> dom (heap w)" and "T \<notin> region X1 (sint nsp)"
    and "rhou_trial pol rp rg p_ref solve mx rho u x0 (nat (sint nel)) lw m A j = Some (Tj, Xj)"
    and "j \<le> max_outer_iter pol"
    and "pt_core pol rp rg p_ref solve (ideal_gas_pressure (gas_constant mx) rho m Tj Xj) Tj Xj
      (nat (sint nel)) lw m A = (st, x1, t)"
    and "st \<noteq> Success"
  shows "\<exists>w'. rhou (solve_rhou_model (rhou_core pol rp rg p_ref solve mx)) rho u X0 nsp nel lewis M a
      X1 T verbose w = Inr (status_code st, w') \<and>
    status_code st \<noteq> 0 \<and> load w' T = Inr Tj \<and> load_array w' X1 (nat (sint nsp)) = Inr x1"
proof -
  from rhou_core_propagates [OF assms(7-10)] obtain t' where
    core: "rhou_core pol rp rg p_ref solve mx rho u x0 (nat (sint nel)) lw m A = (st, x1, Tj, t')" ..
  from rhou_model_call [OF rhou_core_shaped assms(1-6) core] assms(10) show ?thesis
    by simp
qed

theorem rhou_model_propagates_witness:
  "\<exists>w'. rhou (solve_rhou_model perfect_rhou_core) 1 300 10 1 1 30 60 62 20 24 0 gas_world = Inr (3, w') \<and>
     load w' 24 = Inr 100 \<and> load_array w' 20 1 = Inr [1]"
proof -
  have trial: "rhou_trial (literature_policy 10) Reject nasa_ranges 1 single_species_solver
      perfect_mixture 1 300 [1] (nat (sint (1 :: c_int))) (replicate 27 0) [1] [1] 1 = Some (100, [1])"
    by (simp add: perfect_rhou_eval gas_pt_core_solved)
  have inner: "gas_pt_core (ideal_gas_pressure (gas_constant perfect_mixture) 1 [1] 100 [1]) 100 [1]
      (nat (sint (1 :: c_int))) (replicate 27 0) [1] [1] = (Out_Of_Range_Temperature, [1], [])"
    by (simp add: gas_pt_core_rejected)
  from rhou_model_propagates [where verbose = 0, OF gas_loads trial _ inner] show ?thesis
    by (simp add: literature_policy_simps)
qed

section \<open>The round trip\<close>

text \<open>
  C26. Round trip between the two solvers, for a calorically perfect mixture,
  whose internal energy is \<open>c T + e\<^sub>0\<close> with the heat capacity \<open>c \<noteq> 0\<close>: let \<open>u\<close> be
  the internal energy of the mixture in the state \<open>(T\<^sub>s, x\<^sub>s)\<close>. When \<^verbatim>\<open>rhou\<close> is
  called with \<open>u\<close> and its search starts at a temperature whose energy is not
  within the tolerance of \<open>u\<close>, where the inner solve succeeds with a
  composition \<open>x\<^sub>a\<close>, and the inner solve at \<open>T\<^sub>s\<close> from \<open>x\<^sub>a\<close> succeeds with \<open>x\<^sub>s\<close>,
  then the call returns 0 after the one Newton step that the cap of at least
  one outer iteration allows, and leaves \<open>T\<^sub>s\<close> in \<open>T\<close> and \<open>x\<^sub>s\<close> in \<open>X1\<close>.
\<close>

theorem rhou_model_perfect_gas:
  assumes "load_array w X0 (nat (sint nsp)) = Inr x0"
    and "load_array w lewis (nat (sint nsp * 3 * 9)) = Inr lw"
    and "load_array w M (nat (sint nsp)) = Inr m"
    and "load_array w a (nat (sint nel * sint nsp)) = Inr A"
    and "rhou_outputs X1 T nsp \<subseteq> dom (heap w)" and "T \<notin> region X1 (sint nsp)"
    and "\<forall>T X. energy mx lw m T X = c * T + e0" and "\<forall>T X. heat_capacity mx lw m T X = c"
    and "c \<noteq> 0"
    and "pt_core pol rp rg p_ref solve
      (ideal_gas_pressure (gas_constant mx) rho m (start_temperature mx) x0) (start_temperature mx) x0
      (nat (sint nel)) lw m A = (Success, xa, ta)"
    and "\<not> energy_converged pol (energy mx lw m Ts xs)
      (energy mx lw m (start_temperature mx) xa - energy mx lw m Ts xs)"
    and "pt_core pol rp rg p_ref solve (ideal_gas_pressure (gas_constant mx) rho m Ts xa) Ts xa
      (nat (sint nel)) lw m A = (Success, xs, tb)"
    and "0 < tolerance pol" and "0 < max_outer_iter pol"
  shows "\<exists>w'. rhou (solve_rhou_model (rhou_core pol rp rg p_ref solve mx)) rho (energy mx lw m Ts xs)
      X0 nsp nel lewis M a X1 T verbose w = Inr (0, w') \<and>
    load w' T = Inr Ts \<and> load_array w' X1 (nat (sint nsp)) = Inr xs"
proof -
  from assms(7,8) have en: "\<And>T X. energy mx lw m T X = c * T + e0"
    and cv: "\<And>T X. heat_capacity mx lw m T X = c"
    by simp_all
  note assms(11) [unfolded en]
  with en cv assms(9,10)
  have "rhou_core pol rp rg p_ref solve mx rho (c * Ts + e0) x0 (nat (sint nel)) lw m A =
      (Success, xs, Ts, ta @ tb)"
    using assms(12-14) by (rule rhou_core_perfect_gas)
  from rhou_model_call [OF rhou_core_shaped assms(1-6) this] show ?thesis
    by (simp add: en)
qed

theorem rhou_model_perfect_gas_witness:
  "\<exists>w'. rhou (solve_rhou_model perfect_rhou_core) 1 2100 10 1 1 30 60 62 20 24 0 gas_world = Inr (0, w') \<and>
     load w' 24 = Inr 1000 \<and> load_array w' 20 1 = Inr [1]"
proof -
  have "gas_pt_core (ideal_gas_pressure (gas_constant perfect_mixture) 1 [1]
        (start_temperature perfect_mixture) [1]) (start_temperature perfect_mixture) [1]
      (nat (sint (1 :: c_int))) (replicate 27 0) [1] [1] = (Success, [1], [])"
    and "gas_pt_core (ideal_gas_pressure (gas_constant perfect_mixture) 1 [1] 1000 [1]) 1000 [1]
      (nat (sint (1 :: c_int))) (replicate 27 0) [1] [1] = (Success, [1], [])"
    by (simp_all add: gas_pt_core_solved perfect_mixture_def)
  from rhou_model_perfect_gas [where mx = perfect_mixture and verbose = 0 and c = 2 and ?e0.0 = 100
      and Ts = 1000 and xs = "[1]" and rho = 1, OF gas_loads _ _ _ this(1) _ this(2)]
  show ?thesis
    by (simp add: perfect_mixture_def literature_policy_simps energy_converged_def relative_def)
qed

text \<open>
  The hypothesis on the start of the search cannot be dropped, and the
  tolerance of the search is one on the energy, not on the temperature. For the
  mixture \<open>offset_mixture\<close>, whose energy is \<open>T + 10\<^sup>9\<close>, the energy of the state at
  the temperature 1000 is within the relative tolerance \<open>10\<^sup>-\<^sup>6\<close> of the energy at
  the start temperature 900: \<^verbatim>\<open>rhou\<close> returns 0 at its first trial and leaves 900
  in \<open>T\<close>.
\<close>

lemma rhou_model_energy_tolerance:
  "\<exists>w'. rhou (solve_rhou_model (rhou_core (literature_policy 10) Reject nasa_ranges 1
       single_species_solver offset_mixture))
     1 (energy offset_mixture (replicate 27 0) [1] 1000 [1]) 10 1 1 30 60 62 20 24 0 gas_world =
       Inr (0, w') \<and>
     load w' 24 = Inr 900 \<and> load_array w' 20 1 = Inr [1]"
proof -
  have "rhou_core (literature_policy 10) Reject nasa_ranges 1 single_species_solver offset_mixture
      1 1000001000 [1] (nat (sint (1 :: c_int))) (replicate 27 0) [1] [1] = (Success, [1], 900, [])"
    by (simp add: rhou_core_def offset_mixture_def literature_policy_simps
        outer_loop_unfold [where k = 10] energy_converged_def relative_def gas_pt_core_solved)
  from rhou_model_call [OF rhou_core_shaped gas_loads this, where verbose = 0] show ?thesis
    by (simp add: offset_mixture_def)
qed

end
