(* ===== verification/Worker_Pool.thy ===== *)
theory Worker_Pool
  imports C_Loop
begin

text \<open>
  The body of a loop run by several workers. The rows of a batch are dealt out
  to the workers, each worker holding a queue of the indices it still has to
  process, and the workers share the world. One step of the pool is one run of
  the body by one worker on the first index of its queue; the body is atomic,
  and which worker moves next is not determined. As in the loop of the
  program, a run of the body that returns a status ends the whole pool, and so
  does a fault. \<open>pool_step\<close> is this relation, \<open>pool_run\<close> is the pool driven
  by a list of scheduling decisions; the lemmas show that the two agree, that
  every step shortens the queues, and that the loop over a list of indices is
  the pool of a single worker.
\<close>

section \<open>Definitions\<close>

datatype ('e, 'w) pool = Working "c_int list list" 'w | Stopped c_int 'w | Crashed 'e

inductive pool_step :: "('e, 'w) loop_body \<Rightarrow> ('e, 'w) pool \<Rightarrow> ('e, 'w) pool \<Rightarrow> bool"
  for body where
  pool_next: "k < length qs \<Longrightarrow> qs ! k = i # rest \<Longrightarrow> body i w = Inr (Next, w') \<Longrightarrow>
    pool_step body (Working qs w) (Working (qs[k := rest]) w')"
| pool_return: "k < length qs \<Longrightarrow> qs ! k = i # rest \<Longrightarrow> body i w = Inr (Return r, w') \<Longrightarrow>
    pool_step body (Working qs w) (Stopped r w')"
| pool_fault: "k < length qs \<Longrightarrow> qs ! k = i # rest \<Longrightarrow> body i w = Inl e \<Longrightarrow>
    pool_step body (Working qs w) (Crashed e)"

inductive pool_steps :: "('e, 'w) loop_body \<Rightarrow> ('e, 'w) pool \<Rightarrow> ('e, 'w) pool \<Rightarrow> bool"
  for body where
  pool_refl: "pool_steps body c c"
| pool_more: "pool_step body c c' \<Longrightarrow> pool_steps body c' c'' \<Longrightarrow> pool_steps body c c''"

text \<open>The indices that are still in a queue.\<close>

fun pending :: "('e, 'w) pool \<Rightarrow> c_int list" where
  "pending (Working qs w) = concat qs"
| "pending (Stopped r w) = []"
| "pending (Crashed e) = []"

text \<open>
  The pool driven by a scheduler: each element of the list names the worker
  that moves next; a worker that does not exist or whose queue is empty is
  passed over.
\<close>

fun pool_run :: "('e, 'w) loop_body \<Rightarrow> nat list \<Rightarrow> ('e, 'w) pool \<Rightarrow> ('e, 'w) pool" where
  "pool_run body [] c = c"
| "pool_run body (k # ks) (Working qs w) =
     (if k < length qs then
        (case qs ! k of
           [] \<Rightarrow> pool_run body ks (Working qs w)
         | i # rest \<Rightarrow>
             (case body i w of
                Inl e \<Rightarrow> Crashed e
              | Inr (Return r, w') \<Rightarrow> Stopped r w'
              | Inr (Next, w') \<Rightarrow> pool_run body ks (Working (qs[k := rest]) w')))
      else pool_run body ks (Working qs w))"
| "pool_run body (k # ks) (Stopped r w) = Stopped r w"
| "pool_run body (k # ks) (Crashed e) = Crashed e"

inductive_cases pool_step_WorkingE: "pool_step body (Working qs w) c"
inductive_cases pool_step_StoppedE: "pool_step body (Stopped r w) c"
inductive_cases pool_step_CrashedE: "pool_step body (Crashed e) c"

section \<open>Queues\<close>

lemma concat_update_head:
  assumes "k < length qs" and "qs ! k = i # rest"
  obtains as bs where "concat qs = as @ i # rest @ bs" and "concat (qs[k := rest]) = as @ rest @ bs"
proof
  from assms show "concat qs = concat (take k qs) @ i # rest @ concat (drop (Suc k) qs)"
    by (subst id_take_nth_drop [of k qs]) simp_all
  from assms(1) show "concat (qs[k := rest]) = concat (take k qs) @ rest @ concat (drop (Suc k) qs)"
    by (simp add: upd_conv_take_nth_drop)
qed

lemma pending_head:
  assumes "k < length qs" and "qs ! k = i # rest"
  shows "i \<in> set (concat qs)" and "set (concat (qs[k := rest])) \<subseteq> set (concat qs)"
    and "length (concat (qs[k := rest])) < length (concat qs)" and "concat qs \<noteq> []"
proof -
  from assms obtain as bs where
    c: "concat qs = as @ i # rest @ bs" "concat (qs[k := rest]) = as @ rest @ bs"
    by (rule concat_update_head)
  show "i \<in> set (concat qs)" and "set (concat (qs[k := rest])) \<subseteq> set (concat qs)"
    and "length (concat (qs[k := rest])) < length (concat qs)" and "concat qs \<noteq> []"
    unfolding c by auto
qed

lemma pending_head_distinct:
  assumes "k < length qs" and "qs ! k = i # rest" and "distinct (concat qs)"
  shows "distinct (concat (qs[k := rest]))"
    and "set (concat (qs[k := rest])) = set (concat qs) - {i}"
proof -
  from assms(1,2) obtain as bs where
    c: "concat qs = as @ i # rest @ bs" "concat (qs[k := rest]) = as @ rest @ bs"
    by (rule concat_update_head)
  from assms(3) show "distinct (concat (qs[k := rest]))"
    and "set (concat (qs[k := rest])) = set (concat qs) - {i}"
    unfolding c by auto
qed

lemma pending_worker:
  assumes "concat qs \<noteq> []"
  obtains k i rest where "k < length qs" and "qs ! k = i # rest"
proof -
  from assms obtain q where "q \<in> set qs" and "q \<noteq> []"
    by auto
  then obtain k i rest where "k < length qs" and "qs ! k = i # rest"
    by (metis in_set_conv_nth neq_Nil_conv)
  then show ?thesis by (rule that)
qed

section \<open>Steps\<close>

lemma pool_ended [simp]:
  "\<not> pool_step body (Stopped r w) c" "\<not> pool_step body (Crashed e) c"
  by (auto elim: pool_step_StoppedE pool_step_CrashedE)

lemma pool_steps_trans:
  "pool_steps body c c' \<Longrightarrow> pool_steps body c' c'' \<Longrightarrow> pool_steps body c c''"
  by (induction rule: pool_steps.induct) (auto intro: pool_steps.intros)

lemma pool_steps_step1: "pool_step body c c' \<Longrightarrow> pool_steps body c c'"
  by (blast intro: pool_steps.intros)

lemma pool_step_decreases:
  "pool_step body c c' \<Longrightarrow> pending c \<noteq> [] \<and> length (pending c') < length (pending c)"
  by (induction rule: pool_step.induct) (simp_all add: pending_head del: concat_eq_Nil_conv)

lemma pool_steps_pending:
  "pool_steps body c c' \<Longrightarrow> length (pending c') \<le> length (pending c)"
  by (induction rule: pool_steps.induct) (auto dest: pool_step_decreases)

lemma pool_steps_rtranclp: "pool_steps body c c' \<longleftrightarrow> rtranclp (pool_step body) c c'"
proof
  assume "pool_steps body c c'"
  then show "rtranclp (pool_step body) c c'"
    by induction (auto intro: converse_rtranclp_into_rtranclp)
next
  assume "rtranclp (pool_step body) c c'"
  then show "pool_steps body c c'"
    by (induction rule: converse_rtranclp_induct) (auto intro: pool_steps.intros)
qed

lemma pool_steps_relpowp: "pool_steps body c c' \<longleftrightarrow> (\<exists>n. (pool_step body ^^ n) c c')"
  by (simp add: pool_steps_rtranclp rtranclp_power)

text \<open>Every step that leaves the pool working takes one index out of the queues.\<close>

lemma pool_step_pending:
  assumes "pool_step body c (Working qs' w')"
  shows "Suc (length (concat qs')) = length (pending c)"
  using assms
proof cases
  case (pool_next k qs i rest w)
  from pool_next(3,4) obtain as bs where "concat qs = as @ i # rest @ bs"
    and "concat (qs[k := rest]) = as @ rest @ bs"
    by (rule concat_update_head)
  with pool_next(1,2) show ?thesis by simp
qed

lemma pool_relpowp_pending:
  "(pool_step body ^^ n) c (Working qs' w') \<Longrightarrow> length (concat qs') + n = length (pending c)"
proof (induction n arbitrary: qs' w')
  case 0
  then show ?case by simp
next
  case (Suc n)
  then obtain d where run: "(pool_step body ^^ n) c d" and step: "pool_step body d (Working qs' w')"
    by auto
  from step obtain qs w where "d = Working qs w"
    by cases simp_all
  with Suc.IH [of qs w] run pool_step_pending [OF step] show ?case by simp
qed

text \<open>A pool that has work left and has not ended can take a step.\<close>

lemma pool_step_total:
  assumes "concat qs \<noteq> []"
  shows "\<exists>c. pool_step body (Working qs w) c"
proof -
  from assms obtain k i rest where k: "k < length qs" "qs ! k = i # rest"
    by (rule pending_worker)
  show ?thesis
    by (cases "body i w" rule: loop_body_cases) (blast intro: pool_step.intros [OF k])+
qed

section \<open>The scheduler\<close>

lemma pool_run_ended [simp]:
  "pool_run body ks (Stopped r w) = Stopped r w" "pool_run body ks (Crashed e) = Crashed e"
  by (cases ks; simp)+

lemma pool_run_steps: "pool_steps body c (pool_run body ks c)"
proof (induction body ks c rule: pool_run.induct)
  case (2 body k ks qs w)
  show ?case
  proof (cases "k < length qs \<and> qs ! k \<noteq> []")
    case False
    with 2 show ?thesis
      by (auto split: list.splits)
  next
    case True
    then obtain i rest where k: "k < length qs" "qs ! k = i # rest"
      by (auto simp: neq_Nil_conv)
    show ?thesis
    proof (cases "body i w" rule: loop_body_cases)
      case (Next w')
      with k 2(2) [OF k(1) k(2) Next] show ?thesis
        by (auto intro: pool_more pool_next [OF k])
    qed (use k in \<open>auto intro: pool_steps_step1 pool_step.intros\<close>)
  qed
qed (auto intro: pool_steps.intros)

lemma pool_step_run:
  assumes "pool_step body c c'"
  shows "\<exists>k. pool_run body (k # ks) c = pool_run body ks c'"
  using assms
proof cases
  case (pool_next k qs i rest w w')
  then have "pool_run body (k # ks) c = pool_run body ks c'" by simp
  then show ?thesis ..
next
  case (pool_return k qs i rest w r w')
  then have "pool_run body (k # ks) c = pool_run body ks c'" by simp
  then show ?thesis ..
next
  case (pool_fault k qs i rest w e)
  then have "pool_run body (k # ks) c = pool_run body ks c'" by simp
  then show ?thesis ..
qed

lemma pool_steps_run: "pool_steps body c c' \<Longrightarrow> \<exists>ks. pool_run body ks c = c'"
proof (induction rule: pool_steps.induct)
  case (pool_refl c)
  have "pool_run body [] c = c" by simp
  then show ?case ..
next
  case (pool_more c c' c'')
  then obtain ks where "pool_run body ks c' = c''" by blast
  with pool_step_run [OF pool_more(1), of ks] show ?case by metis
qed

lemma pool_steps_iff_run: "pool_steps body c c' \<longleftrightarrow> (\<exists>ks. pool_run body ks c = c')"
  using pool_run_steps [of body c] pool_steps_run [of body c c'] by auto

section \<open>One worker\<close>

text \<open>
  The loop over a list of indices is one execution of the pool of a single
  worker: the pool crashes with the fault of the loop, stops with its status,
  or ends with an empty queue in the world the loop leaves.
\<close>

lemma pool_single_run:
  assumes "nonzero_return body"
  shows "pool_steps body (Working [xs] w)
    (case run_list body xs w of
       Inl e \<Rightarrow> Crashed e
     | Inr (r, w') \<Rightarrow> if r = 0 then Working [[]] w' else Stopped r w')"
proof (induction xs arbitrary: w)
  case Nil
  show ?case by (simp add: pool_refl)
next
  case (Cons i xs)
  have k: "0 < length [i # xs]" "[i # xs] ! 0 = i # xs"
    by simp_all
  show ?case
  proof (cases "body i w" rule: loop_body_cases)
    case (Fault e)
    with pool_fault [OF k, of body w e] show ?thesis
      by (simp add: pool_steps_step1)
  next
    case (Next w1)
    with pool_next [OF k, of body w w1] Cons.IH [of w1] show ?thesis
      by (auto intro: pool_more)
  next
    case (Return r w1)
    with assms have "r \<noteq> 0"
      by (auto simp: nonzero_return_def)
    with Return pool_return [OF k, of body w r w1] show ?thesis
      by (simp add: pool_steps_step1)
  qed
qed

end
