(* ===== verification/Batch_Schedule.thy ===== *)
theory Batch_Schedule
  imports Batch_Run Worker_Pool
begin

text \<open>
  The rows of a batch solved in another order, or by several workers. The
  program solves the rows in the order of the index; its calls, however, are
  independent when each call writes its own output cells only and reads
  nothing another call writes. This theory shows what that independence gives:
  a batch run over any list of distinct rows returns the status of the first
  row of that list whose direct call on the initial memory fails, and when no
  call fails every order, and every execution of a pool of workers, leaves the
  memory that the calls made one by one on the initial memory leave; so do the
  batches of the two parts of a batch, run in the other order.
\<close>

section \<open>Definitions\<close>

text \<open>A schedule of a batch of \<open>N\<close> rows: every row once, in any order.\<close>

definition schedule :: "c_int \<Rightarrow> c_int list \<Rightarrow> bool" where
  "schedule N xs \<longleftrightarrow> distinct xs \<and> set xs = set (indices_from 0 N)"

text \<open>The body of the loop of a batch run over the rows \<open>xs\<close>, in this order.\<close>

definition batch_order ::
  "'d call_at \<Rightarrow> string \<Rightarrow> c_int list \<Rightarrow> 'd world \<Rightarrow> fault + (c_int \<times> 'd world)" where
  "batch_order call fmt xs w = run_list (batch_body call fmt) xs w"

text \<open>
  A state of a pool that started in \<open>w\<close> with the rows \<open>R\<close>: while the pool is
  working no row is queued twice and the rows that have left the queues are
  solved; when it has stopped, its status is the status, other than 0, of the
  direct call for one of the rows; it has not faulted.
\<close>

fun pool_ok ::
  "'d call_at \<Rightarrow> (c_int \<Rightarrow> addr set) \<Rightarrow> 'd world \<Rightarrow> c_int set \<Rightarrow> (fault, 'd world) pool \<Rightarrow> bool" where
  "pool_ok call outs w R (Working qs w1) \<longleftrightarrow>
     distinct (concat qs) \<and> set (concat qs) \<subseteq> R \<and>
     calls_solved call outs w (R - set (concat qs)) w1"
| "pool_ok call outs w R (Stopped r w1) \<longleftrightarrow> r \<noteq> 0 \<and> (\<exists>i\<in>R. \<exists>wi. call i w = Inr (r, wi))"
| "pool_ok call outs w R (Crashed e) \<longleftrightarrow> False"

section \<open>Schedules\<close>

lemma schedule_indices [simp]: "schedule N (indices_from 0 N)"
  by (simp add: schedule_def distinct_indices_from)

lemma schedule_rows: "schedule N xs \<Longrightarrow> i \<in> set xs \<longleftrightarrow> in_batch N i"
  by (simp add: schedule_def in_batch_indices)

lemma schedule_length: "schedule N xs \<Longrightarrow> length xs = length (indices_from 0 N)"
  by (metis schedule_def distinct_card distinct_indices_from)

text \<open>
  Two workers on the two ranges of a batch cut at \<open>k\<close>: the rows from \<open>k\<close> on,
  followed by the rows before \<open>k\<close>, are a schedule, and so are the two ranges as
  the queues of a pool.
\<close>

lemma schedule_ranges:
  assumes "0 \<le> sint k" and "sint k \<le> sint N"
  shows "schedule N (indices_from k N @ indices_from 0 k)"
    and "schedule N (concat [indices_from 0 k, indices_from k N])"
  using distinct_indices_from [of 0 N]
  by (auto simp: schedule_def indices_from_append [OF assms])

lemma batch_order_indices: "batch_order call fmt (indices_from 0 N) w = batch_run call fmt N w"
  by (simp add: batch_order_def batch_run_list)

section \<open>Calls in a memory where other rows are solved\<close>

lemma calls_solved_empty [simp]: "calls_solved call outs w {} w"
  by (simp add: calls_solved_def)

text \<open>
  A call for a row that is not yet solved does in the current memory what it
  does in the initial memory.
\<close>

lemma calls_solved_call:
  assumes "call_local call reads outs N" and "calls_separate reads outs N"
    and "in_batch N i" and "D \<subseteq> {j. in_batch N j}" and "i \<notin> D"
    and "calls_solved call outs w D w1"
  shows "outcome_rel (outs i) (call i w) (call i w1)"
proof -
  note agree = calls_solved_reads [OF assms(2-6)]
  from assms(6) have "dom (heap w) = dom (heap w1)"
    unfolding calls_solved_def by (blast dest: same_outside_dom)
  with assms(1,3) agree show ?thesis
    unfolding call_local_def by blast
qed

text \<open>The memory in which a set of rows is solved is determined.\<close>

lemma calls_solved_heap:
  assumes "calls_solved call outs w D w1" and "calls_solved call outs w D w2"
  shows "heap w1 = heap w2"
proof
  fix x
  show "heap w1 x = heap w2 x"
  proof (cases "x \<in> (\<Union>i\<in>D. outs i)")
    case False
    with assms have "heap w1 x = heap w x" and "heap w2 x = heap w x"
      unfolding calls_solved_def by (blast dest: same_outside_heap)+
    then show ?thesis by simp
  next
    case True
    then obtain i where i: "i \<in> D" and x: "x \<in> outs i" by blast
    from assms i obtain wi where "agree_on (outs i) wi w1" and "agree_on (outs i) wi w2"
      unfolding calls_solved_def by fastforce
    with x show ?thesis
      by (simp add: agree_on_def)
  qed
qed

section \<open>A batch in any order\<close>

text \<open>
  The run over the rows \<open>xs\<close>, started where the rows \<open>D\<close> are solved, returns the
  status of the first row of \<open>xs\<close> whose direct call fails; when there is none,
  the rows of \<open>xs\<close> are solved as well.
\<close>

lemma run_list_first_failure:
  fixes w :: "'d world"
  assumes "call_frame call outs N" and "call_local call reads outs N"
    and "calls_separate reads outs N"
    and "distinct xs" and "set xs \<subseteq> {j. in_batch N j}"
    and "D \<subseteq> {j. in_batch N j}" and "D \<inter> set xs = {}" and "calls_solved call outs w D w1"
    and "\<forall>i\<in>set xs. \<exists>r wi. call i w = Inr (r, wi)"
  defines "ff \<equiv> first_failure (direct_status call w)"
  shows "\<exists>w'. run_list (batch_body call fmt) xs w1 = Inr (status_of (ff xs), w') \<and>
    (ff xs = None \<longrightarrow> calls_solved call outs w (D \<union> set xs) w')"
  using assms(4-9)
proof (induction xs arbitrary: D w1)
  case Nil
  then show ?case by (simp add: ff_def status_of_def)
next
  case (Cons i xs)
  from Cons.prems(2) have i: "in_batch N i" by simp
  from Cons.prems(4) have notin: "i \<notin> D" by simp
  from Cons.prems(6) obtain r wi where wi: "call i w = Inr (r, wi)" by auto
  with calls_solved_call [where call = call, OF assms(2,3) i Cons.prems(3) notin Cons.prems(5)]
  obtain w2 where w2: "call i w1 = Inr (r, w2)" by auto
  from wi have r: "direct_status call w i = r"
    by (simp add: direct_status_def)
  show ?case
  proof (cases "r = 0")
    case False
    with w2 r show ?thesis
      by (simp add: batch_body_def ff_def status_of_def)
  next
    case True
    with w2 have body: "batch_body call fmt i w1 = Inr (Next, w2)"
      by (simp add: batch_body_Next)
    note solved = calls_solved_step [where call = call, OF assms(1-3) i Cons.prems(3) notin Cons.prems(5) body]
    have "\<exists>w'. run_list (batch_body call fmt) xs w2 = Inr (status_of (ff xs), w') \<and>
      (ff xs = None \<longrightarrow> calls_solved call outs w (insert i D \<union> set xs) w')"
      using Cons.prems i solved by (intro Cons.IH) auto
    with body True r show ?thesis
      by (simp add: ff_def)
  qed
qed

lemma batch_order_refines:
  fixes w :: "'d world"
  assumes "call_frame call outs N" and "call_local call reads outs N"
    and "calls_separate reads outs N"
    and "distinct xs" and "set xs \<subseteq> {j. in_batch N j}"
    and "\<forall>i\<in>set xs. \<exists>r wi. call i w = Inr (r, wi)"
  defines "ff \<equiv> first_failure (direct_status call w) xs"
  shows "\<exists>w'. batch_order call fmt xs w = Inr (status_of ff, w') \<and>
    (ff = None \<longrightarrow> calls_solved call outs w (set xs) w')"
  using run_list_first_failure [where call = call and D = "{}" and ?w1.0 = w, OF assms(1-5) _ _ _ assms(6), of fmt]
  by (simp add: batch_order_def ff_def)

text \<open>
  When the batch in the order of the program returns 0, it returns 0 in every
  order, and with the same memory.
\<close>

lemma batch_order_agrees:
  fixes w :: "'d world"
  assumes "call_frame call outs N" and "call_local call reads outs N"
    and "calls_separate reads outs N" and "batch_run call fmt N w = Inr (0, w')"
    and "schedule N xs"
  shows "\<exists>w''. batch_order call fmt xs w = Inr (0, w'') \<and> heap w'' = heap w'"
proof -
  note solved = batch_run_independent [where call = call, OF assms(1-4)]
  from assms(5) have xs: "distinct xs" "set xs \<subseteq> {j. in_batch N j}"
    by (auto simp: schedule_def in_batch_indices)
  have zero: "direct_status call w i = 0" if "i \<in> set xs" for i
    using solved [of i] that assms(5) by (auto simp: direct_status_def schedule_rows)
  then have none: "first_failure (direct_status call w) xs = None"
    by (simp add: first_failure_None)
  have "\<forall>i\<in>set xs. \<exists>r wi. call i w = Inr (r, wi)"
    using solved assms(5) by (blast dest: schedule_rows [THEN iffD1])
  from batch_order_refines [where call = call, OF assms(1-3) xs this, of fmt] none
  obtain w'' where run: "batch_order call fmt xs w = Inr (0, w'')"
    and "calls_solved call outs w (set xs) w''"
    by (auto simp: status_of_def)
  moreover from assms(4) have "run_next (batch_body call fmt) (indices_from 0 N) w = Some w'"
    by (simp only: batch_run_prefix)
  then have "calls_solved call outs w (set (indices_from 0 N)) w'"
    by (intro batch_prefix_solved [where call = call, OF assms(1-3)]) (simp_all add: in_batch_indices)
  ultimately have "heap w'' = heap w'"
    using assms(5) by (intro calls_solved_heap [where call = call]) (simp_all add: schedule_def)
  with run show ?thesis by blast
qed

section \<open>The two parts of a batch in the other order\<close>

lemma run_next_shift:
  "run_next (batch_body (\<lambda>i. call (i + k)) fmt) xs w = Some w' \<longleftrightarrow>
   run_next (batch_body call fmt) (map (\<lambda>i. i + k) xs) w = Some w'"
  by (induction xs arbitrary: w)
    (simp_all add: run_next_Cons_eq_Some batch_body_Next del: run_next.simps(2))

text \<open>
  When the batch returns 0, the batch of the rows from \<open>k\<close> on followed by the
  batch of the rows before \<open>k\<close> returns 0 twice and leaves the same memory.
\<close>

lemma batch_run_parts_commute:
  fixes w :: "'d world"
  assumes "call_frame call outs N" and "call_local call reads outs N"
    and "calls_separate reads outs N" and "0 \<le> sint k" and "sint k \<le> sint N"
    and "batch_run call fmt N w = Inr (0, w')"
  shows "\<exists>w1 w2. batch_run (\<lambda>i. call (i + k)) fmt (N - k) w = Inr (0, w1) \<and>
    batch_run call fmt k w1 = Inr (0, w2) \<and> heap w2 = heap w'"
proof -
  let ?body = "batch_body call fmt"
  from batch_order_agrees [OF assms(1-3,6) schedule_ranges(1) [OF assms(4,5)]]
  obtain w2 where run: "run_list ?body (indices_from k N @ indices_from 0 k) w = Inr (0, w2)"
    and heap: "heap w2 = heap w'"
    unfolding batch_order_def by blast
  from run have "run_next ?body (indices_from k N @ indices_from 0 k) w = Some w2"
    by (intro run_list_zero_next nonzero_return_batch_body)
  then obtain w1 where rest: "run_next ?body (indices_from k N) w = Some w1"
    and first: "run_next ?body (indices_from 0 k) w1 = Some w2"
    by (auto simp: run_next_append bind_eq_Some_conv)
  from rest have "run_next (batch_body (\<lambda>i. call (i + k)) fmt) (indices_from 0 (N - k)) w = Some w1"
    by (simp add: run_next_shift indices_from_shift [OF assms(4,5)])
  with first heap show ?thesis
    by (auto simp: batch_run_list dest: run_list_of_next)
qed

section \<open>A pool of workers\<close>

lemma pool_ok_start:
  "distinct (concat qs) \<Longrightarrow> pool_ok call outs w (set (concat qs)) (Working qs w)"
  by simp

lemma pool_ok_step:
  fixes w :: "'d world"
  assumes "call_frame call outs N" and "call_local call reads outs N"
    and "calls_separate reads outs N" and "R \<subseteq> {j. in_batch N j}"
    and "\<forall>i\<in>R. \<exists>r wi. call i w = Inr (r, wi)"
    and "pool_ok call outs w R c" and "pool_step (batch_body call fmt) c c'"
  shows "pool_ok call outs w R c'"
proof -
  from assms(7) obtain qs w1 where c: "c = Working qs w1"
    by cases simp_all
  let ?D = "R - set (concat qs)"
  from assms(6) have ok: "distinct (concat qs)" "set (concat qs) \<subseteq> R"
    "calls_solved call outs w ?D w1"
    by (simp_all add: c)
  from assms(7) obtain k i rest where k: "k < length qs" "qs ! k = i # rest"
    and c': "c' = (case batch_body call fmt i w1 of Inl e \<Rightarrow> Crashed e
                  | Inr (Next, w2) \<Rightarrow> Working (qs[k := rest]) w2
                  | Inr (Return r, w2) \<Rightarrow> Stopped r w2)"
    unfolding c by (auto elim!: pool_step_WorkingE)
  from pending_head(1) [OF k] ok(2) assms(4) have i: "i \<in> R" "in_batch N i" "i \<notin> ?D"
    by auto
  have D: "?D \<subseteq> {j. in_batch N j}"
    using assms(4) by blast
  from assms(5) i(1) obtain r wi where wi: "call i w = Inr (r, wi)" by blast
  with calls_solved_call [where call = call, OF assms(2,3) i(2) D i(3) ok(3)]
  obtain w2 where w2: "call i w1 = Inr (r, w2)" by auto
  show ?thesis
  proof (cases "r = 0")
    case False
    with w2 wi i(1) show ?thesis
      unfolding c' by (auto simp: batch_body_def)
  next
    case True
    with w2 have body: "batch_body call fmt i w1 = Inr (Next, w2)"
      by (simp add: batch_body_Next)
    note calls_solved_step [where call = call, OF assms(1-3) i(2) D i(3) ok(3) body]
    moreover have "insert i ?D = R - set (concat (qs[k := rest]))"
      using i(1) pending_head_distinct(2) [OF k ok(1)] by auto
    ultimately show ?thesis
      using ok(2) pending_head_distinct(1) [OF k ok(1)] pending_head(2) [OF k]
      unfolding c' body by auto
  qed
qed

lemma pool_ok_steps:
  fixes w :: "'d world"
  assumes "call_frame call outs N" and "call_local call reads outs N"
    and "calls_separate reads outs N" and "R \<subseteq> {j. in_batch N j}"
    and "\<forall>i\<in>R. \<exists>r wi. call i w = Inr (r, wi)"
    and "pool_steps (batch_body call fmt) c c'" and "pool_ok call outs w R c"
  shows "pool_ok call outs w R c'"
  using assms(6,7)
  by (induction rule: pool_steps.induct) (blast intro: pool_ok_step [OF assms(1-5)])+

lemma pool_reaches_ok:
  fixes w :: "'d world"
  assumes "call_frame call outs N" and "call_local call reads outs N"
    and "calls_separate reads outs N" and "distinct (concat qs)"
    and "set (concat qs) \<subseteq> {j. in_batch N j}"
    and "\<forall>i\<in>set (concat qs). \<exists>r wi. call i w = Inr (r, wi)"
    and "pool_steps (batch_body call fmt) (Working qs w) c"
  shows "pool_ok call outs w (set (concat qs)) c"
  using assms(1-3,5-7) pool_ok_start [OF assms(4)] by (rule pool_ok_steps)

text \<open>
  A pool whose rows all have a direct call that returns never faults, and a
  status it stops with is the status of the direct call for one of its rows.
\<close>

lemma pool_stops:
  fixes w :: "'d world"
  assumes "call_frame call outs N" and "call_local call reads outs N"
    and "calls_separate reads outs N" and "distinct (concat qs)"
    and "set (concat qs) \<subseteq> {j. in_batch N j}"
    and "\<forall>i\<in>set (concat qs). \<exists>r wi. call i w = Inr (r, wi)"
    and "pool_steps (batch_body call fmt) (Working qs w) c"
  shows "c \<noteq> Crashed e"
    and "c = Stopped r w' \<Longrightarrow> r \<noteq> 0 \<and> (\<exists>i\<in>set (concat qs). direct_status call w i = r)"
proof -
  note ok = pool_reaches_ok [OF assms]
  from ok show "c \<noteq> Crashed e" by auto
  show "r \<noteq> 0 \<and> (\<exists>i\<in>set (concat qs). direct_status call w i = r)" if "c = Stopped r w'"
  proof -
    from ok that obtain i wi where "r \<noteq> 0" and "i \<in> set (concat qs)" and "call i w = Inr (r, wi)"
      by (auto simp del: set_concat)
    then show ?thesis
      by (intro conjI bexI [of _ i]) (simp_all add: direct_status_def del: set_concat)
  qed
qed

text \<open>
  A pool that is given the rows of a batch that returns 0 never stops early and
  never faults; after \<open>n\<close> steps \<open>n\<close> rows have left the queues; while a row is
  queued the pool can take a step, and when the queues are empty, after \<open>N\<close>
  steps, the memory is the one the batch leaves.
\<close>

lemma pool_agrees:
  fixes w :: "'d world"
  assumes "call_frame call outs N" and "call_local call reads outs N"
    and "calls_separate reads outs N" and "batch_run call fmt N w = Inr (0, w')"
    and "schedule N (concat qs)"
    and "(pool_step (batch_body call fmt) ^^ n) (Working qs w) c"
  shows "\<exists>qs' w1. c = Working qs' w1 \<and> length (concat qs') + n = nat (sint N) \<and>
    (if concat qs' = [] then heap w1 = heap w' else \<exists>c'. pool_step (batch_body call fmt) c c')"
proof -
  let ?R = "set (concat qs)"
  note solved = batch_run_independent [where call = call, OF assms(1-4)]
  from assms(5) have R: "?R \<subseteq> {j. in_batch N j}" and rows: "?R = set (indices_from 0 N)"
    and dist: "distinct (concat qs)"
    by (auto simp: schedule_def in_batch_indices)
  have zero: "\<exists>wi. call i w = Inr (0, wi)" if "i \<in> ?R" for i
    using solved [of i] R that by blast
  then have "\<forall>i\<in>?R. \<exists>r wi. call i w = Inr (r, wi)"
    by blast
  moreover from assms(6) have "pool_steps (batch_body call fmt) (Working qs w) c"
    unfolding pool_steps_relpowp ..
  ultimately have "pool_ok call outs w ?R c"
    by (intro pool_reaches_ok [OF assms(1-3) dist R])
  then obtain qs' w1 where c: "c = Working qs' w1"
    and ok: "calls_solved call outs w (?R - set (concat qs')) w1"
    using zero by (cases c) fastforce+
  from assms(4) have "run_next (batch_body call fmt) (indices_from 0 N) w = Some w'"
    by (simp only: batch_run_prefix)
  then have "calls_solved call outs w ?R w'"
    unfolding rows
    by (intro batch_prefix_solved [where call = call, OF assms(1-3)]) (simp_all add: in_batch_indices)
  with ok have "heap w1 = heap w'" if "concat qs' = []"
    using that by (intro calls_solved_heap [where call = call and D = ?R]) simp_all
  moreover from pool_relpowp_pending [OF assms(6) [unfolded c]] schedule_length [OF assms(5)]
  have "length (concat qs') + n = nat (sint N)"
    by (simp add: length_indices_from)
  ultimately show ?thesis
    using c pool_step_total [of qs' "batch_body call fmt" w1] by auto
qed

end
