(* ===== verification/Batch_Order.thy ===== *)
theory Batch_Order
  imports Batch_Pt_Memory Batch_Rhou_Memory Batch_Schedule
begin

text \<open>
  The loop bodies of \<^verbatim>\<open>batch_pt\<close> and \<^verbatim>\<open>batch_rhou\<close> run over the rows in another
  order, and by a pool of workers. The program solves row 0 first and row
  \<open>N - 1\<close> last; the theorems say what of its result depends on that order (which
  failure is reported) and what does not (whether there is one, and the memory
  when there is none). They are the lemmas of \<open>Batch_Schedule\<close> at the calls of
  the two functions, under the contracts of the solver.
\<close>

section \<open>Calls that return\<close>

lemma call_safe_returns:
  fixes w :: "'d world"
  assumes "call_safe call A N" and "A \<subseteq> dom (heap w)" and "R \<subseteq> set (indices_from 0 N)"
  shows "\<forall>i\<in>R. \<exists>r wi. call i w = Inr (r, wi)"
  using assms unfolding call_safe_def in_batch_indices by blast

lemma rows_in_batch: "R \<subseteq> set (indices_from 0 N) \<Longrightarrow> R \<subseteq> {j. in_batch N j}"
  by (auto simp: in_batch_indices)

section \<open>\<^verbatim>\<open>batch_pt\<close> in any order\<close>

text \<open>
  The program is the pool of one worker whose queue holds the rows in the order
  of the index: what holds of every execution of a pool holds of \<^verbatim>\<open>batch_pt\<close>.
\<close>

lemma batch_pt_one_worker:
  "pool_steps (batch_pt_body solve p T X0 nsp nel lewis M a X1 verbose)
     (Working [indices_from 0 N] w)
     (case batch_pt solve N p T X0 nsp nel lewis M a X1 verbose w of
        Inl e \<Rightarrow> Crashed e
      | Inr (r, w') \<Rightarrow> if r = 0 then Working [[]] w' else Stopped r w')"
  unfolding batch_pt_def for_loop_run_list batch_pt_body_eq
  by (rule pool_single_run) (rule nonzero_return_batch_body)

text \<open>
  C10. The order of the rows does not matter to a batch that succeeds. Assume
  the solver writes its output cells only and its outcome is a function of its
  input cells, the offsets fit in \<^verbatim>\<open>int\<close>, and \<open>X1\<close> is separate from the inputs or
  equal to \<open>X0\<close>. If \<^verbatim>\<open>batch_pt\<close> returns 0, then the body of its loop run over the
  rows \<open>0, \<dots>, N - 1\<close> in any other order returns 0 as well and leaves the same
  memory; only the text the solver may have printed can come in another order.
\<close>

theorem batch_pt_any_order:
  assumes "pt_frame solve" and "pt_local solve"
    and "batch_pt_separate N p T X0 nsp nel lewis M a X1" and "batch_fits N nsp"
    and "batch_pt solve N p T X0 nsp nel lewis M a X1 verbose w = Inr (0, w')"
    and "schedule N xs"
  shows "\<exists>w''. run_list (batch_pt_body solve p T X0 nsp nel lewis M a X1 verbose) xs w = Inr (0, w'') \<and>
    heap w'' = heap w'"
  using pt_call_frame [OF assms(1,4)] pt_call_local [OF assms(2,4)] pt_calls_separate [OF assms(3,4)]
    assms(5) [unfolded batch_pt_batch_run] assms(6)
  unfolding batch_pt_body_eq batch_order_def [symmetric] by (rule batch_order_agrees)

theorem batch_pt_any_order_witness:
  "schedule 2 [1, 0] \<and>
   (\<exists>w' w''. batch_pt probe_solve_pt 2 2 0 10 2 1 30 40 50 20 0 probe_world = Inr (0, w') \<and>
      run_list (batch_pt_body probe_solve_pt 2 0 10 2 1 30 40 50 20 0) [1, 0] probe_world = Inr (0, w'') \<and>
      heap w'' = heap w')"
proof -
  have "\<exists>w'. batch_pt probe_solve_pt 2 2 0 10 2 1 30 40 50 20 0 probe_world = Inr (0, w')"
    by (simp add: batch_pt_unfold for_loop.simps probe_eval)
  then obtain w' where run: "batch_pt probe_solve_pt 2 2 0 10 2 1 30 40 50 20 0 probe_world = Inr (0, w')" ..
  have sep: "batch_pt_separate 2 2 0 10 2 1 30 40 50 20"
    by (simp add: batch_pt_separate_def disjoint_regions_def)
  have fits: "batch_fits 2 2" by (simp add: batch_fits_def)
  have sched: "schedule 2 [1, 0]"
    by (auto simp: schedule_def indices_from_def upto.simps)
  from batch_pt_any_order [OF probe_pt_frame probe_pt_local sep fits run sched] run sched
  show ?thesis by blast
qed

text \<open>
  C12. The rows of \<^verbatim>\<open>batch_pt\<close> solved by a pool of workers. Under the assumptions
  of the previous theorem, let the rows \<open>0, \<dots>, N - 1\<close> be dealt out to any number
  of workers in any way, each worker running the body of the loop of \<^verbatim>\<open>batch_pt\<close>
  on its rows, one call at a time, the workers taking turns in any order. If
  \<^verbatim>\<open>batch_pt\<close> returns 0, then no execution of the pool stops with a status or
  faults; after \<open>n\<close> steps \<open>N - n\<close> rows are left; the pool can take a step while
  a row is left, and when no row is left, after \<open>N\<close> steps, the memory is the one
  \<^verbatim>\<open>batch_pt\<close> leaves.
\<close>

theorem batch_pt_workers:
  assumes "pt_frame solve" and "pt_local solve"
    and "batch_pt_separate N p T X0 nsp nel lewis M a X1" and "batch_fits N nsp"
    and "batch_pt solve N p T X0 nsp nel lewis M a X1 verbose w = Inr (0, w')"
    and "schedule N (concat qs)"
    and "(pool_step (batch_pt_body solve p T X0 nsp nel lewis M a X1 verbose) ^^ n) (Working qs w) c"
  shows "\<exists>qs' w1. c = Working qs' w1 \<and> length (concat qs') + n = nat (sint N) \<and>
    (if concat qs' = [] then heap w1 = heap w'
     else \<exists>c'. pool_step (batch_pt_body solve p T X0 nsp nel lewis M a X1 verbose) c c')"
  using pt_call_frame [OF assms(1,4)] pt_call_local [OF assms(2,4)] pt_calls_separate [OF assms(3,4)]
    assms(5) [unfolded batch_pt_batch_run] assms(6) assms(7) [unfolded batch_pt_body_eq]
  unfolding batch_pt_body_eq by (rule pool_agrees)

theorem batch_pt_workers_witness:
  "\<exists>w' w1. batch_pt probe_solve_pt 2 2 0 10 2 1 30 40 50 20 0 probe_world = Inr (0, w') \<and>
     pool_run (batch_pt_body probe_solve_pt 2 0 10 2 1 30 40 50 20 0) [1, 0]
       (Working [[0], [1]] probe_world) = Working [[], []] w1 \<and> heap w1 = heap w'"
proof -
  let ?body = "batch_pt_body probe_solve_pt 2 0 10 2 1 30 40 50 20 0"
  have "\<exists>w'. batch_pt probe_solve_pt 2 2 0 10 2 1 30 40 50 20 0 probe_world = Inr (0, w')"
    by (simp add: batch_pt_unfold for_loop.simps probe_eval)
  then obtain w' where run: "batch_pt probe_solve_pt 2 2 0 10 2 1 30 40 50 20 0 probe_world = Inr (0, w')" ..
  have "\<exists>w1. pool_run ?body [1, 0] (Working [[0], [1]] probe_world) = Working [[], []] w1"
    by (simp add: batch_pt_body_def probe_eval)
  then obtain w1 where pool: "pool_run ?body [1, 0] (Working [[0], [1]] probe_world) = Working [[], []] w1" ..
  have sep: "batch_pt_separate 2 2 0 10 2 1 30 40 50 20"
    by (simp add: batch_pt_separate_def disjoint_regions_def)
  have fits: "batch_fits 2 2" by (simp add: batch_fits_def)
  have sched: "schedule 2 (concat [[0], [1]])"
    by (auto simp: schedule_def indices_from_def upto.simps)
  from pool_run_steps [of ?body "Working [[0], [1]] probe_world" "[1, 0]"]
  obtain n where "(pool_step ?body ^^ n) (Working [[0], [1]] probe_world) (Working [[], []] w1)"
    unfolding pool pool_steps_relpowp ..
  from batch_pt_workers [OF probe_pt_frame probe_pt_local sep fits run sched this] run pool
  show ?thesis by auto
qed

text \<open>
  C13. What the order decides is which failure is reported. With the contracts
  of the solver, offsets that fit in \<^verbatim>\<open>int\<close>, arrays allocated with the sizes of the
  comment and \<open>X1\<close> separate from the inputs or equal to \<open>X0\<close>, the body of the loop
  of \<^verbatim>\<open>batch_pt\<close> run over any list of distinct rows returns, and its status is the
  status of the first row of that list whose direct call on the initial memory
  has a status other than 0, or 0 when there is none. So every order of the
  rows fails when one does, but two orders may return different statuses.
\<close>

theorem batch_pt_order_first_failure:
  fixes w :: "'d world"
  assumes "pt_safe solve" and "pt_frame solve" and "pt_local solve"
    and "batch_pt_separate N p T X0 nsp nel lewis M a X1" and "batch_fits N nsp"
    and "batch_pt_inputs N p T X0 nsp nel lewis M a \<union> batch_pt_outputs N X1 nsp \<subseteq> dom (heap w)"
    and "distinct xs" and "set xs \<subseteq> set (indices_from 0 N)"
  shows "\<exists>w'. run_list (batch_pt_body solve p T X0 nsp nel lewis M a X1 verbose) xs w =
    Inr (status_of (first_failure
      (direct_status (pt_call_at solve p T X0 nsp nel lewis M a X1 verbose) w) xs), w')"
proof -
  let ?call = "pt_call_at solve p T X0 nsp nel lewis M a X1 verbose"
  from batch_order_refines [where call = ?call, OF pt_call_frame [OF assms(2,5)]
      pt_call_local [OF assms(3,5)] pt_calls_separate [OF assms(4,5)] assms(7)
      rows_in_batch [OF assms(8)] call_safe_returns [OF pt_call_safe [OF assms(1,5)] assms(6,8)]]
  show ?thesis
    unfolding batch_pt_body_eq batch_order_def by blast
qed

theorem batch_pt_order_first_failure_witness:
  "(\<exists>w'. run_list (batch_pt_body probe_solve_pt 0 2 10 1 1 30 57 58 20 0) [1, 0] probe_world = Inr (3, w')) \<and>
   first_failure (direct_status (pt_call_at probe_solve_pt 0 2 10 1 1 30 57 58 20 0) probe_world)
     [1, 0] = Some (1, 3)"
proof -
  have "batch_pt_separate 2 0 2 10 1 1 30 57 58 20"
    by (simp add: batch_pt_separate_def disjoint_regions_def)
  moreover have "batch_fits 2 1" by (simp add: batch_fits_def)
  moreover have "batch_pt_inputs 2 0 2 10 1 1 30 57 58 \<union> batch_pt_outputs 2 20 1
      \<subseteq> dom (heap probe_world)"
    by (auto simp: batch_pt_inputs_def batch_pt_outputs_def probe_world_def)
  moreover have "set [1, 0] \<subseteq> set (indices_from 0 (2 :: c_int))"
    by (simp add: indices_from_def upto.simps)
  moreover have "first_failure
      (direct_status (pt_call_at probe_solve_pt 0 2 10 1 1 30 57 58 20 0) probe_world) [1, 0]
      = Some (1, 3)"
    by (simp add: direct_status_def pt_call_at_def probe_eval)
  ultimately show ?thesis
    using batch_pt_order_first_failure [OF probe_pt_safe probe_pt_frame probe_pt_local,
        of 2 0 2 10 1 1 30 57 58 20 probe_world "[1, 0]" 0]
    by (simp add: status_of_def)
qed

text \<open>
  C11. Two calls of \<^verbatim>\<open>batch_pt\<close> on the two parts of a batch commute. Under the
  assumptions of the theorem on the order of the rows, if \<^verbatim>\<open>batch_pt\<close> on \<open>N\<close>
  inputs returns 0, then \<^verbatim>\<open>batch_pt\<close> called first on the \<open>N - k\<close> inputs from \<open>k\<close> on
  (with \<open>p + k\<close>, \<open>T + k\<close>, \<open>X0 + k*nsp\<close> and \<open>X1 + k*nsp\<close>) and then on the first \<open>k\<close>
  inputs returns 0 both times and leaves the memory of the whole batch: a
  caller may cut a batch in two and issue the parts in either order.
\<close>

theorem batch_pt_parts_commute:
  assumes "pt_frame solve" and "pt_local solve"
    and "batch_pt_separate N p T X0 nsp nel lewis M a X1" and "batch_fits N nsp"
    and "0 \<le> sint k" and "sint k \<le> sint N"
    and "batch_pt solve N p T X0 nsp nel lewis M a X1 verbose w = Inr (0, w')"
  shows "\<exists>w1 w2.
    batch_pt solve (N - k) (ptr_add p k) (ptr_add T k) (ptr_add X0 (k * nsp)) nsp nel lewis M a
      (ptr_add X1 (k * nsp)) verbose w = Inr (0, w1) \<and>
    batch_pt solve k p T X0 nsp nel lewis M a X1 verbose w1 = Inr (0, w2) \<and> heap w2 = heap w'"
proof -
  let ?call = "pt_call_at solve p T X0 nsp nel lewis M a X1 verbose"
  have "batch_run (pt_call_at solve (ptr_add p k) (ptr_add T k) (ptr_add X0 (k * nsp)) nsp nel
        lewis M a (ptr_add X1 (k * nsp)) verbose) batch_pt_message (N - k) w =
      batch_run (\<lambda>i. ?call (i + k)) batch_pt_message (N - k) w"
    by (rule batch_run_cong) (rule pt_call_at_shift [OF assms(4-6)])
  with batch_run_parts_commute [where call = ?call, OF pt_call_frame [OF assms(1,4)]
      pt_call_local [OF assms(2,4)] pt_calls_separate [OF assms(3,4)] assms(5,6)
      assms(7) [unfolded batch_pt_batch_run]]
  show ?thesis
    unfolding batch_pt_batch_run by simp
qed

theorem batch_pt_parts_commute_witness:
  "\<exists>w' w1 w2. batch_pt probe_solve_pt 2 2 0 10 2 1 30 40 50 20 0 probe_world = Inr (0, w') \<and>
     batch_pt probe_solve_pt 1 3 1 12 2 1 30 40 50 22 0 probe_world = Inr (0, w1) \<and>
     batch_pt probe_solve_pt 1 2 0 10 2 1 30 40 50 20 0 w1 = Inr (0, w2) \<and> heap w2 = heap w'"
proof -
  have "\<exists>w'. batch_pt probe_solve_pt 2 2 0 10 2 1 30 40 50 20 0 probe_world = Inr (0, w')"
    by (simp add: batch_pt_unfold for_loop.simps probe_eval)
  then obtain w' where run: "batch_pt probe_solve_pt 2 2 0 10 2 1 30 40 50 20 0 probe_world = Inr (0, w')" ..
  have sep: "batch_pt_separate 2 2 0 10 2 1 30 40 50 20"
    by (simp add: batch_pt_separate_def disjoint_regions_def)
  have fits: "batch_fits 2 2" by (simp add: batch_fits_def)
  from batch_pt_parts_commute [OF probe_pt_frame probe_pt_local sep fits _ _ run, of 1] run
  show ?thesis
    by (auto simp: ptr_add_def)
qed

text \<open>
  A pool of workers on rows whose calls all return never faults, and a status
  it stops with is the status, other than 0, of the direct call for one of its
  rows on the initial memory.
\<close>

lemma batch_pt_workers_stop:
  fixes w :: "'d world"
  assumes "pt_safe solve" and "pt_frame solve" and "pt_local solve"
    and "batch_pt_separate N p T X0 nsp nel lewis M a X1" and "batch_fits N nsp"
    and "batch_pt_inputs N p T X0 nsp nel lewis M a \<union> batch_pt_outputs N X1 nsp \<subseteq> dom (heap w)"
    and "distinct (concat qs)" and "set (concat qs) \<subseteq> set (indices_from 0 N)"
    and "pool_steps (batch_pt_body solve p T X0 nsp nel lewis M a X1 verbose) (Working qs w) c"
  shows "c \<noteq> Crashed e \<and> (c = Stopped r w' \<longrightarrow> r \<noteq> 0 \<and>
    (\<exists>i\<in>set (concat qs). direct_status (pt_call_at solve p T X0 nsp nel lewis M a X1 verbose) w i = r))"
proof -
  let ?call = "pt_call_at solve p T X0 nsp nel lewis M a X1 verbose"
  note stops = pool_stops [where call = ?call, OF pt_call_frame [OF assms(2,5)]
      pt_call_local [OF assms(3,5)] pt_calls_separate [OF assms(4,5)] assms(7)
      rows_in_batch [OF assms(8)] call_safe_returns [OF pt_call_safe [OF assms(1,5)] assms(6,8)]
      assms(9) [unfolded batch_pt_body_eq]]
  from stops(1) [of e] stops(2) [of r w'] show ?thesis by blast
qed

section \<open>\<^verbatim>\<open>batch_rhou\<close> in any order\<close>

text \<open>
  The same for \<^verbatim>\<open>batch_rhou\<close>, whose calls write a slice of \<open>X1\<close> and a cell of \<open>T\<close>:
  a batch that returns 0 returns 0 with the same memory in every order of the
  rows and in every execution of a pool of workers.
\<close>

lemma batch_rhou_any_order:
  assumes "rhou_frame solve" and "rhou_local solve"
    and "batch_rhou_separate N rho u X0 nsp nel lewis M a X1 T" and "batch_fits N nsp"
    and "batch_rhou solve N rho u X0 nsp nel lewis M a X1 T verbose w = Inr (0, w')"
    and "schedule N xs"
  shows "\<exists>w''. run_list (batch_rhou_body solve rho u X0 nsp nel lewis M a X1 T verbose) xs w = Inr (0, w'') \<and>
    heap w'' = heap w'"
  using rhou_call_frame [OF assms(1,4)] rhou_call_local [OF assms(2,4)]
    rhou_calls_separate [OF assms(3,4)] assms(5) [unfolded batch_rhou_batch_run] assms(6)
  unfolding batch_rhou_body_eq batch_order_def [symmetric] by (rule batch_order_agrees)

lemma batch_rhou_parts_commute:
  assumes "rhou_frame solve" and "rhou_local solve"
    and "batch_rhou_separate N rho u X0 nsp nel lewis M a X1 T" and "batch_fits N nsp"
    and "0 \<le> sint k" and "sint k \<le> sint N"
    and "batch_rhou solve N rho u X0 nsp nel lewis M a X1 T verbose w = Inr (0, w')"
  shows "\<exists>w1 w2.
    batch_rhou solve (N - k) (ptr_add rho k) (ptr_add u k) (ptr_add X0 (k * nsp)) nsp nel lewis M a
      (ptr_add X1 (k * nsp)) (ptr_add T k) verbose w = Inr (0, w1) \<and>
    batch_rhou solve k rho u X0 nsp nel lewis M a X1 T verbose w1 = Inr (0, w2) \<and> heap w2 = heap w'"
proof -
  let ?call = "rhou_call_at solve rho u X0 nsp nel lewis M a X1 T verbose"
  have "batch_run (rhou_call_at solve (ptr_add rho k) (ptr_add u k) (ptr_add X0 (k * nsp)) nsp nel
        lewis M a (ptr_add X1 (k * nsp)) (ptr_add T k) verbose) batch_rhou_message (N - k) w =
      batch_run (\<lambda>i. ?call (i + k)) batch_rhou_message (N - k) w"
    by (rule batch_run_cong) (rule rhou_call_at_shift [OF assms(4-6)])
  with batch_run_parts_commute [where call = ?call, OF rhou_call_frame [OF assms(1,4)]
      rhou_call_local [OF assms(2,4)] rhou_calls_separate [OF assms(3,4)] assms(5,6)
      assms(7) [unfolded batch_rhou_batch_run]]
  show ?thesis
    unfolding batch_rhou_batch_run by simp
qed

lemma batch_rhou_workers:
  assumes "rhou_frame solve" and "rhou_local solve"
    and "batch_rhou_separate N rho u X0 nsp nel lewis M a X1 T" and "batch_fits N nsp"
    and "batch_rhou solve N rho u X0 nsp nel lewis M a X1 T verbose w = Inr (0, w')"
    and "schedule N (concat qs)"
    and "(pool_step (batch_rhou_body solve rho u X0 nsp nel lewis M a X1 T verbose) ^^ n) (Working qs w) c"
  shows "\<exists>qs' w1. c = Working qs' w1 \<and> length (concat qs') + n = nat (sint N) \<and>
    (if concat qs' = [] then heap w1 = heap w'
     else \<exists>c'. pool_step (batch_rhou_body solve rho u X0 nsp nel lewis M a X1 T verbose) c c')"
  using rhou_call_frame [OF assms(1,4)] rhou_call_local [OF assms(2,4)]
    rhou_calls_separate [OF assms(3,4)] assms(5) [unfolded batch_rhou_batch_run] assms(6)
    assms(7) [unfolded batch_rhou_body_eq]
  unfolding batch_rhou_body_eq by (rule pool_agrees)

end
