(* ===== verification/Model_Rows.thy ===== *)
theory Model_Rows
  imports Model_Batch Batch_Order
begin

text \<open>
  The rows of the two batches with solvers of the shape of the specification.
  A row of \<^verbatim>\<open>batch_rhou\<close> is the status code, the composition and the temperature
  that the computation returns on the inputs of one position of the initial
  memory. The theorems show that \<^verbatim>\<open>batch_rhou\<close> refines the list of its rows, as
  \<^verbatim>\<open>batch_pt\<close> does, and that a pool of workers running the body of the loop of
  \<^verbatim>\<open>batch_pt\<close> computes the same rows in whatever order the workers take turns.
\<close>

section \<open>Definitions\<close>

definition rhou_row ::
  "rhou_core_fn \<Rightarrow> real world \<Rightarrow> addr \<Rightarrow> addr \<Rightarrow> addr \<Rightarrow> c_int \<Rightarrow> c_int \<Rightarrow> addr \<Rightarrow> addr \<Rightarrow> addr \<Rightarrow>
   c_int \<Rightarrow> c_int \<times> real list \<times> real" where
  "rhou_row core w rho u X0 nsp nel lewis M a i =
     (case (index w rho i, index w u i,
            load_arrays w (solver_inputs (ptr_add X0 (i * nsp)) nsp nel lewis M a)) of
        (Inr rhoi, Inr ui, Inr xss) \<Rightarrow>
          (case rhou_kernel core rhoi ui nel xss of (r, yss, msg) \<Rightarrow> (r, yss ! 0, yss ! 1 ! 0))
      | _ \<Rightarrow> (0, [], 0))"

definition rhou_rows_failure ::
  "rhou_core_fn \<Rightarrow> real world \<Rightarrow> addr \<Rightarrow> addr \<Rightarrow> addr \<Rightarrow> c_int \<Rightarrow> c_int \<Rightarrow> addr \<Rightarrow> addr \<Rightarrow> addr \<Rightarrow>
   c_int \<Rightarrow> (c_int \<times> c_int) option" where
  "rhou_rows_failure core w rho u X0 nsp nel lewis M a N =
     first_failure (\<lambda>i. fst (rhou_row core w rho u X0 nsp nel lewis M a i)) (indices_from 0 N)"

section \<open>One row of \<^verbatim>\<open>batch_rhou\<close>\<close>

lemma rhou_row_call:
  assumes "rhou_shaped core"
    and "rhou_call_at (solve_rhou_model core) rho u X0 nsp nel lewis M a X1 T verbose i w = Inr (r, w')"
    and "ptr_add T i \<notin> region (ptr_add X1 (i * nsp)) (sint nsp)"
  shows "fst (rhou_row core w rho u X0 nsp nel lewis M a i) = r"
    and "load_array w' (ptr_add X1 (i * nsp)) (nat (sint nsp)) =
      Inr (fst (snd (rhou_row core w rho u X0 nsp nel lewis M a i)))"
    and "load w' (ptr_add T i) = Inr (snd (snd (rhou_row core w rho u X0 nsp nel lewis M a i)))"
proof -
  let ?X0 = "ptr_add X0 (i * nsp)" and ?X1 = "ptr_add X1 (i * nsp)"
  from assms(2) obtain rhoi ui where rhoi: "index w rho i = Inr rhoi" and ui: "index w u i = Inr ui"
    and run: "solve_rhou_model core rhoi ui ?X0 nsp nel lewis M a ?X1 (ptr_add T i) verbose w = Inr (r, w')"
    unfolding rhou_call_at_Inr by blast
  let ?row = "rhou_row core w rho u X0 nsp nel lewis M a i"
  from run have "fst ?row = r \<and> load_array w' ?X1 (nat (sint nsp)) = Inr (fst (snd ?row)) \<and>
    load w' (ptr_add T i) = Inr (snd (snd ?row))"
  proof (rule solve_rhou_modelE)
    fix x0 lw m A st x1 T1 t
    assume loads: "load_array w ?X0 (nat (sint nsp)) = Inr x0"
      "load_array w lewis (nat (sint nsp * 3 * 9)) = Inr lw" "load_array w M (nat (sint nsp)) = Inr m"
      "load_array w a (nat (sint nel * sint nsp)) = Inr A"
      and core: "core rhoi ui x0 (nat (sint nel)) lw m A = (st, x1, T1, t)" and r: "r = status_code st"
      and T1: "load w' (ptr_add T i) = Inr T1"
      and x1: "ptr_add T i \<notin> region ?X1 (int (length x1)) \<Longrightarrow> load_array w' ?X1 (length x1) = Inr x1"
    from rhoi ui core r have row: "?row = (r, x1, T1)"
      by (simp add: rhou_row_def rhou_kernel_def load_solver_inputsI [OF loads])
    from assms(1) core load_array_length [OF loads(1)] have len: "length x1 = nat (sint nsp)"
      unfolding rhou_shaped_def by (metis fst_conv snd_conv)
    have "int (nat (sint nsp)) = sint nsp \<or> region ?X1 (int (nat (sint nsp))) = {}"
      by (cases "0 \<le> sint nsp") (simp_all add: region_empty)
    with assms(3) x1 have "load_array w' ?X1 (nat (sint nsp)) = Inr x1"
      unfolding len by auto
    with row T1 show ?thesis by simp
  qed
  then show "fst ?row = r" and "load_array w' ?X1 (nat (sint nsp)) = Inr (fst (snd ?row))"
    and "load w' (ptr_add T i) = Inr (snd (snd ?row))"
    by blast+
qed

lemma rhou_row_solved:
  assumes "rhou_shaped core" and "batch_rhou_separate N rho u X0 nsp nel lewis M a X1 T"
    and "batch_fits N nsp" and "in_batch N i"
    and "rhou_call_at (solve_rhou_model core) rho u X0 nsp nel lewis M a X1 T verbose i w = Inr (r, wi)"
    and "agree_on (rhou_writes_at X1 T nsp i) wi w'"
  shows "load_array w' (ptr_add X1 (i * nsp)) (nat (sint nsp)) =
      Inr (fst (snd (rhou_row core w rho u X0 nsp nel lewis M a i))) \<and>
    load w' (ptr_add T i) = Inr (snd (snd (rhou_row core w rho u X0 nsp nel lewis M a i)))"
proof -
  from rhou_cell_slice [OF assms(2-4,4)]
  have cell: "ptr_add T i \<notin> region (ptr_add X1 (i * nsp)) (sint nsp)"
    by (simp add: region_ptr_add_offset [OF assms(3,4)])
  from assms(6) have slice: "agree_on (region (ptr_add X1 (i * nsp)) (int (nat (sint nsp)))) wi w'"
    and T: "heap wi (ptr_add T i) = heap w' (ptr_add T i)"
    by (simp_all add: rhou_writes_at_def region_ptr_add_offset [OF assms(3,4)] region_1 agree_on_def)
  from load_array_cong_agree [OF slice] rhou_row_call(2,3) [OF assms(1,5) cell] T show ?thesis
    by (simp add: load_def)
qed

lemma rhou_model_direct_failure:
  assumes "rhou_shaped core" and "batch_rhou_separate N rho u X0 nsp nel lewis M a X1 T"
    and "batch_fits N nsp"
    and "batch_rhou_inputs N rho u X0 nsp nel lewis M a \<union> batch_rhou_outputs N X1 T nsp \<subseteq> dom (heap w)"
  shows "first_failure
      (direct_status (rhou_call_at (solve_rhou_model core) rho u X0 nsp nel lewis M a X1 T verbose) w)
      (indices_from 0 N) = rhou_rows_failure core w rho u X0 nsp nel lewis M a N"
  unfolding rhou_rows_failure_def
proof (rule first_failure_cong)
  let ?call = "rhou_call_at (solve_rhou_model core) rho u X0 nsp nel lewis M a X1 T verbose"
  fix i assume "i \<in> set (indices_from 0 N)"
  then have i: "in_batch N i"
    by (simp add: in_batch_indices)
  with rhou_model_contracts(3) [OF assms(1,3)] assms(4) obtain r wi where call: "?call i w = Inr (r, wi)"
    unfolding call_safe_def by blast
  from rhou_cell_slice [OF assms(2,3) i i]
  have "ptr_add T i \<notin> region (ptr_add X1 (i * nsp)) (sint nsp)"
    by (simp add: region_ptr_add_offset [OF assms(3) i])
  with assms(1) call show "direct_status ?call w i = fst (rhou_row core w rho u X0 nsp nel lewis M a i)"
    by (simp add: direct_status_def rhou_row_call(1))
qed

section \<open>\<^verbatim>\<open>batch_rhou\<close> and its rows\<close>

text \<open>
  C27. \<^verbatim>\<open>batch_rhou\<close> with a solver of the shape of the specification refines the
  list of its rows. Let row \<open>i\<close> be the status code, the composition and the
  temperature that the computation returns on \<open>rho[i]\<close>, \<open>u[i]\<close>, slice \<open>i\<close> of \<open>X0\<close>
  and the arrays \<open>lewis\<close>, \<open>M\<close> and \<open>a\<close> of the initial memory. When the arrays are
  allocated with the sizes of the comment, the offsets fit in \<^verbatim>\<open>int\<close> and \<open>X1\<close> and
  \<open>T\<close> are separate from each other and from the inputs, \<^verbatim>\<open>batch_rhou\<close> does not
  fault; it returns the status of the first row whose status is not 0, or 0
  when there is none; and for every row before that one, slice \<open>i\<close> of \<open>X1\<close> holds
  the composition and \<open>T[i]\<close> the temperature of row \<open>i\<close>.
\<close>

theorem batch_rhou_model_refines:
  assumes "rhou_shaped core"
    and "batch_rhou_separate N rho u X0 nsp nel lewis M a X1 T" and "batch_fits N nsp"
    and "batch_rhou_inputs N rho u X0 nsp nel lewis M a \<union> batch_rhou_outputs N X1 T nsp \<subseteq> dom (heap w)"
  shows "\<exists>w'. batch_rhou (solve_rhou_model core) N rho u X0 nsp nel lewis M a X1 T verbose w =
      Inr (status_of (rhou_rows_failure core w rho u X0 nsp nel lewis M a N), w') \<and>
    (\<forall>i. in_batch (solved_rows (rhou_rows_failure core w rho u X0 nsp nel lewis M a N) N) i \<longrightarrow>
       load_array w' (ptr_add X1 (i * nsp)) (nat (sint nsp)) =
         Inr (fst (snd (rhou_row core w rho u X0 nsp nel lewis M a i))) \<and>
       load w' (ptr_add T i) = Inr (snd (snd (rhou_row core w rho u X0 nsp nel lewis M a i))))"
proof -
  let ?call = "rhou_call_at (solve_rhou_model core) rho u X0 nsp nel lewis M a X1 T verbose"
  let ?ff = "rhou_rows_failure core w rho u X0 nsp nel lewis M a N"
  from batch_run_refines [where call = ?call, OF rhou_model_contracts(3) [OF assms(1,3)] assms(4)
      rhou_model_contracts(1,2) [OF assms(1,3)] rhou_calls_separate [OF assms(2,3)],
      of batch_rhou_message]
  obtain w' where run: "batch_rhou (solve_rhou_model core) N rho u X0 nsp nel lewis M a X1 T verbose w =
      Inr (status_of ?ff, w')"
    and solved: "\<And>i. in_batch (solved_rows ?ff N) i \<Longrightarrow>
      in_batch N i \<and> (\<exists>wi. ?call i w = Inr (0, wi) \<and> agree_on (rhou_writes_at X1 T nsp i) wi w')"
    unfolding batch_rhou_batch_run rhou_model_direct_failure [OF assms] by blast
  have "load_array w' (ptr_add X1 (i * nsp)) (nat (sint nsp)) =
      Inr (fst (snd (rhou_row core w rho u X0 nsp nel lewis M a i))) \<and>
    load w' (ptr_add T i) = Inr (snd (snd (rhou_row core w rho u X0 nsp nel lewis M a i)))"
    if "in_batch (solved_rows ?ff N) i" for i
  proof -
    from solved [OF that] obtain wi where "in_batch N i" and "?call i w = Inr (0, wi)"
      and "agree_on (rhou_writes_at X1 T nsp i) wi w'"
      by blast
    with assms(1-3) show ?thesis by (rule rhou_row_solved)
  qed
  with run show ?thesis by blast
qed

lemma gas_rhou_core_shaped: "rhou_shaped gas_rhou_core"
  by simp

lemma gas_rhou_row:
  "rhou_row gas_rhou_core gas_world 3 1 10 1 1 30 60 62 0 = (0, [1], 1000)"
  "rhou_row gas_rhou_core gas_world 3 1 10 1 1 30 60 62 1 = (3, [1], 1)"
  by (simp_all add: rhou_row_def rhou_kernel_def solver_inputs_def index_def ptr_add_def
      gas_world_loads gas_rhou_core_solved gas_rhou_core_rejected del: load_array_numeral)

theorem batch_rhou_model_refines_witness:
  "\<exists>w'. batch_rhou (solve_rhou_model gas_rhou_core) 2 3 1 10 1 1 30 60 62 20 24 0 gas_world = Inr (3, w') \<and>
     load_array w' 20 1 = Inr [1] \<and> load w' 24 = Inr 1000"
proof -
  have ff: "rhou_rows_failure gas_rhou_core gas_world 3 1 10 1 1 30 60 62 2 = Some (1, 3)"
    by (simp add: rhou_rows_failure_def gas_batch gas_rhou_row)
  have sep: "batch_rhou_separate 2 3 1 10 1 1 30 60 62 20 24"
    by (simp add: batch_rhou_separate_def disjoint_regions_def)
  have alloc: "batch_rhou_inputs 2 3 1 10 1 1 30 60 62 \<union> batch_rhou_outputs 2 20 24 1 \<subseteq> dom (heap gas_world)"
    by (auto simp: batch_rhou_inputs_def batch_rhou_outputs_def gas_world_def)
  have "in_batch 1 0" by (simp add: in_batch_def)
  with batch_rhou_model_refines [OF gas_rhou_core_shaped sep gas_batch(1) alloc, where verbose = 0]
  show ?thesis
    unfolding ff by (auto simp: status_of_def solved_rows_def gas_rhou_row ptr_add_def)
qed

section \<open>The rows of \<^verbatim>\<open>batch_pt\<close> solved by a pool of workers\<close>

text \<open>
  C28. A pool of workers computes the rows of \<^verbatim>\<open>batch_pt\<close>. Let the rows
  \<open>0, \<dots>, N - 1\<close> be dealt out to workers that run the body of the loop of
  \<^verbatim>\<open>batch_pt\<close> with a solver of the shape of the specification, on arrays
  allocated with the sizes of the comment, with offsets that fit in \<^verbatim>\<open>int\<close> and
  \<open>X1\<close> separate from the inputs or equal to \<open>X0\<close>. Then in every state the pool
  reaches, in whatever order the workers take turns: the pool has not faulted;
  while it works, every row that has left the queues has status 0 and its
  composition is in its slice of \<open>X1\<close>; and when it has stopped, its status is
  the status, other than 0, of one of the rows.
\<close>

theorem batch_pt_model_workers:
  assumes "pt_shaped core"
    and "batch_pt_separate N p T X0 nsp nel lewis M a X1" and "batch_fits N nsp"
    and "batch_pt_inputs N p T X0 nsp nel lewis M a \<union> batch_pt_outputs N X1 nsp \<subseteq> dom (heap w)"
    and "schedule N (concat qs)"
    and "pool_steps (batch_pt_body (solve_pt_model core) p T X0 nsp nel lewis M a X1 verbose)
      (Working qs w) c"
  shows "case c of
      Working qs' w1 \<Rightarrow>
        (\<forall>i. in_batch N i \<and> i \<notin> set (concat qs') \<longrightarrow>
           fst (pt_row core w p T X0 nsp nel lewis M a i) = 0 \<and>
           load_array w1 (ptr_add X1 (i * nsp)) (nat (sint nsp)) =
             Inr (snd (pt_row core w p T X0 nsp nel lewis M a i)))
    | Stopped r w1 \<Rightarrow>
        r \<noteq> 0 \<and> (\<exists>i. in_batch N i \<and> fst (pt_row core w p T X0 nsp nel lewis M a i) = r)
    | Crashed e \<Rightarrow> False"
proof -
  let ?call = "pt_call_at (solve_pt_model core) p T X0 nsp nel lewis M a X1 verbose"
  let ?outs = "\<lambda>i. slice X1 (sint nsp) (sint i)"
  from assms(5) have rows: "set (concat qs) = set (indices_from 0 N)" and dist: "distinct (concat qs)"
    by (simp_all add: schedule_def)
  note ok = pool_reaches_ok [where call = ?call, OF pt_model_contracts(1,2) [OF assms(1,3)]
      pt_calls_separate [OF assms(2,3)] dist rows_in_batch
      call_safe_returns [OF pt_model_contracts(3) [OF assms(1,3)] assms(4)]
      assms(6) [unfolded batch_pt_body_eq], unfolded rows, OF order_refl order_refl]
  show ?thesis
  proof (cases c)
    case (Working qs' w1)
    have "fst (pt_row core w p T X0 nsp nel lewis M a i) = 0 \<and>
        load_array w1 (ptr_add X1 (i * nsp)) (nat (sint nsp)) =
          Inr (snd (pt_row core w p T X0 nsp nel lewis M a i))"
      if "in_batch N i" and "i \<notin> set (concat qs')" for i
    proof -
      from ok that obtain wi where "?call i w = Inr (0, wi)" and "agree_on (?outs i) wi w1"
        unfolding Working by (auto simp: calls_solved_def in_batch_indices simp del: set_concat)
      with that(1) show ?thesis
        by (simp add: pt_row_call(1) [OF assms(1)] pt_row_solved [OF assms(1,3)])
    qed
    with Working show ?thesis by simp
  next
    case (Stopped r w1)
    with ok obtain i wi where "r \<noteq> 0" and "in_batch N i" and "?call i w = Inr (r, wi)"
      by (auto simp: in_batch_indices)
    with Stopped show ?thesis
      by (auto simp: pt_row_call(1) [OF assms(1)])
  next
    case (Crashed e)
    with ok show ?thesis by simp
  qed
qed

theorem batch_pt_model_workers_witness:
  "\<exists>w1. pool_step (batch_pt_body (solve_pt_model gas_pt_core) 2 0 10 1 1 30 60 62 20 0)
       (Working [[0], [1]] gas_world) (Working [[0], []] w1) \<and>
     load_array w1 21 1 = Inr [1]"
proof -
  let ?call = "pt_call_at (solve_pt_model gas_pt_core) 2 0 10 1 1 30 60 62 20 0"
  let ?body = "batch_pt_body (solve_pt_model gas_pt_core) 2 0 10 1 1 30 60 62 20 0"
  have row: "in_batch 2 1" by (simp add: in_batch_def)
  with pt_model_contracts(3) [OF gas_pt_core_shaped gas_batch(1)] gas_batch(4)
  obtain r w1 where call: "?call 1 gas_world = Inr (r, w1)"
    unfolding call_safe_def by blast
  with pt_row_call(1) [OF gas_pt_core_shaped call] have "?body 1 gas_world = Inr (Next, w1)"
    by (simp add: batch_pt_body_eq batch_body_Next gas_pt_row_solved)
  then have step: "pool_step ?body (Working [[0], [1]] gas_world) (Working ([[0], [1]][1 := []]) w1)"
    by (intro pool_next) simp_all
  have "schedule 2 (concat [[0], [1]])"
    by (simp add: schedule_def gas_batch)
  note batch_pt_model_workers [OF gas_pt_core_shaped gas_batch(3) [THEN conjunct1] gas_batch(1,4)
      this pool_steps_step1 [OF step]]
  from this [simplified, rule_format, of 1] row step show ?thesis
    by (auto simp: gas_pt_row_solved ptr_add_def)
qed

section \<open>The order decides which failure is reported\<close>

text \<open>
  With a solver of the shape of the specification, the body of the loop of
  \<^verbatim>\<open>batch_pt\<close> run over distinct rows in any order returns the status of the
  first of these rows, in that order, whose status is not 0.
\<close>

lemma batch_pt_model_order:
  assumes "pt_shaped core"
    and "batch_pt_separate N p T X0 nsp nel lewis M a X1" and "batch_fits N nsp"
    and "batch_pt_inputs N p T X0 nsp nel lewis M a \<union> batch_pt_outputs N X1 nsp \<subseteq> dom (heap w)"
    and "distinct xs" and "set xs \<subseteq> set (indices_from 0 N)"
  shows "\<exists>w'. run_list (batch_pt_body (solve_pt_model core) p T X0 nsp nel lewis M a X1 verbose) xs w =
    Inr (status_of (first_failure (\<lambda>i. fst (pt_row core w p T X0 nsp nel lewis M a i)) xs), w')"
proof -
  let ?call = "pt_call_at (solve_pt_model core) p T X0 nsp nel lewis M a X1 verbose"
  have "first_failure (direct_status ?call w) xs =
      first_failure (\<lambda>i. fst (pt_row core w p T X0 nsp nel lewis M a i)) xs"
    using assms(6)
    by (intro first_failure_cong pt_model_direct_status [OF assms(1,3,4)]) (auto simp: in_batch_indices)
  with batch_order_refines [where call = ?call, OF pt_model_contracts(1,2) [OF assms(1,3)]
      pt_calls_separate [OF assms(2,3)] assms(5) rows_in_batch [OF assms(6)]
      call_safe_returns [OF pt_model_contracts(3) [OF assms(1,3)] assms(4,6)], of batch_pt_message]
  show ?thesis
    unfolding batch_pt_body_eq batch_order_def by auto
qed

text \<open>
  Two rows that fail for different reasons: the temperature of row 0 is outside
  the domain of the table, and the input of row 1 is not a vector of mole
  fractions. Solved in the order of the program the batch returns 3, the code
  of the first failure; solved in the other order it returns 4.
\<close>

lemma gas_rows_failing:
  "pt_row gas_pt_core gas_world 2 2 29 1 1 30 60 62 0 = (3, [1])"
  "pt_row gas_pt_core gas_world 2 2 29 1 1 30 60 62 1 = (4, [0])"
proof -
  have core: "gas_pt_core 1 1 [0] (Suc 0) (replicate 27 0) [1] [1] = (Inconsistent_Input, [0], [])"
    by (simp add: pt_core_def mole_fractions_def)
  have cell: "load gas_world 30 = Inr 0"
    by (simp add: gas_world_def load_def)
  show "pt_row gas_pt_core gas_world 2 2 29 1 1 30 60 62 0 = (3, [1])"
    and "pt_row gas_pt_core gas_world 2 2 29 1 1 30 60 62 1 = (4, [0])"
    by (simp_all add: gas_eval gas_pt_core_rejected core cell del: load_array_numeral load_eq_Inr)
qed

lemma batch_pt_order_dependent:
  "(\<exists>w'. run_list (batch_pt_body (solve_pt_model gas_pt_core) 2 2 29 1 1 30 60 62 20 0) [0, 1] gas_world
      = Inr (3, w')) \<and>
   (\<exists>w'. run_list (batch_pt_body (solve_pt_model gas_pt_core) 2 2 29 1 1 30 60 62 20 0) [1, 0] gas_world
      = Inr (4, w'))"
proof -
  have sep: "batch_pt_separate 2 2 2 29 1 1 30 60 62 20"
    by (simp add: batch_pt_separate_def disjoint_regions_def)
  have alloc: "batch_pt_inputs 2 2 2 29 1 1 30 60 62 \<union> batch_pt_outputs 2 20 1 \<subseteq> dom (heap gas_world)"
    by (auto simp: batch_pt_inputs_def batch_pt_outputs_def gas_world_def)
  note order = batch_pt_model_order [OF gas_pt_core_shaped sep gas_batch(1) alloc, where verbose = 0]
  from order [of "[0, 1]"] order [of "[1, 0]"] show ?thesis
    by (simp add: gas_batch gas_rows_failing status_of_def)
qed

end
