(* ===== verification/Spec2Isabelle.thy ===== *)
theory Spec2Isabelle
  imports Ceq_Entry Batch_Pt_Memory Batch_Rhou_Memory Model_Batch Model_Rows
begin

text \<open>
  \<^bold>\<open>The program.\<close> \<^verbatim>\<open>src/ceq.c\<close> is the C entry layer of an equilibrium-chemistry
  library. It exports four functions and a \<^verbatim>\<open>main\<close>:
  \<^item> \<^verbatim>\<open>pt\<close> and \<^verbatim>\<open>rhou\<close> pass their arguments to the solvers \<^verbatim>\<open>solve_pt\<close> and
    \<^verbatim>\<open>solve_rhou\<close>, which are declared in \<^verbatim>\<open>pt.h\<close> and \<^verbatim>\<open>rhou.h\<close> and are not part
    of the sources;
  \<^item> \<^verbatim>\<open>batch_pt\<close> and \<^verbatim>\<open>batch_rhou\<close> run a solver over \<open>N\<close> inputs stored in
    row-major arrays, one slice of \<open>nsp\<close> cells per input, and stop at the first
    solver call whose status is not zero, after printing the position;
  \<^item> \<^verbatim>\<open>main\<close> prints one line and returns zero.

  The numerical core (thermodynamic evaluation, the Newton iteration on the
  element balances, the temperature search, the convergence policy) is behind
  \<^verbatim>\<open>solve_pt\<close> and \<^verbatim>\<open>solve_rhou\<close>. The development treats it twice. What the wrapper
  guarantees for every solver is proved relative to contracts of the two
  solvers, which are hypotheses of the theorems that need them and are never
  assumed globally. And the core is modelled from sections 3 to 7 of the
  specification, with everything the specification leaves open as a parameter;
  the solvers of that model meet the contracts, so that the theorems about the
  wrapper apply to them without hypotheses on the solver.

  \<^bold>\<open>The model.\<close> A C \<^verbatim>\<open>int\<close> is a 32-bit word: the loop counter and the offset
  \<^verbatim>\<open>i*nsp\<close> are computed at that width. An overflow of \<^verbatim>\<open>int\<close> is undefined in C
  and wraps in the word; the theorems are stated where it does not happen (the
  test \<^verbatim>\<open>i<N\<close> for the counter, the bound \<open>batch_fits\<close> for the offsets), so none
  of them takes the wrapped value for the behaviour of the program. A \<^verbatim>\<open>double*\<close> is the
  index of a cell; memory is a partial map from cells to values of an arbitrary
  type (the wrapper moves doubles and never computes with them), and an access to
  a cell that is not allocated is a fault, the \<open>Inl\<close> branch of every result. The
  text written to \<^verbatim>\<open>stdout\<close> is part of the state. A solver is the first argument
  of every modelled function, of the type of its C signature extended by the
  world it runs in.

  \<^bold>\<open>The theories\<close>, in the order of their imports.
  \<^descr>[\<open>Ceq_Prelude\<close>] \<open>c_int\<close>, \<open>addr\<close>, pointer arithmetic \<open>ptr_add\<close>, regions and
    slices, the list \<open>indices_from\<close> of the values a loop counter takes, results
    that may fault (\<open>bind_res\<close>); the arithmetic facts on signed 32-bit words that
    say when \<open>i + 1\<close>, \<open>i + k\<close>, \<open>N - k\<close> and \<open>i * nsp\<close> do not wrap, and how the list
    of indices splits at a position and shifts.
  \<^descr>[\<open>C_Memory\<close>] the record \<open>world\<close> (heap and output), \<open>load\<close>, \<open>index\<close>,
    \<open>store\<close>, arrays, and the relations \<open>agree_on\<close>, \<open>same_outside\<close> and
    \<open>extends_output\<close> in which frames are stated; an array that was stored is
    read back.
  \<^descr>[\<open>C_Stdio\<close>] \<open>printf\<close> for the format strings of \<^verbatim>\<open>ceq.c\<close>: plain text and
    \<^verbatim>\<open>%d\<close>, with the decimal text of an \<^verbatim>\<open>int\<close> (\<open>fmt_d\<close>) and its inverse
    (\<open>scan_d\<close>).
  \<^descr>[\<open>C_Loop\<close>] the loop \<^verbatim>\<open>for (i=0; i<N; i++) { ... return result; } return 0;\<close>
    as the function \<open>for_loop\<close> over a body, with its termination proof (the
    measure is \<open>N - i\<close>, which decreases because \<open>i < N\<close> excludes the overflow of
    \<open>i + 1\<close>); its reference semantics \<open>run_list\<close> over an explicit list of
    indices; invariant rules for runs; runs of two bodies side by side, and runs
    over a shifted list of indices (\<open>return_related\<close>).
  \<^descr>[\<open>C_Loop_Steps\<close>] the same loop as a machine: configurations \<open>config\<close>, the
    step relation \<open>loop_step\<close> (one test of \<^verbatim>\<open>i<N\<close> and one run of the body) and its
    runs \<open>loop_steps\<close>, both inductive; the machine is deterministic, reaches the
    outcome of \<open>for_loop\<close> and no other final configuration, and its running
    configurations are characterised by rule induction. The measure \<open>steps_left\<close>
    decreases with every step: the converse of the step relation is well-founded
    and a run from counter \<open>i\<close> has at most \<open>n - i + 1\<close> steps.
  \<^descr>[\<open>Solver_Interface\<close>] the types \<open>solve_pt_fn\<close> and \<open>solve_rhou_fn\<close>, the cells
    a solver reads and writes according to the comments of \<^verbatim>\<open>pt\<close> and \<^verbatim>\<open>rhou\<close>, and
    four contracts for each solver, taken from sections 5 to 7 of the
    specification: \<open>frame\<close> (only the output cells change, output is only
    appended), \<open>local\<close> (the outcome is a function of the input cells), \<open>safe\<close> (on
    allocated arrays the solver returns a status) and \<open>quiet\<close> (\<^verbatim>\<open>verbose\<close> changes
    the output only).
  \<^descr>[\<open>Batch_Layout\<close>] positions of a batch (\<open>in_batch\<close>) and the bound \<open>batch_fits\<close>
    (\<open>nsp\<close> is not negative and the largest offset \<open>(N - 1) * nsp\<close> is an \<^verbatim>\<open>int\<close>);
    under it slices of distinct positions are disjoint and lie inside the array,
    and row \<open>i\<close> of the array that starts at row \<open>k\<close> is row \<open>i + k\<close>; the bound holds
    exactly when no offset \<open>i * nsp\<close> of the batch overflows (\<open>batch_fits_exact\<close>).
  \<^descr>[\<open>Batch_Run\<close>] what the two batch functions share, over an arbitrary call
    \<open>call i\<close> with the cells \<open>reads i\<close> and \<open>outs i\<close>: the body \<open>batch_body\<close>, the run
    \<open>batch_run\<close>, and the lemmas on control flow, frame, absence of faults,
    independence of the inputs and of \<^verbatim>\<open>verbose\<close>. This is the interface between
    the loop and the two instances. It also holds the abstract batch
    \<open>first_failure\<close>, a function from the statuses of the inputs to the first
    status other than 0 and its position, and the refinement lemmas
    \<open>batch_run_refines\<close> and \<open>batch_run_first_failure\<close>; the predicate \<open>config_ok\<close> of well-formed
    configurations with its preservation and progress lemmas
    (\<open>config_ok_step\<close>, \<open>batch_run_sound\<close>); and \<open>batch_run_split\<close>, which finishes a
    batch whose first \<open>k\<close> inputs are solved by the batch of the others.
  \<^descr>[\<open>Worker_Pool\<close>] the body of a loop run by several workers, each with a
    queue of indices, on one shared world: the inductive step relation
    \<open>pool_step\<close> (one run of the body by one worker, chosen freely), its runs
    \<open>pool_steps\<close>, and the executable \<open>pool_run\<close> that a list of scheduling
    decisions drives. The two agree; every step takes one index out of the
    queues; the loop over a list is the pool of one worker.
  \<^descr>[\<open>Batch_Schedule\<close>] the calls of a batch in another order: \<open>schedule\<close>
    (every row once), \<open>batch_order\<close> (the body over a list of rows) and the
    invariant \<open>pool_ok\<close> of a pool. Under the contracts of \<open>Batch_Run\<close>, a run
    over any list of distinct rows returns the status of the first row of the
    list whose direct call fails (\<open>batch_order_refines\<close>); when the batch returns
    0, every schedule (\<open>batch_order_agrees\<close>) and every execution of a pool
    (\<open>pool_agrees\<close>) ends in the memory of the batch, and so do the batches of
    its two parts in the other order (\<open>batch_run_parts_commute\<close>).
  \<^descr>[\<open>Probe_Solver\<close>] two small executable functions of the solvers' types, for
    cells of any ordered type with a zero, that meet all contracts, and a world
    of 64 integer cells; they are used where a theorem is applied to a concrete
    batch, and show that the contracts are satisfiable.
  \<^descr>[\<open>Batch_Pt\<close>, \<open>Batch_Pt_Memory\<close>] \<^verbatim>\<open>batch_pt\<close>: \<open>batch_pt_body\<close> is lines 89 to 98
    of \<^verbatim>\<open>src/ceq.c\<close> statement by statement, \<open>batch_pt\<close> the loop around it;
    \<open>batch_pt_body_eq\<close> identifies them with the generic batch at the call
    \<open>pt_call_at\<close>. The first theory has the theorems on control flow, pointers and
    the message, the second those on memory.
  \<^descr>[\<open>Batch_Rhou\<close>, \<open>Batch_Rhou_Memory\<close>] the same for \<^verbatim>\<open>batch_rhou\<close> (lines 127 to
    137), whose calls also get the pointer \<^verbatim>\<open>T + i\<close> and write that cell.
  \<^descr>[\<open>Batch_Order\<close>] the lemmas of \<open>Batch_Schedule\<close> at the loop bodies of
    \<^verbatim>\<open>batch_pt\<close> and \<^verbatim>\<open>batch_rhou\<close>: the rows in any order and by a pool of
    workers.
  \<^descr>[\<open>Ceq_Entry\<close>] \<^verbatim>\<open>pt\<close>, \<^verbatim>\<open>rhou\<close> and \<^verbatim>\<open>main\<close>.
  \<^descr>[\<open>Composition\<close>] the data model of section 3 over lists of reals:
    \<open>mole_fractions\<close>, \<open>normalise\<close>, the element \<open>abundance\<close> for the \<open>[nel, nsp]\<close>
    array \<open>a\<close>, \<open>conserves\<close> (section 8, on mole fractions), \<open>balanced\<close> (the
    convergence test of section 4.2, on mole numbers) and \<open>mean_molar_mass\<close>; how
    normalising scales the abundances.
  \<^descr>[\<open>Status_Codes\<close>, \<open>Convergence_Policy\<close>] the statuses of section 7 with the
    codes of section 6 (0 for success and four distinct codes, here 1 to 4), and
    the record of the options of section 4.4 with the defaults of section 9.
  \<^descr>[\<open>Thermo_Evaluator\<close>] section 4.1: the three temperature ranges of a species
    in the table \<^verbatim>\<open>lewis\<close>, the nine-coefficient forms of \<open>Cp/R\<close>, \<open>H/RT\<close> and \<open>S/R\<close>,
    the policies \<open>Reject\<close> and \<open>Clamp\<close> outside the domain; \<open>Cp\<close> is the derivative
    of \<open>H\<close> and \<open>Cp/T\<close> that of \<open>S\<close>.
  \<^descr>[\<open>Equilibrium_Solver\<close>] section 4.2: the residuals, the convergence test,
    the damping rule, the update of the active set, one Newton step
    (\<open>newton_step\<close>, over a parameter for the reduced linear system), the
    iteration with its cap (\<open>newton_loop\<close>) and the whole solve \<open>pt_core\<close>; the
    damping factor is the largest that respects the cap, the mole numbers stay
    positive, the status says how the iteration ended, a successful result is
    balanced, and a solve that starts at an equilibrium stops after one step.
  \<^descr>[\<open>Energy_Outer_Loop\<close>] section 4.3: the ideal-gas pressure, the search
    \<open>outer_loop\<close> for the temperature over a parameter for the inner solver, and
    \<open>rhou_core\<close>; the sequence \<open>trial_state\<close> of the temperatures and compositions
    with which the trials of a search start. A result comes from one inner solve
    at the temperature returned; a search that reaches a trial goes on from
    there, so that a failure of the inner solve at any trial within the cap is
    the result of the search, and a search that would pass the cap fails to
    converge; and for a mixture whose energy is \<open>c T + e\<^sub>0\<close> the Newton step is
    exact, so that the search ends at its second trial.
  \<^descr>[\<open>Solver_Shell\<close>, \<open>Solver_Model\<close>] the shape of a solver behind the C
    signature (load the input arrays, compute, store the outputs, print when
    \<^verbatim>\<open>verbose\<close>), which alone gives the four contracts of \<open>Solver_Interface\<close>, and
    its two instances \<open>solve_pt_model\<close> and \<open>solve_rhou_model\<close> with the array
    sizes of the comments of \<^verbatim>\<open>pt\<close> and \<^verbatim>\<open>rhou\<close>.
  \<^descr>[\<open>Model_Batch\<close>] \<^verbatim>\<open>pt\<close>, \<^verbatim>\<open>rhou\<close>, \<^verbatim>\<open>batch_pt\<close> and \<^verbatim>\<open>batch_rhou\<close> with these
    solvers: what a successful batch leaves in \<open>X1\<close> and \<open>T\<close>, the batch as a
    function of the rows of the initial memory, the codes of the failures, the
    failure of an inner solve at any trial of \<^verbatim>\<open>rhou\<close>, and the round trip of
    \<^verbatim>\<open>rhou\<close> for a calorically perfect mixture.
  \<^descr>[\<open>Model_Rows\<close>] the rows of \<^verbatim>\<open>batch_rhou\<close> (status, composition and
    temperature) and the refinement of their list by \<^verbatim>\<open>batch_rhou\<close>; the rows of
    \<^verbatim>\<open>batch_pt\<close> computed by a pool of workers; and a batch of two rows that
    fail for different reasons, which returns 3 in one order and 4 in the other.

  \<^bold>\<open>What is proved\<close> of each batch function, for every solver: it returns the
  status of the first call that fails and nothing is solved after it; a status
  other than 0 identifies a position, which the printed message names; status 0
  means every input was solved; a fault is passed on; with the contracts and the
  bound \<open>batch_fits\<close> it changes only the output arrays, it returns whenever the
  arrays are allocated as the comments say, and, when the output arrays are
  separate from what is read (or \<open>X1 = X0\<close>), every slice written is the one a
  direct call on the initial memory writes, also before a failure, and the status
  returned is the one the abstract batch computes from the statuses of the direct
  calls. The function agrees with the step machine of its loop, whose runs are
  finite and at most \<open>N + 1\<close> steps long, and whose reachable configurations are
  well-formed and never stuck. A batch of one is the direct call, up to the
  message; a batch of \<open>N\<close> is the batch of its first \<open>k\<close> inputs followed by the
  batch of the other \<open>N - k\<close>, up to the position in the message. That the
  separation of the arrays cannot be dropped is shown by a batch on overlapping
  arrays (\<open>batch_pt_overlap_dependent\<close>).

  \<^bold>\<open>What is proved of the order of the rows.\<close> Section 5 of the specification
  says that the solves of a batch are independent and may run concurrently,
  while the program runs them in the order of the index. With the contracts,
  the bound \<open>batch_fits\<close> and separate arrays: the body of the loop run over any
  list of distinct rows returns the status of the first row of that list whose
  direct call on the initial memory fails, so that every order fails when one
  does and the order decides which failure is reported; when \<^verbatim>\<open>batch_pt\<close> returns
  0, every order of the rows returns 0 with the same memory, two calls of
  \<^verbatim>\<open>batch_pt\<close> on the two parts of the batch cut at any position give that
  memory in either order, and a pool of
  workers that share the rows in any way and take turns in any order never
  stops early, never faults, cannot get stuck and, after exactly \<open>N\<close> calls, has
  left the memory of \<^verbatim>\<open>batch_pt\<close>. The same holds for \<^verbatim>\<open>batch_rhou\<close>. In the pool a
  call of the solver is one step: what is proved is that the calls commute, not
  that the code of a solver may be interleaved with itself.

  \<^bold>\<open>What is proved with the solvers of the specification\<close>, for every linear
  solver, policy and thermodynamic table: \<^verbatim>\<open>batch_pt\<close> on allocated, separate
  arrays never faults, returns the code of the first row that fails, and leaves
  in the rows before it the compositions that the solve computes from the
  initial memory; a batch that returned 0 has left in every row of \<open>X1\<close> the mole
  fractions of mole numbers that are not negative and balance the elements of
  the input within the tolerance, and \<^verbatim>\<open>batch_rhou\<close> has also left in \<open>T\<close> a
  temperature at which that composition has the target energy; \<^verbatim>\<open>pt\<close> reports
  an input that is not a vector of mole fractions and a temperature outside
  the domain by their own codes; \<^verbatim>\<open>rhou\<close> returns the code of the failure of
  its inner solve at whatever trial of the search the failure happens, with the
  temperature of that trial; and for a calorically perfect mixture \<^verbatim>\<open>rhou\<close>,
  given the energy of a state, returns the temperature and the composition of
  that state after one Newton step from a start outside the tolerance.
  \<^verbatim>\<open>batch_rhou\<close> refines the list of its rows as \<^verbatim>\<open>batch_pt\<close> does, leaving the
  composition and the temperature of every row before the first that fails;
  and in every state that a pool of workers reaches with the body of \<^verbatim>\<open>batch_pt\<close>,
  the rows that have left the queues hold their compositions. That the
  Newton iteration converges from an arbitrary start is not proved, and the
  specification does not claim it: non-convergence is a status.

  \<^bold>\<open>Bounds.\<close> No theorem bounds \<open>N\<close> or \<open>nsp\<close> except through \<open>batch_fits\<close>, which
  holds exactly when \<open>nsp\<close> is not negative and every offset \<open>i * nsp\<close> with
  \<open>0 \<le> i < N\<close> is an \<^verbatim>\<open>int\<close> (\<open>batch_fits_exact\<close>); it does not bound the size
  \<open>N * nsp\<close> of the arrays, which the loop never computes. Outside it the program
  has no defined behaviour and the development proves nothing. The loop
  counter itself never overflows. The functions are total: no fuel is used, and
  the number of steps of the machine is bounded by \<open>nat (sint N) + 1\<close>. A pool
  of workers on a batch without failures takes exactly \<open>nat (sint N)\<close> steps,
  whatever the number of workers. The two
  iterations of the solvers recurse on the iterations that remain, so their
  caps (\<open>max_inner_iter\<close>, \<open>max_outer_iter\<close>) are their termination argument (the
  search makes at most \<open>max_outer_iter + 1\<close> trials); the
  policy \<open>literature_policy\<close> has the defaults that section 9 proposes
  (tolerance \<open>1e-6\<close>, damping cap 2, trace threshold \<open>1e-10\<close>, 50 inner
  iterations), and the theorems hold for every policy. The tolerances of
  \<open>mole_fractions\<close> and \<open>conserves\<close> are those of section 8 (\<open>1e-8\<close> for the sum,
  \<open>1e-6\<close> relative for the abundances).

  \<^bold>\<open>Modelled from the specification, and how.\<close> The code of the solvers is not
  under \<^verbatim>\<open>src/\<close>; their model follows the text of the specification and takes as
  parameters what the text does not fix: the solution of the reduced linear
  system (a function that may report a singular system), the internal energy
  and the heat capacity of a mixture, the gas constant, the reference pressure,
  the first temperature of the search and the temperatures at which the ranges
  of the thermodynamic data meet. Where a choice had to be made it is the
  simplest one and is named in the theory that makes it: a relative residual
  of a quantity that is 0 is the absolute residual; an inactive species keeps
  its value; on a failure the outputs hold what the computation returns. The
  pool of workers is modelled from the sentence of section 5 on concurrent
  solves: the loop body of the program, which is code, is run by workers that
  the program does not have; as in the loop, the first status other than 0
  ends the run.

  \<^bold>\<open>Not modelled,\<close> and why. Floating point: the cells of the solvers hold
  reals, and the wrapper never computes with a double. A solver that does not
  return: a solver is a total function of its arguments and the world, so
  ``every solver'' means every solver that returns. What a faulting call or an
  overflowing offset does next: a fault ends the run as a value, and the
  abstract status \<open>direct_status\<close> of a call that faults is a default that no
  theorem uses, since the theorems that mention it assume allocated arrays and
  a solver that is safe on them. The solution of the
  reduced linear system: the specification says that it has \<open>nel + 1\<close> unknowns
  and is solved by elimination, but gives neither its coefficients nor the
  pivoting rule, so a concrete solver would be modelled from the report cited
  at the head of \<^verbatim>\<open>src/ceq.c\<close> and not from the sources or the specification; it
  stays a parameter, and with it the monotone decrease of the residual, which
  holds only for a solver that solves the Newton system. The formulas of the
  internal energy and the heat capacity of a mixture, for the same reason.
  \<^verbatim>\<open>printf\<close>'s return value and buffering. Interleavings inside a call of a
  solver, and a pool of workers that goes on after a failure: the program has
  no threads, and the specification says no more than that the solves are
  independent. Every statement of \<^verbatim>\<open>src/ceq.c\<close> is modelled; the lines the map
  does not cover are the comment at the head of the file, the includes and
  blank lines.
\<close>

section \<open>A batch of one and the direct call\<close>

text \<open>
  C30. A batch of one input is the direct call: \<^verbatim>\<open>batch_pt\<close> with \<open>N = 1\<close> reads
  \<^verbatim>\<open>T[0]\<close> and \<^verbatim>\<open>p[0]\<close>, calls \<^verbatim>\<open>pt\<close> on them with \<open>X0\<close> and \<open>X1\<close> themselves, whatever
  \<open>nsp\<close> is, and returns its status; the memory it leaves is the memory \<^verbatim>\<open>pt\<close>
  leaves. The output is the output of \<^verbatim>\<open>pt\<close> when the status is 0; when it is not,
  \<^verbatim>\<open>batch_pt\<close> appends \<^verbatim>\<open>Error in batch_pt @ position: 0\<close>, which \<^verbatim>\<open>pt\<close> does not print.
\<close>

theorem batch_pt_single:
  "batch_pt solve 1 p T X0 nsp nel lewis M a X1 verbose w =
     bind_res (index w T 0) (\<lambda>T0. bind_res (index w p 0) (\<lambda>p0.
       bind_res (pt solve p0 T0 X0 nsp nel lewis M a X1 verbose w) (\<lambda>(r, w').
         Inr (r, if r = 0 then w' else printf ''Error in batch_pt @ position: %d'' [0] w'))))"
  by (simp add: batch_pt_def batch_pt_body_def for_loop.simps [of _ 0 1] for_loop.simps [of _ 1 1]
      ptr_add_def bind_res_def split: sum.splits prod.splits)

text \<open>
  The same for \<^verbatim>\<open>batch_rhou\<close> with \<open>N = 1\<close> and \<^verbatim>\<open>rhou\<close>: the call is made on
  \<^verbatim>\<open>rho[0]\<close> and \<^verbatim>\<open>u[0]\<close> with \<open>X0\<close>, \<open>X1\<close> and \<open>T\<close> themselves.
\<close>

theorem batch_rhou_single:
  "batch_rhou solve 1 rho u X0 nsp nel lewis M a X1 T verbose w =
     bind_res (index w rho 0) (\<lambda>rho0. bind_res (index w u 0) (\<lambda>u0.
       bind_res (rhou solve rho0 u0 X0 nsp nel lewis M a X1 T verbose w) (\<lambda>(r, w').
         Inr (r, if r = 0 then w' else printf ''Error in batch_rhou @ position: %d'' [0] w'))))"
  by (simp add: batch_rhou_def batch_rhou_body_def for_loop.simps [of _ 0 1] for_loop.simps [of _ 1 1]
      ptr_add_def bind_res_def split: sum.splits prod.splits)

section \<open>Arrays that overlap\<close>

text \<open>
  The separation of the arrays is needed for the independence of the inputs:
  an example. With the probe solver, two inputs of two species, \<open>X0\<close> at cell 10 and \<open>X1\<close> at cell
  12, slice 0 of \<open>X1\<close> is slice 1 of \<open>X0\<close>: \<^verbatim>\<open>batch_pt\<close> returns 0, and so does the
  direct call for input 1 on the initial memory, but the cell 14 that the batch
  leaves holds what input 0 wrote into the input of input 1, and not what the
  direct call writes.
\<close>

lemma batch_pt_overlap_dependent:
  "\<exists>w' wi. batch_pt probe_solve_pt 2 0 0 10 2 1 30 40 50 12 0 probe_world = Inr (0, w') \<and>
     pt_call_at probe_solve_pt 0 0 10 2 1 30 40 50 12 0 1 probe_world = Inr (0, wi) \<and>
     heap wi 14 = Some (- 9) \<and> heap w' 14 = Some (- 7) \<and>
     \<not> batch_pt_separate 2 0 0 10 2 1 30 40 50 12"
  by (simp add: batch_pt_unfold for_loop.simps probe_eval batch_pt_separate_def disjoint_regions_def)

section \<open>The program entry\<close>

text \<open>
  \<^verbatim>\<open>main\<close> returns 0, leaves the memory as it is and appends the 22 characters
  \<^verbatim>\<open>Called main in ceq.c!\<close> and a newline to the output: the text has no conversion
  for \<^verbatim>\<open>printf\<close> to expand.
\<close>

lemma main_prints_line:
  "\<exists>w'. main w = Inr (0, w') \<and> heap w' = heap w \<and>
     stdout w' = stdout w @ ''Called main in ceq.c!'' @ [CHR 0x0A] \<and>
     length (stdout w') = length (stdout w) + 22"
  by (simp add: main_def)

section \<open>Termination of the loops\<close>

text \<open>
  C33. Both loops terminate, whatever the solver returns: the step relation of
  the loop of \<^verbatim>\<open>batch_pt\<close> and that of \<^verbatim>\<open>batch_rhou\<close> admit no infinite execution
  (their converse is well-founded), and from counter 0 each machine reaches the
  result of its function within \<open>N + 1\<close> steps (one step when \<open>N\<close> is not positive):
  \<open>N\<close> runs of the body at most and the last test of the loop condition.
\<close>

theorem batch_loops_terminate:
  "wfp (loop_step (batch_pt_body solve p T X0 nsp nel lewis M a X1 verbose) N)\<inverse>\<inverse> \<and>
   (\<exists>k\<le>nat (sint N) + 1.
      (loop_step (batch_pt_body solve p T X0 nsp nel lewis M a X1 verbose) N ^^ k) (Running 0 w)
        (config_of (batch_pt solve N p T X0 nsp nel lewis M a X1 verbose w))) \<and>
   wfp (loop_step (batch_rhou_body solve' rho u X0 nsp nel lewis M a X1 T' verbose) N)\<inverse>\<inverse> \<and>
   (\<exists>k\<le>nat (sint N) + 1.
      (loop_step (batch_rhou_body solve' rho u X0 nsp nel lewis M a X1 T' verbose) N ^^ k) (Running 0 w)
        (config_of (batch_rhou solve' N rho u X0 nsp nel lewis M a X1 T' verbose w)))"
  using batch_run_terminates [of N "pt_call_at solve p T X0 nsp nel lewis M a X1 verbose" batch_pt_message w]
    batch_run_terminates [of N "rhou_call_at solve' rho u X0 nsp nel lewis M a X1 T' verbose" batch_rhou_message w]
  by (simp add: loop_step_wfp batch_pt_body_eq batch_rhou_body_eq batch_pt_batch_run batch_rhou_batch_run)

theorem batch_loops_terminate_witness:
  "\<exists>k\<le>3. (loop_step (batch_pt_body probe_solve_pt 2 0 10 1 1 30 57 58 20 0) 2 ^^ k)
      (Running 0 probe_world)
      (config_of (batch_pt probe_solve_pt 2 2 0 10 1 1 30 57 58 20 0 probe_world))"
  using batch_loops_terminate [of probe_solve_pt 2 0 10 1 1 30 57 58 20 0 2 probe_world]
  by simp

end
